(* ===== verification/Prelude.thy ===== *)
theory Prelude
  imports Complex_Main "HOL-Library.Char_ord" "HOL-Library.List_Lexorder"
begin

text \<open>
  The shared vocabulary of the development: exceptions as values and the result type that
  carries them, the insertion-ordered dictionary of Python as an association list, loops over
  lists that may raise, and the lemmas every component uses about them.
\<close>

named_theorems res_simps \<open>equations for results, sequencing and loops that may raise\<close>
named_theorems dict_simps \<open>equations for the insertion-ordered dictionaries\<close>

section \<open>Exceptions and results\<close>

text \<open>
  The exceptions the modelled code raises or lets pass. A message is kept where the code shows
  it (in a log line it is dropped, in \<open>last_collection_error\<close> it is stored).
\<close>

datatype exn =
    ValueError string
  | TypeErr
  | KeyErr string
  | AttributeErr
  | ZeroDivisionErr
  | OverflowErr
  | RuntimeErr string
  | NotImplementedErr string
  | OSErr
  | TimeoutErr
  | GenericErr string

type_synonym 'a res = "exn + 'a"

fun rbind :: "'a res \<Rightarrow> ('a \<Rightarrow> 'b res) \<Rightarrow> 'b res" where
  "rbind (Inl e) f = Inl e"
| "rbind (Inr x) f = f x"

fun rmap :: "('a \<Rightarrow> 'b) \<Rightarrow> 'a res \<Rightarrow> 'b res" where
  "rmap f (Inl e) = Inl e"
| "rmap f (Inr x) = Inr (f x)"

definition returns :: "'a res \<Rightarrow> bool" where
  "returns r = (case r of Inl _ \<Rightarrow> False | Inr _ \<Rightarrow> True)"

lemma returns_simps [simp]: "returns (Inr x)" "\<not> returns (Inl e)"
  by (simp_all add: returns_def)

lemma returns_iff: "returns r \<longleftrightarrow> (\<exists>x. r = Inr x)"
  by (cases r) auto

lemma rbind_Inr_iff [res_simps]: "rbind r f = Inr y \<longleftrightarrow> (\<exists>x. r = Inr x \<and> f x = Inr y)"
  by (cases r) auto

lemma rbind_Inl_iff [res_simps]:
  "rbind r f = Inl e \<longleftrightarrow> r = Inl e \<or> (\<exists>x. r = Inr x \<and> f x = Inl e)"
  by (cases r) auto

lemma rbind_Inr_right [simp]: "rbind r Inr = r"
  by (cases r) auto

lemma rbind_assoc [simp]: "rbind (rbind r f) g = rbind r (\<lambda>x. rbind (f x) g)"
  by (cases r) auto

lemma rmap_rbind: "rmap f (rbind r g) = rbind r (\<lambda>x. rmap f (g x))"
  by (cases r) auto

lemma rmap_rmap: "rmap f (rmap g r) = rmap (\<lambda>x. f (g x)) r"
  by (cases r) auto

lemma rmap_Inr_iff [res_simps]: "rmap f r = Inr y \<longleftrightarrow> (\<exists>x. r = Inr x \<and> y = f x)"
  by (cases r) auto

lemma rmap_Inl_iff [res_simps]: "rmap f r = Inl e \<longleftrightarrow> r = Inl e"
  by (cases r) auto

section \<open>Loops that may raise\<close>

text \<open>\<open>for a in xs: s = step(a, s)\<close>, where a step may raise and so leave the loop.\<close>

fun rfold :: "('a \<Rightarrow> 's \<Rightarrow> 's res) \<Rightarrow> 'a list \<Rightarrow> 's \<Rightarrow> 's res" where
  "rfold f [] s = Inr s"
| "rfold f (x # xs) s = rbind (f x s) (rfold f xs)"

lemma rfold_append: "rfold f (xs @ ys) s = rbind (rfold f xs s) (rfold f ys)"
proof (induction xs arbitrary: s)
  case (Cons x xs)
  then show ?case by (cases "f x s") auto
qed simp

lemma rfold_invariant:
  assumes "\<And>a s s'. a \<in> set xs \<Longrightarrow> P s \<Longrightarrow> f a s = Inr s' \<Longrightarrow> P s'"
    and "P s" and "rfold f xs s = Inr s'"
  shows "P s'"
  using assms
proof (induction xs arbitrary: s)
  case Nil
  then show ?case by simp
next
  case (Cons x xs)
  from Cons.prems(3) obtain t where t: "f x s = Inr t" "rfold f xs t = Inr s'"
    by (auto simp: res_simps)
  have "P t" using Cons.prems(1,2) t(1) by (metis list.set_intros(1))
  then show ?case using Cons.IH [OF _ _ t(2)] Cons.prems(1) by (metis list.set_intros(2))
qed

lemma rfold_returns:
  assumes "\<And>a s. a \<in> set xs \<Longrightarrow> returns (f a s)"
  shows "returns (rfold f xs s)"
  using assms
proof (induction xs arbitrary: s)
  case Nil
  then show ?case by simp
next
  case (Cons x xs)
  from Cons.prems obtain t where "f x s = Inr t" by (auto simp: returns_iff)
  with Cons show ?case by simp
qed

fun rmapM :: "('a \<Rightarrow> 'b res) \<Rightarrow> 'a list \<Rightarrow> 'b list res" where
  "rmapM f [] = Inr []"
| "rmapM f (x # xs) = rbind (f x) (\<lambda>y. rmap ((#) y) (rmapM f xs))"

section \<open>Dictionaries in insertion order\<close>

text \<open>
  A Python dictionary with string keys: an association list in insertion order. Assigning to
  a key that is present keeps its place, assigning to a new key appends it.
\<close>

type_synonym 'v dict = "(string \<times> 'v) list"

definition dget :: "'v dict \<Rightarrow> string \<Rightarrow> 'v option" where
  "dget d k = map_of d k"

fun dset :: "'v dict \<Rightarrow> string \<Rightarrow> 'v \<Rightarrow> 'v dict" where
  "dset [] k v = [(k, v)]"
| "dset ((k', v') # d) k v = (if k' = k then (k, v) # d else (k', v') # dset d k v)"

fun ddel :: "'v dict \<Rightarrow> string \<Rightarrow> 'v dict" where
  "ddel [] k = []"
| "ddel ((k', v') # d) k = (if k' = k then d else (k', v') # ddel d k)"

definition dkeys :: "'v dict \<Rightarrow> string list" where
  "dkeys d = map fst d"

definition dhas :: "'v dict \<Rightarrow> string \<Rightarrow> bool" where
  "dhas d k = (dget d k \<noteq> None)"

definition dget_or :: "'v dict \<Rightarrow> string \<Rightarrow> 'v \<Rightarrow> 'v" where
  "dget_or d k v = (case dget d k of None \<Rightarrow> v | Some w \<Rightarrow> w)"

text \<open>\<open>d.update(e)\<close>: the entries of \<open>e\<close> assigned in order.\<close>

definition dupdate :: "'v dict \<Rightarrow> 'v dict \<Rightarrow> 'v dict" where
  "dupdate d e = fold (\<lambda>(k, v) d. dset d k v) e d"

definition wf_dict :: "'v dict \<Rightarrow> bool" where
  "wf_dict d = distinct (dkeys d)"

lemma dget_Nil [simp]: "dget [] k = None"
  by (simp add: dget_def)

lemma dget_Cons [dict_simps]: "dget ((k', v) # d) k = (if k' = k then Some v else dget d k)"
  by (simp add: dget_def)

lemma dkeys_simps [simp]: "dkeys [] = []" "dkeys ((k, v) # d) = k # dkeys d"
  by (simp_all add: dkeys_def)

lemma dget_dset [dict_simps]: "dget (dset d k v) k' = (if k' = k then Some v else dget d k')"
  by (induction d k v rule: dset.induct) (auto simp: dget_Cons)

lemma set_dkeys_dset [dict_simps]: "set (dkeys (dset d k v)) = insert k (set (dkeys d))"
  by (induction d k v rule: dset.induct) auto

lemma dget_None_iff: "dget d k = None \<longleftrightarrow> k \<notin> set (dkeys d)"
  by (simp add: dget_def dkeys_def map_of_eq_None_iff)

lemma dhas_iff: "dhas d k \<longleftrightarrow> k \<in> set (dkeys d)"
  by (simp add: dhas_def dget_None_iff)

lemma dset_present_keys: "k \<in> set (dkeys d) \<Longrightarrow> dkeys (dset d k v) = dkeys d"
  by (induction d k v rule: dset.induct) auto

lemma dset_absent: "k \<notin> set (dkeys d) \<Longrightarrow> dset d k v = d @ [(k, v)]"
  by (induction d k v rule: dset.induct) auto

lemma set_dset: "set (dset d k v) \<subseteq> insert (k, v) (set d)"
  by (induction d k v rule: dset.induct) auto

lemma in_set_dset: "kv \<in> set (dset d k v) \<Longrightarrow> kv = (k, v) \<or> kv \<in> set d"
  using set_dset by fast

lemma dset_ddel_idem: "dset (dset d k v) k w = dset d k w"
  by (induction d k v rule: dset.induct) auto

lemma wf_dict_Nil [simp]: "wf_dict []"
  by (simp add: wf_dict_def)

lemma wf_dict_dset: "wf_dict d \<Longrightarrow> wf_dict (dset d k v)"
  unfolding wf_dict_def by (induction d k v rule: dset.induct) (auto simp: dict_simps)

lemma dget_in_set: "dget d k = Some v \<Longrightarrow> (k, v) \<in> set d"
  by (simp add: dget_def map_of_SomeD)

lemma in_set_dget: "wf_dict d \<Longrightarrow> (k, v) \<in> set d \<Longrightarrow> dget d k = Some v"
  by (simp add: dget_def wf_dict_def dkeys_def)

lemma dupdate_Nil [simp]: "dupdate d [] = d"
  by (simp add: dupdate_def)

lemma dupdate_Cons [dict_simps]: "dupdate d ((k, v) # e) = dupdate (dset d k v) e"
  by (simp add: dupdate_def)

lemma wf_dict_dupdate: "wf_dict d \<Longrightarrow> wf_dict (dupdate d e)"
  by (induction e arbitrary: d) (auto simp: dict_simps wf_dict_dset)

lemma set_dkeys_dupdate [dict_simps]:
  "set (dkeys (dupdate d e)) = set (dkeys d) \<union> set (dkeys e)"
  by (induction e arbitrary: d) (auto simp: dict_simps)

lemma dget_dupdate_other: "k \<notin> set (dkeys e) \<Longrightarrow> dget (dupdate d e) k = dget d k"
  by (induction e arbitrary: d) (auto simp: dict_simps)

lemma dget_dupdate:
  "wf_dict e \<Longrightarrow> dget (dupdate d e) k = (case dget e k of None \<Rightarrow> dget d k | Some v \<Rightarrow> Some v)"
proof (induction e arbitrary: d)
  case Nil
  then show ?case by simp
next
  case (Cons kv e)
  obtain k' v where kv: "kv = (k', v)" by (cases kv)
  have wf: "wf_dict e" and "k' \<notin> set (dkeys e)"
    using Cons.prems by (auto simp: wf_dict_def kv)
  then show ?case
    using Cons.IH [OF wf, of "dset d k' v"]
    by (cases "k = k'") (simp_all add: kv dict_simps dget_None_iff [symmetric] split: option.split)
qed

lemma ddel_absent: "k \<notin> set (dkeys d) \<Longrightarrow> ddel d k = d"
  by (induction d k rule: ddel.induct) auto

lemma set_dkeys_ddel: "wf_dict d \<Longrightarrow> set (dkeys (ddel d k)) = set (dkeys d) - {k}"
  unfolding wf_dict_def by (induction d k rule: ddel.induct) auto

lemma wf_dict_ddel: "wf_dict d \<Longrightarrow> wf_dict (ddel d k)"
proof (induction d k rule: ddel.induct)
  case (2 k' v' d k)
  then have "wf_dict d" by (simp add: wf_dict_def)
  with 2 show ?case by (auto simp: wf_dict_def set_dkeys_ddel [unfolded wf_dict_def])
qed simp

lemma dget_ddel: "wf_dict d \<Longrightarrow> dget (ddel d k) k' = (if k' = k then None else dget d k')"
  by (induction d k rule: ddel.induct) (auto simp: wf_dict_def dget_Cons dget_None_iff)

lemma ddel_dset_same: "wf_dict d \<Longrightarrow> ddel (dset d k v) k = ddel d k"
  by (induction d k v rule: dset.induct) (auto simp: wf_dict_def)

lemma ddel_dset_other: "k \<noteq> k' \<Longrightarrow> ddel (dset d k v) k' = dset (ddel d k') k v"
  by (induction d k v rule: dset.induct) (auto simp: ddel_absent)

lemma dset_commute:
  "k \<in> set (dkeys m) \<Longrightarrow> a \<noteq> k \<Longrightarrow> dset (dset m a b) k v = dset (dset m k v) a b"
  by (induction m) auto

lemma dset_dupdate_present:
  "k \<in> set (dkeys m) \<Longrightarrow> k \<notin> set (dkeys d) \<Longrightarrow> dset (dupdate m d) k v = dupdate (dset m k v) d"
proof (induction d arbitrary: m)
  case (Cons ab d)
  obtain a b where ab: "ab = (a, b)" by (cases ab)
  have "dset (dset m a b) k v = dset (dset m k v) a b"
    using Cons.prems ab by (intro dset_commute) auto
  moreover have "dset (dupdate (dset m a b) d) k v = dupdate (dset (dset m a b) k v) d"
    using Cons.prems by (intro Cons.IH) (auto simp: ab dict_simps)
  ultimately show ?case by (simp add: ab dict_simps)
qed simp

lemma dupdate_dset:
  "wf_dict n \<Longrightarrow> dupdate m (dset n k v) = dset (dupdate m n) k v"
proof (induction n k v arbitrary: m rule: dset.induct)
  case (2 k' v' d k v)
  then have d: "wf_dict d" "k' \<notin> set (dkeys d)" by (simp_all add: wf_dict_def)
  show ?case
  proof (cases "k' = k")
    case True
    with d have "dset (dupdate (dset m k' v') d) k v = dupdate (dset (dset m k' v') k v) d"
      by (simp add: dset_dupdate_present dict_simps)
    with True show ?thesis by (simp add: dict_simps dset_ddel_idem)
  next
    case False
    with 2 d show ?thesis by (simp add: dict_simps)
  qed
qed (simp add: dict_simps)

section \<open>Lists\<close>

text \<open>\<open>enumerate(xs)\<close>.\<close>

definition enum :: "'a list \<Rightarrow> (nat \<times> 'a) list" where
  "enum xs = zip [0..<length xs] xs"

lemma in_set_enum: "(i, x) \<in> set (enum xs) \<Longrightarrow> i < length xs \<and> x = xs ! i"
  by (auto simp: enum_def set_zip)

lemma length_enum [simp]: "length (enum xs) = length xs"
  by (simp add: enum_def)

lemma prefix_take_append: "take (length xs) (xs @ ys) = xs"
  by simp

end
