(* ===== verification/PyFloat.thy ===== *)
theory PyFloat
  imports Prelude
begin

text \<open>
  Python's \<open>float\<close>: IEEE 754 binary64 with round-to-nearest-even, computed exactly. A
  finite float is the rational number it denotes; \<open>rnd\<close> rounds a rational to the nearest
  binary64 value (subnormals included) and \<open>fl\<close> adds the overflow to infinity. The sign of
  zero is not kept: \<open>-0.0\<close> and \<open>0.0\<close> are one value, as they are for Python's \<open>==\<close>.
  \<open>round(x, n)\<close> is CPython's: the exact value of \<open>x\<close> is rounded half-even to \<open>n\<close>
  decimals and the result is rounded to binary64.
\<close>

section \<open>Rounding to an integer, half to even\<close>

definition rhe :: "rat \<Rightarrow> int" where
  "rhe x = (let f = \<lfloor>x\<rfloor>; d = x - of_int f in
     if d < 1/2 then f else if 1/2 < d then f + 1 else if even f then f else f + 1)"

lemma rhe_of_int [simp]: "rhe (of_int n) = n"
  by (simp add: rhe_def)

lemma rhe_error: "\<bar>of_int (rhe x) - x\<bar> \<le> 1/2"
proof -
  have "of_int \<lfloor>x\<rfloor> \<le> x" "x < of_int \<lfloor>x\<rfloor> + 1" by linarith+
  then show ?thesis by (auto simp: rhe_def Let_def abs_le_iff)
qed

lemma rhe_le_of_int: "x \<le> of_int n \<Longrightarrow> rhe x \<le> n"
proof (rule ccontr)
  assume x: "x \<le> of_int n" and "\<not> rhe x \<le> n"
  then have "of_int n + 1 \<le> (of_int (rhe x) :: rat)"
    by (metis add.commute not_le of_int_1 of_int_add of_int_le_iff zless_imp_add1_zle)
  with x rhe_error [of x] show False by linarith
qed

lemma of_int_le_rhe: "of_int n \<le> x \<Longrightarrow> n \<le> rhe x"
proof (rule ccontr)
  assume x: "of_int n \<le> x" and "\<not> n \<le> rhe x"
  then have "of_int (rhe x) + 1 \<le> (of_int n :: rat)"
    by (metis add.commute not_le of_int_1 of_int_add of_int_le_iff zless_imp_add1_zle)
  with x rhe_error [of x] show False by linarith
qed

lemma rhe_floor_ceiling: "\<lfloor>x\<rfloor> \<le> rhe x \<and> rhe x \<le> \<lfloor>x\<rfloor> + 1"
  by (auto simp: rhe_def Let_def)

lemma rhe_mono: "x \<le> y \<Longrightarrow> rhe x \<le> rhe y"
proof (cases "\<lfloor>x\<rfloor> = \<lfloor>y\<rfloor>")
  case True
  assume "x \<le> y"
  with True show ?thesis by (auto simp: rhe_def Let_def)
next
  case False
  assume "x \<le> y"
  then have "\<lfloor>x\<rfloor> \<le> \<lfloor>y\<rfloor>" by (rule floor_mono)
  with False have "\<lfloor>x\<rfloor> + 1 \<le> \<lfloor>y\<rfloor>" by simp
  with rhe_floor_ceiling [of x] rhe_floor_ceiling [of y] show ?thesis by linarith
qed

lemma rhe_minus: "rhe (- x) = - rhe x"
proof (cases "x = of_int \<lfloor>x\<rfloor>")
  case True
  then show ?thesis by (metis of_int_minus rhe_of_int)
next
  case False
  have "of_int \<lfloor>x\<rfloor> \<le> x" "x < of_int \<lfloor>x\<rfloor> + 1" by linarith+
  with False have m: "\<lfloor>- x\<rfloor> = - \<lfloor>x\<rfloor> - 1"
    by (intro floor_unique) (simp_all, linarith+)
  obtain f where f: "\<lfloor>x\<rfloor> = f" by simp
  show ?thesis unfolding rhe_def m f Let_def by (auto simp: field_simps)
qed

section \<open>Rounding to binary64\<close>

function ilog2 :: "int \<Rightarrow> int" where
  "ilog2 n = (if n < 2 then 0 else 1 + ilog2 (n div 2))"
  by pat_completeness auto
termination
  by (relation "measure nat") auto

declare ilog2.simps [simp del]

lemma ilog2_bounds:
  "0 < n \<Longrightarrow> 0 \<le> ilog2 n \<and> 2 powi ilog2 n \<le> (of_int n :: rat) \<and> of_int n < (2 * 2 powi ilog2 n :: rat)"
proof (induction n rule: ilog2.induct)
  case (1 n)
  show ?case
  proof (cases "n < 2")
    case True
    with 1 have "n = 1" by simp
    then show ?thesis by (simp add: ilog2.simps [of 1])
  next
    case False
    define m where "m = n div 2"
    have IH: "0 \<le> ilog2 m" "2 powi ilog2 m \<le> (of_int m :: rat)"
      "of_int m < (2 * 2 powi ilog2 m :: rat)"
      using 1 False by (simp_all add: m_def)
    have e: "ilog2 n = 1 + ilog2 m" using False by (simp add: ilog2.simps [of n] m_def)
    have "(2 powi ilog2 m :: rat) = of_int (2 ^ nat (ilog2 m))"
      using IH(1) by (simp add: power_int_def)
    then have "2 ^ nat (ilog2 m) \<le> m" "m < 2 * 2 ^ nat (ilog2 m)"
      using IH by (metis of_int_le_iff, metis of_int_less_iff of_int_mult of_int_numeral)
    then have "2 * 2 ^ nat (ilog2 m) \<le> n" "n < 4 * 2 ^ nat (ilog2 m)"
      by (simp_all add: m_def)
    then have "(of_int (2 * 2 ^ nat (ilog2 m)) :: rat) \<le> of_int n"
      "(of_int n :: rat) < of_int (4 * 2 ^ nat (ilog2 m))"
      by (simp_all only: of_int_le_iff of_int_less_iff)
    then show ?thesis using IH(1) by (simp add: e power_int_def nat_add_distrib)
  qed
qed

text \<open>The binary exponent of a positive rational: \<open>2^e \<le> x < 2^(e+1)\<close>.\<close>

definition fexp :: "rat \<Rightarrow> int" where
  "fexp x = (let (n, d) = quotient_of x; k = ilog2 n - ilog2 d
     in if 2 powi k \<le> x then k else k - 1)"

lemma fexp_bounds:
  assumes "0 < x"
  shows "2 powi fexp x \<le> x \<and> x < 2 powi (fexp x + 1)"
proof -
  obtain n d where q: "quotient_of x = (n, d)" by fastforce
  have d: "0 < d" using q by (rule quotient_of_denom_pos)
  have x: "x = of_int n / of_int d" using q by (rule quotient_of_div)
  have n: "0 < n" using assms d by (simp add: x zero_less_divide_iff)
  define a b where "a = (2 powi ilog2 n :: rat)" and "b = (2 powi ilog2 d :: rat)"
  have na: "a \<le> of_int n" "of_int n < 2 * a" using ilog2_bounds [OF n] by (simp_all add: a_def)
  have db: "b \<le> of_int d" "of_int d < 2 * b" using ilog2_bounds [OF d] by (simp_all add: b_def)
  have pos: "0 < a" "0 < b" "(0 :: rat) < of_int d" using d by (simp_all add: a_def b_def)
  have powi: "(2 powi (ilog2 n - ilog2 d) :: rat) = a / b"
    by (simp add: power_int_diff a_def b_def)
  have up: "x < 2 powi (ilog2 n - ilog2 d + 1)"
  proof -
    have "of_int n * b < (2 * a) * b" using na pos by simp
    also have "\<dots> \<le> (2 * a) * of_int d" using db pos by (intro mult_left_mono) simp_all
    finally have "of_int n / of_int d < (2 * a) / b"
      using pos by (simp add: field_simps)
    then show ?thesis by (simp add: x power_int_add powi mult.commute)
  qed
  have low: "2 powi (ilog2 n - ilog2 d - 1) \<le> x"
  proof -
    have "a * of_int d \<le> of_int n * (2 * b)"
      using na db pos by (intro mult_mono) simp_all
    then have "a / (2 * b) \<le> of_int n / of_int d"
      using pos by (simp add: field_simps)
    moreover have "2 powi (ilog2 n - ilog2 d - 1) = a / (2 * b)"
      by (simp add: power_int_diff [of 2 "ilog2 n - ilog2 d" 1] powi)
    ultimately show ?thesis by (simp add: x)
  qed
  show ?thesis using up low by (simp add: fexp_def q Let_def)
qed

lemma powi2_le_iff [simp]: "(2 powi m :: rat) \<le> 2 powi n \<longleftrightarrow> m \<le> n"
  by (metis linorder_not_le nle_le one_less_numeral_iff power_int_increasing
      power_int_strict_increasing semiring_norm(76) order_less_imp_le not_less_iff_gr_or_eq)

lemma powi2_less_iff [simp]: "(2 powi m :: rat) < 2 powi n \<longleftrightarrow> m < n"
  by (metis linorder_not_le powi2_le_iff)

lemma fexp_mono:
  assumes "0 < x" "x \<le> y"
  shows "fexp x \<le> fexp y"
proof -
  have "2 powi fexp x < (2 powi (fexp y + 1) :: rat)"
    using fexp_bounds [of x] fexp_bounds [of y] assms by linarith
  then show ?thesis by simp
qed

text \<open>The exponent of the unit in the last place, bounded below for the subnormals.\<close>

definition ulp_exp :: "rat \<Rightarrow> int" where
  "ulp_exp x = max (fexp x - 52) (- 1074)"

definition rnd :: "rat \<Rightarrow> rat" where
  "rnd x = (if x = 0 then 0 else
     let q = ulp_exp \<bar>x\<bar> in of_int (rhe (x / 2 powi q)) * 2 powi q)"

lemma rnd_0 [simp]: "rnd 0 = 0"
  by (simp add: rnd_def)

lemma rnd_minus: "rnd (- x) = - rnd x"
  by (simp add: rnd_def Let_def rhe_minus)

lemma rnd_nonneg: "0 \<le> x \<Longrightarrow> 0 \<le> rnd x"
proof -
  assume "0 \<le> x"
  then have "of_int 0 \<le> x / 2 powi ulp_exp \<bar>x\<bar>" by simp
  then have "0 \<le> rhe (x / 2 powi ulp_exp \<bar>x\<bar>)" by (rule of_int_le_rhe)
  then show ?thesis by (simp add: rnd_def Let_def)
qed

lemma ulp_exp_upper:
  assumes "0 < x"
  shows "x / 2 powi ulp_exp x \<le> 2 ^ 53"
proof -
  have "x \<le> 2 powi (ulp_exp x + 53)"
    using fexp_bounds [OF assms] order_trans less_imp_le
    by (smt (verit) powi2_le_iff ulp_exp_def)
  then show ?thesis by (simp add: power_int_add field_simps)
qed

lemma ulp_exp_lower:
  assumes "0 < x" "- 1074 < ulp_exp x"
  shows "2 ^ 52 \<le> x / 2 powi ulp_exp x"
proof -
  have "ulp_exp x + 52 = fexp x" using assms(2) by (simp add: ulp_exp_def)
  then have "2 powi (ulp_exp x + 52) \<le> x" using fexp_bounds [OF assms(1)] by simp
  then show ?thesis by (simp add: power_int_add field_simps)
qed

lemma rnd_mono_pos:
  assumes "0 < x" "x \<le> y"
  shows "rnd x \<le> rnd y"
proof (cases "ulp_exp x = ulp_exp y")
  case True
  have "x / 2 powi ulp_exp x \<le> y / 2 powi ulp_exp x" using assms by (simp add: divide_right_mono)
  with True assms show ?thesis by (simp add: rnd_def Let_def rhe_mono)
next
  case False
  have le: "ulp_exp x < ulp_exp y"
    using False fexp_mono [OF assms] unfolding ulp_exp_def max_def by (simp split: if_splits)
  then have "- 1074 < ulp_exp y" by (simp add: ulp_exp_def)
  then have y: "of_int (2 ^ 52) \<le> y / 2 powi ulp_exp y" using ulp_exp_lower [of y] assms by simp
  have x: "x / 2 powi ulp_exp x \<le> of_int (2 ^ 53)" using ulp_exp_upper [OF assms(1)] by simp
  have "rhe (x / 2 powi ulp_exp x) \<le> 2 ^ 53" using x by (rule rhe_le_of_int)
  then have "(of_int (rhe (x / 2 powi ulp_exp x)) :: rat) \<le> of_int (2 ^ 53)"
    by (simp only: of_int_le_iff)
  then have "rnd x \<le> of_int (2 ^ 53) * 2 powi ulp_exp x"
    using assms by (simp add: rnd_def Let_def)
  also have "\<dots> = 2 powi (ulp_exp x + 53)" by (simp add: power_int_add)
  also have "\<dots> \<le> 2 powi (ulp_exp y + 52)" using le by simp
  also have "\<dots> = of_int (2 ^ 52) * 2 powi ulp_exp y" by (simp add: power_int_add)
  also have "\<dots> \<le> rnd y"
  proof -
    have "2 ^ 52 \<le> rhe (y / 2 powi ulp_exp y)" using y by (rule of_int_le_rhe)
    then have "(of_int (2 ^ 52) :: rat) \<le> of_int (rhe (y / 2 powi ulp_exp y))"
      by (simp only: of_int_le_iff)
    then show ?thesis using assms by (simp add: rnd_def Let_def)
  qed
  finally show ?thesis .
qed

lemma rnd_mono: "x \<le> y \<Longrightarrow> rnd x \<le> rnd y"
proof (cases "0 < x")
  case True
  then show "x \<le> y \<Longrightarrow> ?thesis" by (rule rnd_mono_pos)
next
  case False
  assume le: "x \<le> y"
  show ?thesis
  proof (cases "0 \<le> y")
    case True
    have "rnd x \<le> 0" using rnd_nonneg [of "- x"] False by (simp add: rnd_minus)
    then show ?thesis using rnd_nonneg [OF True] by linarith
  next
    case False
    then show ?thesis using le rnd_mono_pos [of "- y" "- x"] by (simp add: rnd_minus)
  qed
qed

text \<open>Integers up to \<open>2^53\<close> are floats; so is every multiple of the unit in the last place.\<close>

lemma rnd_representable:
  assumes "0 < x" "x = of_int m * 2 powi ulp_exp x"
  shows "rnd x = x"
proof -
  have "x / 2 powi ulp_exp x = of_int m" using assms(2) by (metis nonzero_mult_div_cancel_right
      power_int_not_zero zero_neq_numeral)
  then show ?thesis using assms by (simp add: rnd_def Let_def)
qed

lemma rnd_of_nat:
  assumes "n \<le> 2 ^ 53"
  shows "rnd (of_nat n) = of_nat n"
proof (cases "n = 0")
  case True
  then show ?thesis by simp
next
  case False
  define x where "x = (of_nat n :: rat)"
  have x: "0 < x" using False by (simp add: x_def)
  show ?thesis
  proof (cases "ulp_exp x \<le> 0")
    case True
    define k where "k = nat (- ulp_exp x)"
    have "x = of_int (int n * 2 ^ k) * 2 powi ulp_exp x"
      using True by (simp add: x_def k_def power_int_def field_simps)
    with x have "rnd x = x" by (rule rnd_representable)
    then show ?thesis by (simp add: x_def)
  next
    case False
    then have "2 ^ 52 \<le> x / 2 powi ulp_exp x" using ulp_exp_lower [OF x] by simp
    then have "2 powi (ulp_exp x + 52) \<le> x" by (simp add: power_int_add field_simps)
    moreover have "(2 powi 53 :: rat) \<le> 2 powi (ulp_exp x + 52)"
      using False by (simp only: powi2_le_iff)
    ultimately have "2 powi 53 \<le> x" by linarith
    then have "(of_nat (2 ^ 53) :: rat) \<le> of_nat n" by (simp add: x_def)
    then have "2 ^ 53 \<le> n" by (simp only: of_nat_le_iff)
    with assms have n: "n = 2 ^ 53" by simp
    have "rnd (2 ^ 53) = 2 ^ 53" by code_simp
    then show ?thesis by (simp only: n of_nat_power of_nat_numeral)
  qed
qed

lemma rnd_of_int: "\<bar>n\<bar> \<le> 2 ^ 53 \<Longrightarrow> rnd (of_int n) = of_int n"
proof (cases "0 \<le> n")
  case True
  assume "\<bar>n\<bar> \<le> 2 ^ 53"
  with True have "nat n \<le> 2 ^ 53" by (simp add: nat_le_iff)
  then have "rnd (of_nat (nat n)) = of_nat (nat n)" by (rule rnd_of_nat)
  with True show ?thesis by simp
next
  case False
  assume "\<bar>n\<bar> \<le> 2 ^ 53"
  with False have "nat (- n) \<le> 2 ^ 53" by (simp add: nat_le_iff)
  then have "rnd (of_nat (nat (- n))) = of_nat (nat (- n))" by (rule rnd_of_nat)
  with False have "rnd (- of_int n) = - of_int n" by simp
  then show ?thesis by (simp add: rnd_minus)
qed

lemma rnd_error_ulp: "\<bar>rnd x - x\<bar> \<le> 2 powi (ulp_exp \<bar>x\<bar> - 1)"
proof (cases "x = 0")
  case True
  then show ?thesis by simp
next
  case False
  define u where "u = (2 powi ulp_exp \<bar>x\<bar> :: rat)"
  have u: "0 < u" by (simp add: u_def)
  have "\<bar>rnd x - x\<bar> = \<bar>of_int (rhe (x / u)) - x / u\<bar> * u"
  proof -
    have "rnd x - x = (of_int (rhe (x / u)) - x / u) * u"
      using False u by (simp add: rnd_def Let_def u_def [symmetric] left_diff_distrib)
    then show ?thesis using u by (simp add: abs_mult)
  qed
  also have "\<dots> \<le> 1/2 * u" using rhe_error u by (intro mult_right_mono) simp_all
  finally show ?thesis by (simp add: u_def power_int_diff)
qed

text \<open>The relative error is at most \<open>2^-53\<close> away from the subnormal range.\<close>

lemma rnd_error:
  assumes "2 powi (- 1022) \<le> \<bar>x\<bar>"
  shows "\<bar>rnd x - x\<bar> \<le> \<bar>x\<bar> / 2 ^ 53"
proof -
  have x: "0 < \<bar>x\<bar>" by (rule less_le_trans [OF _ assms]) (simp add: zero_less_power_int)
  have "(2 powi (- 1022) :: rat) < 2 powi (fexp \<bar>x\<bar> + 1)"
    using assms fexp_bounds [OF x] by linarith
  then have "- 1022 < fexp \<bar>x\<bar> + 1" by (simp only: powi2_less_iff)
  then have e: "ulp_exp \<bar>x\<bar> = fexp \<bar>x\<bar> - 52" by (simp add: ulp_exp_def)
  have "2 powi (ulp_exp \<bar>x\<bar> - 1) = 2 powi fexp \<bar>x\<bar> / (2 ^ 53 :: rat)"
    by (simp add: e power_int_diff)
  also have "\<dots> \<le> \<bar>x\<bar> / 2 ^ 53" using fexp_bounds [OF x] by (simp add: divide_right_mono)
  finally show ?thesis using rnd_error_ulp [of x] by linarith
qed

text \<open>Every multiple of a power of two whose factor fits 53 bits is a float.\<close>

lemma rnd_dyadic_pos:
  assumes "0 < n" "n \<le> 2 ^ 53" "- 1074 \<le> k"
  shows "rnd (of_int n * 2 powi k) = of_int n * 2 powi k"
proof -
  define x u where "x = (of_int n * 2 powi k :: rat)" and "u = ulp_exp x"
  have x: "0 < x" using assms(1) by (simp add: x_def)
  show ?thesis
  proof (cases "u \<le> k")
    case True
    then have "(2 powi k :: rat) = 2 ^ nat (k - u) * 2 powi u"
      using power_int_add [of "2 :: rat" "k - u" u] by (simp add: power_int_def [of _ "k - u"])
    then have "x = of_int (n * 2 ^ nat (k - u)) * 2 powi u" by (simp add: x_def)
    then show ?thesis using rnd_representable [OF x, of "n * 2 ^ nat (k - u)"] by (simp add: u_def x_def)
  next
    case False
    then have "- 1074 < u" using assms(3) by simp
    then have "2 ^ 52 \<le> x / 2 powi u" using ulp_exp_lower [OF x] by (simp add: u_def)
    then have "(2 powi 52 * 2 powi u :: rat) \<le> x" by (simp add: field_simps)
    moreover have "(2 powi (52 + u - k) * 2 powi k :: rat) = 2 powi 52 * 2 powi u"
      using power_int_add [of "2 :: rat" "52 + u - k" k] power_int_add [of "2 :: rat" 52 u] by simp
    ultimately have "(2 powi (52 + u - k) * 2 powi k :: rat) \<le> of_int n * 2 powi k"
      by (simp only: x_def)
    then have "(2 powi (52 + u - k) :: rat) \<le> of_int n" by simp
    moreover have "(of_int n :: rat) \<le> of_int (2 ^ 53)" using assms(2) by (simp only: of_int_le_iff)
    then have "(of_int n :: rat) \<le> 2 powi 53" by simp
    ultimately have "(2 powi (52 + u - k) :: rat) \<le> 2 powi 53" by (rule order_trans)
    then have "u = k + 1" using False by (simp only: powi2_le_iff)
    moreover from this \<open>2 powi (52 + u - k) \<le> of_int n\<close> have "(2 ^ 53 :: rat) \<le> of_int n" by simp
    then have "n = 2 ^ 53" using \<open>(of_int n :: rat) \<le> 2 powi 53\<close> by simp
    ultimately have "x = of_int (2 ^ 52) * 2 powi u" by (simp add: x_def power_int_add)
    then show ?thesis using rnd_representable [OF x, of "2 ^ 52"] by (simp add: u_def x_def)
  qed
qed

lemma rnd_dyadic:
  assumes "\<bar>n\<bar> \<le> 2 ^ 53" "- 1074 \<le> k"
  shows "rnd (of_int n * 2 powi k) = of_int n * 2 powi k"
proof -
  consider "n = 0" | "0 < n" | "0 < - n" by linarith
  then show ?thesis
  proof cases
    case 3
    then have "rnd (of_int (- n) * 2 powi k) = of_int (- n) * 2 powi k"
      using assms by (intro rnd_dyadic_pos) auto
    then show ?thesis using rnd_minus [of "of_int n * 2 powi k"] by simp
  qed (use assms rnd_dyadic_pos in auto)
qed

text \<open>Rounding twice is rounding once.\<close>

lemma rhe_ulp_bound: "\<bar>rhe (x / 2 powi ulp_exp \<bar>x\<bar>)\<bar> \<le> 2 ^ 53" if "x \<noteq> 0"
proof -
  have "\<bar>x\<bar> / 2 powi ulp_exp \<bar>x\<bar> \<le> of_int (2 ^ 53)" using ulp_exp_upper [of "\<bar>x\<bar>"] that by simp
  then have "\<bar>x / 2 powi ulp_exp \<bar>x\<bar>\<bar> \<le> of_int (2 ^ 53)" by (simp add: abs_divide)
  then have "x / 2 powi ulp_exp \<bar>x\<bar> \<le> of_int (2 ^ 53)" "of_int (- (2 ^ 53)) \<le> x / 2 powi ulp_exp \<bar>x\<bar>"
    by (simp_all only: abs_le_iff of_int_minus) linarith
  then have "rhe (x / 2 powi ulp_exp \<bar>x\<bar>) \<le> 2 ^ 53" "- (2 ^ 53) \<le> rhe (x / 2 powi ulp_exp \<bar>x\<bar>)"
    by (blast intro: rhe_le_of_int of_int_le_rhe)+
  then show ?thesis by simp
qed

lemma rnd_rnd [simp]: "rnd (rnd x) = rnd x"
proof (cases "x = 0")
  case False
  then show ?thesis using rnd_dyadic [OF rhe_ulp_bound [OF False], of "ulp_exp \<bar>x\<bar>"]
    by (simp add: rnd_def [of x] Let_def ulp_exp_def)
qed simp

section \<open>Python floats and their operators\<close>

text \<open>\<open>Inf True\<close> is minus infinity.\<close>

datatype pyfloat = Fin rat | Inf bool | NaN

definition float_limit :: rat where
  "float_limit = 2 powi 1024"

text \<open>Being below the limit is decided on the exponent, so that it computes.\<close>

definition below_limit :: "rat \<Rightarrow> bool" where
  "below_limit y = (y = 0 \<or> fexp \<bar>y\<bar> < 1024)"

lemma below_limit_iff: "below_limit y \<longleftrightarrow> \<bar>y\<bar> < float_limit"
proof (cases "y = 0")
  case True
  then show ?thesis by (simp add: below_limit_def float_limit_def zero_less_power_int)
next
  case False
  then have b: "2 powi fexp \<bar>y\<bar> \<le> \<bar>y\<bar>" "\<bar>y\<bar> < 2 powi (fexp \<bar>y\<bar> + 1)"
    using fexp_bounds [of "\<bar>y\<bar>"] by simp_all
  show ?thesis
  proof
    assume "below_limit y"
    with False have "fexp \<bar>y\<bar> + 1 \<le> 1024" by (simp add: below_limit_def)
    then have "2 powi (fexp \<bar>y\<bar> + 1) \<le> float_limit" by (simp only: float_limit_def powi2_le_iff)
    with b show "\<bar>y\<bar> < float_limit" by linarith
  next
    assume "\<bar>y\<bar> < float_limit"
    with b have "2 powi fexp \<bar>y\<bar> < float_limit" by linarith
    then have "fexp \<bar>y\<bar> < 1024" by (simp only: float_limit_def powi2_less_iff)
    then show "below_limit y" by (simp add: below_limit_def)
  qed
qed

definition fl :: "rat \<Rightarrow> pyfloat" where
  "fl x = (let y = rnd x in if below_limit y then Fin y else Inf (y < 0))"

text \<open>\<open>float(n)\<close> of an integer raises where the value overflows.\<close>

definition float_of_int :: "int \<Rightarrow> pyfloat res" where
  "float_of_int n = (case fl (of_int n) of Fin y \<Rightarrow> Inr (Fin y) | _ \<Rightarrow> Inl OverflowErr)"

definition fneg :: "pyfloat \<Rightarrow> bool" where
  "fneg x = (case x of Fin y \<Rightarrow> y < 0 | Inf s \<Rightarrow> s | NaN \<Rightarrow> False)"

definition fdiv :: "pyfloat \<Rightarrow> pyfloat \<Rightarrow> pyfloat res" where
  "fdiv x y = (case y of
      Fin b \<Rightarrow> if b = 0 then Inl ZeroDivisionErr else
        Inr (case x of Fin a \<Rightarrow> fl (a / b) | Inf s \<Rightarrow> Inf (s \<noteq> (b < 0)) | NaN \<Rightarrow> NaN)
    | Inf s \<Rightarrow> Inr (case x of Fin a \<Rightarrow> Fin 0 | _ \<Rightarrow> NaN)
    | NaN \<Rightarrow> Inr NaN)"

definition fmul :: "pyfloat \<Rightarrow> pyfloat \<Rightarrow> pyfloat" where
  "fmul x y = (case (x, y) of
      (Fin a, Fin b) \<Rightarrow> fl (a * b)
    | (NaN, _) \<Rightarrow> NaN
    | (_, NaN) \<Rightarrow> NaN
    | _ \<Rightarrow> if x = Fin 0 \<or> y = Fin 0 then NaN else Inf (fneg x \<noteq> fneg y))"

definition fadd :: "pyfloat \<Rightarrow> pyfloat \<Rightarrow> pyfloat" where
  "fadd x y = (case (x, y) of
      (Fin a, Fin b) \<Rightarrow> fl (a + b)
    | (NaN, _) \<Rightarrow> NaN
    | (_, NaN) \<Rightarrow> NaN
    | (Inf s, Inf t) \<Rightarrow> if s = t then Inf s else NaN
    | (Inf s, _) \<Rightarrow> Inf s
    | (_, Inf t) \<Rightarrow> Inf t)"

definition fminus :: "pyfloat \<Rightarrow> pyfloat" where
  "fminus x = (case x of Fin a \<Rightarrow> Fin (- a) | Inf s \<Rightarrow> Inf (\<not> s) | NaN \<Rightarrow> NaN)"

definition fsub :: "pyfloat \<Rightarrow> pyfloat \<Rightarrow> pyfloat" where
  "fsub x y = fadd x (fminus y)"

definition flt :: "pyfloat \<Rightarrow> pyfloat \<Rightarrow> bool" where
  "flt x y = (case (x, y) of
      (NaN, _) \<Rightarrow> False
    | (_, NaN) \<Rightarrow> False
    | (Fin a, Fin b) \<Rightarrow> a < b
    | (Fin a, Inf s) \<Rightarrow> \<not> s
    | (Inf s, Fin b) \<Rightarrow> s
    | (Inf s, Inf t) \<Rightarrow> s \<and> \<not> t)"

text \<open>\<open>round(x, n)\<close> and the true division of integers.\<close>

definition fround :: "pyfloat \<Rightarrow> nat \<Rightarrow> pyfloat" where
  "fround x n = (case x of Fin a \<Rightarrow> fl (of_int (rhe (a * 10 ^ n)) / 10 ^ n) | _ \<Rightarrow> x)"

definition int_truediv :: "int \<Rightarrow> int \<Rightarrow> pyfloat res" where
  "int_truediv a b = (if b = 0 then Inl ZeroDivisionErr else
     case fl (of_int a / of_int b) of Fin y \<Rightarrow> Inr (Fin y) | _ \<Rightarrow> Inl OverflowErr)"

text \<open>Being between two rationals, for a float: what the bounds on exported values say.\<close>

definition fbetween :: "rat \<Rightarrow> pyfloat \<Rightarrow> rat \<Rightarrow> bool" where
  "fbetween l x u = (case x of Fin a \<Rightarrow> l \<le> a \<and> a \<le> u | _ \<Rightarrow> False)"

lemma fbetween_Fin [simp]: "fbetween l (Fin a) u \<longleftrightarrow> l \<le> a \<and> a \<le> u"
  by (simp add: fbetween_def)

lemma fbetween_iff: "fbetween l x u \<longleftrightarrow> (\<exists>a. x = Fin a \<and> l \<le> a \<and> a \<le> u)"
  by (cases x) (auto simp: fbetween_def)

lemma fl_between:
  assumes "l \<le> x" "x \<le> u" and "rnd l = l" "rnd u = u" and "\<bar>l\<bar> < float_limit" "\<bar>u\<bar> < float_limit"
  shows "fbetween l (fl x) u"
proof -
  have "l \<le> rnd x" "rnd x \<le> u" using rnd_mono assms(1-4) by metis+
  moreover from this assms(5,6) have "\<bar>rnd x\<bar> < float_limit" by linarith
  ultimately show ?thesis by (simp add: fl_def Let_def below_limit_iff)
qed

lemma pow53_less: "\<bar>m\<bar> \<le> 2 ^ 53 \<Longrightarrow> \<bar>of_int m :: rat\<bar> < float_limit"
proof -
  assume "\<bar>m\<bar> \<le> 2 ^ 53"
  then have "(of_int \<bar>m\<bar> :: rat) \<le> of_int (2 ^ 53)" by (simp only: of_int_le_iff)
  also have "\<dots> = 2 powi 53" by simp
  also have "\<dots> < float_limit" unfolding float_limit_def by (simp only: powi2_less_iff)
  finally show ?thesis by (simp only: of_int_abs)
qed

lemma fl_between_int:
  assumes "of_int m \<le> x" "x \<le> of_int n" and "\<bar>m\<bar> \<le> 2 ^ 53" "\<bar>n\<bar> \<le> 2 ^ 53"
  shows "fbetween (of_int m) (fl x) (of_int n)"
  by (intro fl_between rnd_of_int pow53_less assms)

lemma fl_of_int: "\<bar>n\<bar> \<le> 2 ^ 53 \<Longrightarrow> fl (of_int n) = Fin (of_int n)"
  unfolding fl_def Let_def by (simp only: rnd_of_int pow53_less below_limit_iff if_True)

lemma fround_between_int:
  assumes "fbetween (of_int m) x (of_int n)" and "\<bar>m\<bar> \<le> 2 ^ 53" "\<bar>n\<bar> \<le> 2 ^ 53"
  shows "fbetween (of_int m) (fround x k) (of_int n)"
proof -
  obtain a where a: "x = Fin a" "of_int m \<le> a" "a \<le> of_int n"
    using assms(1) by (auto simp: fbetween_iff)
  have "of_int (m * 10 ^ k) \<le> a * 10 ^ k" "a * 10 ^ k \<le> of_int (n * 10 ^ k)"
    using a by simp_all
  then have "m * 10 ^ k \<le> rhe (a * 10 ^ k)" "rhe (a * 10 ^ k) \<le> n * 10 ^ k"
    by (blast intro: of_int_le_rhe rhe_le_of_int)+
  then have "(of_int (m * 10 ^ k) :: rat) \<le> of_int (rhe (a * 10 ^ k))"
    "(of_int (rhe (a * 10 ^ k)) :: rat) \<le> of_int (n * 10 ^ k)"
    by (simp_all only: of_int_le_iff)
  then show ?thesis
    unfolding a(1) fround_def pyfloat.case
    by (intro fl_between_int assms) (simp_all add: field_simps)
qed

end
