(* ===== verification/PyStr.thy ===== *)
theory PyStr
  imports PyFloat
begin

text \<open>
  The string operations the source uses, on strings over the code points 0 to 255 (a HOL
  \<open>char\<close> is one code point). The character classes are those of CPython's \<open>str\<close> methods
  and of \<open>re\<close> on this range; \<open>int(s)\<close> and \<open>float(s)\<close> accept exactly the literals CPython
  accepts, and \<open>int(s)\<close> refuses more than 4300 digits.
\<close>

section \<open>Character classes\<close>

definition ord_c :: "char \<Rightarrow> int" where
  "ord_c c = of_char c"

definition is_digit :: "char \<Rightarrow> bool" where
  "is_digit c = (let n = ord_c c in 48 \<le> n \<and> n \<le> 57)"

definition is_space :: "char \<Rightarrow> bool" where
  "is_space c = (let n = ord_c c in
     9 \<le> n \<and> n \<le> 13 \<or> 28 \<le> n \<and> n \<le> 32 \<or> n = 133 \<or> n = 160)"

text \<open>\<open>\\w\<close>: alphanumeric or underscore.\<close>

definition is_word :: "char \<Rightarrow> bool" where
  "is_word c = (let n = ord_c c in
     48 \<le> n \<and> n \<le> 57 \<or> 65 \<le> n \<and> n \<le> 90 \<or> n = 95 \<or> 97 \<le> n \<and> n \<le> 122
     \<or> n \<in> {170, 178, 179, 181, 185, 186, 188, 189, 190}
     \<or> 192 \<le> n \<and> n \<noteq> 215 \<and> n \<noteq> 247)"

definition is_linebreak :: "char \<Rightarrow> bool" where
  "is_linebreak c = (let n = ord_c c in 10 \<le> n \<and> n \<le> 13 \<or> 28 \<le> n \<and> n \<le> 30 \<or> n = 133)"

definition lower_c :: "char \<Rightarrow> char" where
  "lower_c c = (let n = ord_c c in
     if 65 \<le> n \<and> n \<le> 90 \<or> 192 \<le> n \<and> n \<le> 222 \<and> n \<noteq> 215 then char_of (n + 32) else c)"

definition digit_val :: "char \<Rightarrow> int" where
  "digit_val c = ord_c c - 48"

text \<open>The same classes on the bits of a character, for evaluation.\<close>

lemma is_digit_code [code]:
  "is_digit (Char b0 b1 b2 b3 b4 b5 b6 b7) =
    (b5 \<and> b4 \<and> \<not> b6 \<and> \<not> b7 \<and> (b3 \<longrightarrow> \<not> b2 \<and> \<not> b1))"
  unfolding is_digit_def ord_c_def Let_def
  by (cases b0; cases b1; cases b2; cases b3; cases b4; cases b5; cases b6; cases b7; simp)

definition is_high_word :: "char \<Rightarrow> bool" where
  "is_high_word c = (let n = ord_c c in n \<in> {170, 178, 179, 181, 185, 186, 188, 189, 190}
     \<or> 192 \<le> n \<and> n \<noteq> 215 \<and> n \<noteq> 247)"

lemma is_word_code [code]:
  "is_word (Char b0 b1 b2 b3 b4 b5 b6 b7) =
    (if b7 then is_high_word (Char b0 b1 b2 b3 b4 b5 b6 b7)
     else if b6 then (if b4 \<and> b3 then (if b2 then b1 \<and> b0 \<and> \<not> b5 else \<not> (b1 \<and> b0))
       else b0 \<or> b1 \<or> b2 \<or> b3 \<or> b4)
     else b5 \<and> b4 \<and> (b3 \<longrightarrow> \<not> b2 \<and> \<not> b1))"
  unfolding is_word_def is_high_word_def ord_c_def Let_def
  by (cases b0; cases b1; cases b2; cases b3; cases b4; cases b5; cases b6; cases b7; simp)

lemma is_space_code [code]:
  "is_space (Char b0 b1 b2 b3 b4 b5 b6 b7) =
    (if b6 then False
     else if b7 then (if b5 then \<not> (b0 \<or> b1 \<or> b2 \<or> b3 \<or> b4) else b0 \<and> b2 \<and> \<not> (b1 \<or> b3 \<or> b4))
     else if b5 then \<not> (b0 \<or> b1 \<or> b2 \<or> b3 \<or> b4)
     else b3 \<and> (if b4 then b2 else if b2 then \<not> b1 else b1 \<or> b0))"
  unfolding is_space_def ord_c_def Let_def
  by (cases b0; cases b1; cases b2; cases b3; cases b4; cases b5; cases b6; cases b7; simp)

lemma digit_not_space: "is_digit c \<Longrightarrow> \<not> is_space c"
  by (auto simp: is_digit_def is_space_def Let_def)

lemma digit_is_word: "is_digit c \<Longrightarrow> is_word c"
  by (auto simp: is_digit_def is_word_def Let_def)

lemma digit_val_bounds: "is_digit c \<Longrightarrow> 0 \<le> digit_val c \<and> digit_val c \<le> 9"
  by (auto simp: is_digit_def digit_val_def Let_def)

section \<open>Strings\<close>

definition lstrip :: "string \<Rightarrow> string" where
  "lstrip s = dropWhile is_space s"

definition rstrip_of :: "(char \<Rightarrow> bool) \<Rightarrow> string \<Rightarrow> string" where
  "rstrip_of p s = rev (dropWhile p (rev s))"

definition strip :: "string \<Rightarrow> string" where
  "strip s = rstrip_of is_space (lstrip s)"

definition lower :: "string \<Rightarrow> string" where
  "lower s = map lower_c s"

fun startswith :: "string \<Rightarrow> string \<Rightarrow> bool" where
  "startswith s [] = True"
| "startswith [] (p # ps) = False"
| "startswith (c # cs) (p # ps) = (c = p \<and> startswith cs ps)"

definition endswith :: "string \<Rightarrow> string \<Rightarrow> bool" where
  "endswith s p = startswith (rev s) (rev p)"

text \<open>\<open>sub in s\<close>.\<close>

fun contains_str :: "string \<Rightarrow> string \<Rightarrow> bool" where
  "contains_str sub [] = (sub = [])"
| "contains_str sub (c # cs) = (startswith (c # cs) sub \<or> contains_str sub cs)"

text \<open>\<open>s.split(c)\<close> for a one-character separator.\<close>

fun split_on :: "char \<Rightarrow> string \<Rightarrow> string list" where
  "split_on c [] = [[]]"
| "split_on c (x # xs) =
     (if x = c then [] # split_on c xs
      else case split_on c xs of [] \<Rightarrow> [[x]] | y # ys \<Rightarrow> (x # y) # ys)"

text \<open>\<open>s.split()\<close>: the maximal runs of characters that are not white space.\<close>

fun words_acc :: "string \<Rightarrow> string \<Rightarrow> string list" where
  "words_acc w [] = (if w = [] then [] else [rev w])"
| "words_acc w (x # xs) =
     (if is_space x then (if w = [] then words_acc [] xs else rev w # words_acc [] xs)
      else words_acc (x # w) xs)"

definition split_ws :: "string \<Rightarrow> string list" where
  "split_ws s = words_acc [] s"

text \<open>\<open>s.splitlines()\<close>: a carriage return with the line feed after it is one break, and a
  break at the end starts no further line.\<close>

fun lines_acc :: "string \<Rightarrow> string \<Rightarrow> string list" where
  "lines_acc w [] = (if w = [] then [] else [rev w])"
| "lines_acc w (x # xs) =
     (if is_linebreak x
      then rev w # lines_acc [] (if x = CHR 0x0D \<and> xs \<noteq> [] \<and> hd xs = CHR 0x0A then tl xs else xs)
      else lines_acc (x # w) xs)"

definition splitlines :: "string \<Rightarrow> string list" where
  "splitlines s = lines_acc [] s"

text \<open>\<open>s.replace(old, new)\<close> for a non-empty \<open>old\<close>: left to right, not overlapping. The
  counter skips the rest of an occurrence.\<close>

fun replace_skip :: "string \<Rightarrow> string \<Rightarrow> nat \<Rightarrow> string \<Rightarrow> string" where
  "replace_skip old new k [] = []"
| "replace_skip old new (Suc k) (x # xs) = replace_skip old new k xs"
| "replace_skip old new 0 (x # xs) =
     (if startswith (x # xs) old then new @ replace_skip old new (length old - 1) xs
      else x # replace_skip old new 0 xs)"

definition replace :: "string \<Rightarrow> string \<Rightarrow> string \<Rightarrow> string" where
  "replace s old new = replace_skip old new 0 s"

text \<open>\<open>str(n)\<close> of a natural number.\<close>

definition digit_char :: "int \<Rightarrow> char" where
  "digit_char n = char_of (n + 48)"

function str_int_acc :: "int \<Rightarrow> string \<Rightarrow> string" where
  "str_int_acc n acc = (if n < 10 then digit_char n # acc
     else str_int_acc (n div 10) (digit_char (n mod 10) # acc))"
  by pat_completeness auto
termination
  by (relation "measure (\<lambda>(n, acc). nat n)") auto

declare str_int_acc.simps [simp del]

definition str_nat :: "nat \<Rightarrow> string" where
  "str_nat n = str_int_acc (int n) []"

lemma startswith_append [simp]: "startswith (p @ s) p"
  by (induction p) auto

lemma startswith_iff: "startswith s p \<longleftrightarrow> (\<exists>t. s = p @ t)"
  by (induction s p rule: startswith.induct) auto

lemma set_lower: "set (lower s) = lower_c ` set s"
  by (simp add: lower_def)

lemma set_rstrip: "set (rstrip_of p s) \<subseteq> set s"
  unfolding rstrip_of_def by (metis set_dropWhileD set_rev subsetI)

lemma set_strip: "set (strip s) \<subseteq> set s"
  unfolding strip_def lstrip_def using set_rstrip set_dropWhileD by fast

lemma strip_no_space: "\<forall>c \<in> set s. \<not> is_space c \<Longrightarrow> strip s = s"
proof -
  assume s: "\<forall>c \<in> set s. \<not> is_space c"
  then have "dropWhile is_space s = s" by (cases s) auto
  moreover have "dropWhile is_space (rev s) = rev s" using s by (cases "rev s") auto
  ultimately show ?thesis by (simp add: strip_def lstrip_def rstrip_of_def)
qed

lemma split_on_Nil_iff [simp]: "split_on c s \<noteq> []"
  by (cases s) (auto split: list.split)

lemma set_split_on: "w \<in> set (split_on c s) \<Longrightarrow> set w \<subseteq> set s"
proof (induction c s arbitrary: w rule: split_on.induct)
  case (2 c x xs)
  then show ?case by (fastforce split: if_splits list.splits)
qed simp

section \<open>Number literals\<close>

text \<open>A run of digits in which single underscores may stand between digits.\<close>

fun udigits :: "string \<Rightarrow> string option" where
  "udigits [] = None"
| "udigits [c] = (if is_digit c then Some [c] else None)"
| "udigits (c # d # cs) =
     (if is_digit c then map_option ((#) c) (if d = CHR ''_'' then udigits cs else udigits (d # cs))
      else None)"

definition digits_val :: "string \<Rightarrow> int" where
  "digits_val ds = foldl (\<lambda>n c. n * 10 + digit_val c) 0 ds"

fun take_sign :: "string \<Rightarrow> bool \<times> string" where
  "take_sign [] = (False, [])"
| "take_sign (c # cs) =
     (if c = CHR ''-'' then (True, cs) else if c = CHR ''+'' then (False, cs) else (False, c # cs))"

definition max_str_digits :: nat where
  "max_str_digits = 4300"

definition py_int_of_str :: "string \<Rightarrow> int res" where
  "py_int_of_str s = (let (neg, u) = take_sign (strip s) in
     case udigits u of
       None \<Rightarrow> Inl (ValueError ''invalid literal for int()'')
     | Some ds \<Rightarrow> if max_str_digits < length ds then Inl (ValueError ''Exceeds the limit'')
                  else Inr (if neg then - digits_val ds else digits_val ds))"

text \<open>The digits of an optional part: empty is allowed, anything else must be digits.\<close>

definition opt_udigits :: "string \<Rightarrow> string option" where
  "opt_udigits s = (if s = [] then Some [] else udigits s)"

definition split_at :: "(char \<Rightarrow> bool) \<Rightarrow> string \<Rightarrow> string \<times> string option" where
  "split_at p s = (takeWhile (\<lambda>c. \<not> p c) s,
     case dropWhile (\<lambda>c. \<not> p c) s of [] \<Rightarrow> None | c # cs \<Rightarrow> Some cs)"

definition float_exponent :: "string option \<Rightarrow> int option" where
  "float_exponent e = (case e of None \<Rightarrow> Some 0
     | Some t \<Rightarrow> (let (neg, u) = take_sign t in
         map_option (\<lambda>ds. if neg then - digits_val ds else digits_val ds) (udigits u)))"

definition float_decimal :: "string \<Rightarrow> rat option" where
  "float_decimal u =
     (let (m, e) = split_at (\<lambda>c. c = CHR ''e'' \<or> c = CHR ''E'') u;
          (ip, fp) = split_at (\<lambda>c. c = CHR ''.'') m
      in case (opt_udigits ip, opt_udigits (case fp of None \<Rightarrow> [] | Some f \<Rightarrow> f), float_exponent e) of
           (Some i, Some f, Some x) \<Rightarrow>
             if i = [] \<and> f = [] then None
             else Some (of_int (digits_val (i @ f)) * 10 powi (x - int (length f)))
         | _ \<Rightarrow> None)"

definition py_float_of_str :: "string \<Rightarrow> pyfloat res" where
  "py_float_of_str s = (let (neg, u) = take_sign (strip s); l = lower u in
     if l = ''inf'' \<or> l = ''infinity'' then Inr (Inf neg)
     else if l = ''nan'' then Inr NaN
     else case float_decimal u of
       None \<Rightarrow> Inl (ValueError ''could not convert string to float'')
     | Some x \<Rightarrow> Inr (fl (if neg then - x else x)))"

abbreviation all_digits :: "string \<Rightarrow> bool" where
  "all_digits s \<equiv> s \<noteq> [] \<and> list_all is_digit s"

lemma digit_not_special:
  assumes "is_digit c"
  shows "c \<noteq> CHR ''-''" "c \<noteq> CHR ''+''" "c \<noteq> CHR ''_''" "c \<noteq> CHR ''.''"
    "c \<noteq> CHR ''e''" "c \<noteq> CHR ''E''"
  using assms by (auto simp: is_digit_def ord_c_def)

lemma udigits_all_digits: "all_digits s \<Longrightarrow> udigits s = Some s"
  by (induction s rule: udigits.induct) (auto dest: digit_not_special)

lemma udigits_Some: "udigits s = Some ds \<Longrightarrow> all_digits ds"
  by (induction s arbitrary: ds rule: udigits.induct) (auto split: if_splits)

lemma digits_val_snoc: "digits_val (ds @ [c]) = digits_val ds * 10 + digit_val c"
  by (simp add: digits_val_def)

lemma digits_val_nonneg: "list_all is_digit ds \<Longrightarrow> 0 \<le> digits_val ds"
proof (induction ds rule: rev_induct)
  case Nil
  then show ?case by (simp add: digits_val_def)
next
  case (snoc c ds)
  then show ?case using digit_val_bounds [of c] by (simp add: digits_val_snoc)
qed

lemma strip_all_digits: "list_all is_digit s \<Longrightarrow> strip s = s"
  by (rule strip_no_space) (auto simp: list_all_iff digit_not_space)

lemma take_sign_all_digits: "list_all is_digit s \<Longrightarrow> take_sign s = (False, s)"
  by (cases s) (auto dest: digit_not_special)

text \<open>\<open>int(s)\<close> and \<open>float(s)\<close> of a run of digits, as the parsers meet them.\<close>

lemma py_int_digits:
  assumes "all_digits s" "length s \<le> max_str_digits"
  shows "py_int_of_str s = Inr (digits_val s)"
  using assms by (simp add: py_int_of_str_def strip_all_digits take_sign_all_digits udigits_all_digits)

lemma split_at_absent: "\<forall>c \<in> set s. \<not> p c \<Longrightarrow> split_at p s = (s, None)"
proof -
  assume a: "\<forall>c \<in> set s. \<not> p c"
  then have d: "dropWhile (\<lambda>c. \<not> p c) s = []" and t: "takeWhile (\<lambda>c. \<not> p c) s = s"
    by simp_all
  show ?thesis by (simp only: split_at_def d t list.case)
qed

lemma float_decimal_digits: "all_digits s \<Longrightarrow> float_decimal s = Some (of_int (digits_val s))"
proof -
  assume s: "all_digits s"
  have "split_at (\<lambda>c. c = CHR ''e'' \<or> c = CHR ''E'') s = (s, None)"
    "split_at (\<lambda>c. c = CHR ''.'') s = (s, None)"
    using s by (auto intro!: split_at_absent simp: list_all_iff dest: digit_not_special)
  then show ?thesis using s
    by (simp add: float_decimal_def opt_udigits_def udigits_all_digits float_exponent_def)
qed

lemma lower_digit: "is_digit c \<Longrightarrow> lower_c c = c"
  by (auto simp: is_digit_def lower_c_def Let_def)

lemma lower_all_digits: "list_all is_digit s \<Longrightarrow> lower s = s"
  by (auto simp: lower_def list_all_iff lower_digit intro: map_idI)

lemma py_float_digits: "all_digits s \<Longrightarrow> py_float_of_str s = Inr (fl (of_int (digits_val s)))"
proof -
  assume s: "all_digits s"
  have "\<not> is_digit CHR ''i''" "\<not> is_digit CHR ''n''" by code_simp+
  then have "s \<noteq> ''inf''" "s \<noteq> ''infinity''" "s \<noteq> ''nan''" using s by auto
  with s show ?thesis
    by (simp add: py_float_of_str_def strip_all_digits take_sign_all_digits lower_all_digits
        float_decimal_digits)
qed

lemma py_int_of_str_error: "py_int_of_str s = Inl e \<Longrightarrow> \<exists>m. e = ValueError m"
  by (auto simp: py_int_of_str_def Let_def split: option.splits prod.splits if_splits)

lemma py_float_of_str_error: "py_float_of_str s = Inl e \<Longrightarrow> \<exists>m. e = ValueError m"
  by (auto simp: py_float_of_str_def Let_def split: option.splits prod.splits if_splits)

section \<open>Decimal numerals\<close>

lemma digits_val_str_acc:
  "0 \<le> n \<Longrightarrow> digits_val (str_int_acc n acc) = foldl (\<lambda>n c. n * 10 + digit_val c) n acc"
proof (induction n acc rule: str_int_acc.induct)
  case (1 n acc)
  have d: "digit_val (digit_char k) = k" if "0 \<le> k" "k < 10" for k
    using that by (simp add: digit_val_def ord_c_def digit_char_def take_bit_eq_mod)
  show ?case
  proof (cases "n < 10")
    case True
    with 1 d show ?thesis by (simp add: str_int_acc.simps [of n] digits_val_def)
  next
    case False
    with 1 d [of "n mod 10"] show ?thesis by (simp add: str_int_acc.simps [of n])
  qed
qed

lemma digits_val_str_nat [simp]: "digits_val (str_nat n) = int n"
  by (simp add: str_nat_def digits_val_str_acc)

lemma str_nat_inj [simp]: "str_nat i = str_nat j \<longleftrightarrow> i = j"
  by (metis digits_val_str_nat of_nat_eq_iff)

lemma takeWhile_digits: "list_all is_digit ds \<Longrightarrow> \<not> is_digit c \<Longrightarrow> takeWhile is_digit (ds @ c # s) = ds"
  by (induction ds) auto

end
