(* ===== verification/PyVal.thy ===== *)
theory PyVal
  imports PyStr
begin

text \<open>
  Python values as the source receives them from JSON, YAML and HTTP: nested dictionaries,
  lists and scalars, with the dynamic behaviour the code relies on: truth value, equality,
  \<open>in\<close>, subscripting, \<open>.get\<close>, \<open>float(v)\<close>, \<open>int(v)\<close>, \<open>len(v)\<close>. Dictionary keys are
  strings, as in every JSON document.
\<close>

datatype pyval =
    PNone
  | PBool bool
  | PInt int
  | PFloat pyfloat
  | PStr string
  | PList "pyval list"
  | PDict "(string \<times> pyval) list"

type_synonym metrics = "pyval dict"

definition truthy :: "pyval \<Rightarrow> bool" where
  "truthy v = (case v of
      PNone \<Rightarrow> False
    | PBool b \<Rightarrow> b
    | PInt n \<Rightarrow> n \<noteq> 0
    | PFloat x \<Rightarrow> x \<noteq> Fin 0
    | PStr s \<Rightarrow> s \<noteq> []
    | PList xs \<Rightarrow> xs \<noteq> []
    | PDict d \<Rightarrow> d \<noteq> [])"

definition is_dict :: "pyval \<Rightarrow> bool" where
  "is_dict v = (case v of PDict _ \<Rightarrow> True | _ \<Rightarrow> False)"

definition is_list :: "pyval \<Rightarrow> bool" where
  "is_list v = (case v of PList _ \<Rightarrow> True | _ \<Rightarrow> False)"

definition is_bool :: "pyval \<Rightarrow> bool" where
  "is_bool v = (case v of PBool _ \<Rightarrow> True | _ \<Rightarrow> False)"

text \<open>The number a scalar stands for in a comparison: \<open>True == 1 == 1.0\<close>.\<close>

definition num_of :: "pyval \<Rightarrow> pyfloat option" where
  "num_of v = (case v of
      PBool b \<Rightarrow> Some (Fin (if b then 1 else 0))
    | PInt n \<Rightarrow> Some (Fin (of_int n))
    | PFloat x \<Rightarrow> Some x
    | _ \<Rightarrow> None)"

lemma size_zip_left: "(x, y) \<in> set (zip xs ys) \<Longrightarrow> size x \<le> size_list size xs"
  by (metis set_zip_leftD size_list_estimation' order_refl)

text \<open>\<open>==\<close>: numbers by value, \<open>NaN\<close> unequal to everything, lists in order, dictionaries
  as sets of entries.\<close>

function py_eq :: "pyval \<Rightarrow> pyval \<Rightarrow> bool" where
  "py_eq PNone w = (w = PNone)"
| "py_eq (PStr s) w = (w = PStr s)"
| "py_eq (PList xs) w = (case w of
      PList ys \<Rightarrow> length xs = length ys \<and> list_all (\<lambda>(x, y). py_eq x y) (zip xs ys)
    | _ \<Rightarrow> False)"
| "py_eq (PDict d) w = (case w of
      PDict e \<Rightarrow> length d = length e \<and>
        list_all (\<lambda>(k, v). case dget e k of None \<Rightarrow> False | Some v' \<Rightarrow> py_eq v v') d
    | _ \<Rightarrow> False)"
| "py_eq (PBool b) w = (num_of w = Some (Fin (if b then 1 else 0)))"
| "py_eq (PInt n) w = (num_of w = Some (Fin (of_int n)))"
| "py_eq (PFloat x) w = (x \<noteq> NaN \<and> num_of w = Some x)"
  by pat_completeness auto

termination
  by (relation "measure (\<lambda>(v, w). size v)")
    (auto simp: size_zip_left less_Suc_eq_le intro: size_list_estimation')

lemma py_eq_truthy: "py_eq v w \<Longrightarrow> truthy v = truthy w"
  by (cases v; cases w) (auto simp: truthy_def num_of_def split: if_splits)

lemma py_eq_PStr_right: "py_eq v (PStr s) \<longleftrightarrow> v = PStr s"
  by (cases v) (auto simp: num_of_def)

lemma py_eq_PDict: "py_eq (PDict d) w \<Longrightarrow> \<exists>e. w = PDict e"
  by (cases w) auto

lemma py_eq_dicts:
  "py_eq (PDict d) (PDict e) \<longleftrightarrow>
    length d = length e \<and> (\<forall>(k, v) \<in> set d. \<exists>v'. dget e k = Some v' \<and> py_eq v v')"
  by (auto simp: list_all_iff split: option.splits)

lemma py_eq_dget:
  assumes "py_eq (PDict d) (PDict e)" "dget d k = Some v"
  shows "\<exists>v'. dget e k = Some v' \<and> py_eq v v'"
  using assms(1) dget_in_set [OF assms(2)] unfolding py_eq_dicts by fast

text \<open>Equal dictionaries have the same keys.\<close>

lemma py_eq_keys:
  assumes "py_eq (PDict d) (PDict e)" "wf_dict d"
  shows "set (dkeys d) = set (dkeys e)"
proof -
  have "\<exists>v. dget e k = Some v" if k: "k \<in> set (dkeys d)" for k
  proof -
    obtain v where "dget d k = Some v" using k dget_None_iff by (metis not_None_eq)
    then show ?thesis using py_eq_dget [OF assms(1)] by blast
  qed
  then have sub: "set (dkeys d) \<subseteq> set (dkeys e)" using dget_None_iff by (metis option.distinct(1) subsetI)
  have "card (set (dkeys e)) \<le> length e" by (metis card_length dkeys_def length_map)
  also have "\<dots> = length d" using assms(1) unfolding py_eq_dicts by simp
  also have "\<dots> = card (set (dkeys d))"
    using assms(2) by (metis distinct_card dkeys_def length_map wf_dict_def)
  finally show ?thesis using sub by (metis List.finite_set card_seteq)
qed

lemma py_eq_get_or:
  assumes "py_eq (PDict d) (PDict e)" "wf_dict d"
  shows "py_eq (dget_or d k v) (dget_or e k v) \<or> dget_or d k v = v \<and> dget_or e k v = v"
proof (cases "dget d k")
  case None
  then have "dget e k = None" using py_eq_keys [OF assms] by (simp add: dget_None_iff)
  with None show ?thesis by (simp add: dget_or_def)
next
  case (Some w)
  then show ?thesis using py_eq_dget [OF assms(1) Some] by (auto simp: dget_or_def)
qed

section \<open>Operations with a dynamic type check\<close>

text \<open>\<open>key in container\<close> for a string key.\<close>

definition py_in :: "string \<Rightarrow> pyval \<Rightarrow> bool res" where
  "py_in k c = (case c of
      PDict d \<Rightarrow> Inr (dhas d k)
    | PStr s \<Rightarrow> Inr (contains_str k s)
    | PList xs \<Rightarrow> Inr (PStr k \<in> set xs)
    | _ \<Rightarrow> Inl TypeErr)"

text \<open>\<open>container[key]\<close> for a string key.\<close>

definition py_item :: "pyval \<Rightarrow> string \<Rightarrow> pyval res" where
  "py_item c k = (case c of
      PDict d \<Rightarrow> (case dget d k of None \<Rightarrow> Inl (KeyErr k) | Some v \<Rightarrow> Inr v)
    | _ \<Rightarrow> Inl TypeErr)"

text \<open>\<open>container.get(key, default)\<close>: only a dictionary has the method.\<close>

definition py_get :: "pyval \<Rightarrow> string \<Rightarrow> pyval \<Rightarrow> pyval res" where
  "py_get c k v = (case c of PDict d \<Rightarrow> Inr (dget_or d k v) | _ \<Rightarrow> Inl AttributeErr)"

definition py_float :: "pyval \<Rightarrow> pyfloat res" where
  "py_float v = (case v of
      PBool b \<Rightarrow> Inr (Fin (if b then 1 else 0))
    | PInt n \<Rightarrow> float_of_int n
    | PFloat x \<Rightarrow> Inr x
    | PStr s \<Rightarrow> py_float_of_str s
    | _ \<Rightarrow> Inl TypeErr)"

text \<open>\<open>int(v)\<close> truncates a float towards zero and refuses infinities and \<open>NaN\<close>.\<close>

definition py_int :: "pyval \<Rightarrow> int res" where
  "py_int v = (case v of
      PBool b \<Rightarrow> Inr (if b then 1 else 0)
    | PInt n \<Rightarrow> Inr n
    | PFloat (Fin x) \<Rightarrow> Inr (if 0 \<le> x then \<lfloor>x\<rfloor> else \<lceil>x\<rceil>)
    | PFloat (Inf s) \<Rightarrow> Inl OverflowErr
    | PFloat NaN \<Rightarrow> Inl (ValueError ''cannot convert float NaN to integer'')
    | PStr s \<Rightarrow> py_int_of_str s
    | _ \<Rightarrow> Inl TypeErr)"

text \<open>\<open>v or w\<close>.\<close>

definition py_or :: "pyval \<Rightarrow> pyval \<Rightarrow> pyval" where
  "py_or v w = (if truthy v then v else w)"

text \<open>A value that a Prometheus sample can carry: a number.\<close>

definition is_number :: "pyval \<Rightarrow> bool" where
  "is_number v = (case v of PInt _ \<Rightarrow> True | PFloat _ \<Rightarrow> True | PBool _ \<Rightarrow> True | _ \<Rightarrow> False)"

lemma is_number_simps [simp]:
  "is_number (PInt n)" "is_number (PFloat x)" "is_number (PBool b)"
  by (simp_all add: is_number_def)

end
