(* ===== verification/PyRegex.thy ===== *)
theory PyRegex
  imports PyVal
begin

text \<open>
  Python's \<open>re\<close> as the collectors use it: backtracking with greedy repetition, alternation
  tried left to right, numbered groups, a negative lookahead for one character and \<open>$\<close>.
  \<open>rx r s g\<close> lists every way to match \<open>r\<close> at the start of \<open>s\<close> in the order the
  backtracking engine tries them, as (matched text, rest, groups); the engine's answer is the
  first. Repetition is over character classes only, which is all the patterns use, so the list
  is finite and the function is structural. A matcher for a pattern without assertions finds
  a match exactly when some factor of the input is in the pattern's language.
\<close>

datatype regex =
    Lit string
  | Cls "char \<Rightarrow> bool"
  | Plus "char \<Rightarrow> bool"
  | Cat regex regex
  | Alt regex regex
  | Opt regex
  | Grp nat regex
  | NotAhead char
  | End

type_synonym caps = "(nat \<times> string) list"

text \<open>\<open>\\s+\<close> and \<open>(\\d+)\<close>, the pieces every pattern shares, and concatenation of a list.\<close>

fun cats :: "regex list \<Rightarrow> regex" where
  "cats [] = Lit []"
| "cats [r] = r"
| "cats (r # q # rs) = Cat r (cats (q # rs))"

definition spaces :: regex where
  "spaces = Plus is_space"

definition digits_grp :: "nat \<Rightarrow> regex" where
  "digits_grp n = Grp n (Plus is_digit)"

definition not_bracket :: "char \<Rightarrow> bool" where
  "not_bracket c = (c \<noteq> CHR '']'')"

fun rx :: "regex \<Rightarrow> string \<Rightarrow> caps \<Rightarrow> (string \<times> string \<times> caps) list" where
  "rx (Lit w) s g = (if startswith s w then [(w, drop (length w) s, g)] else [])"
| "rx (Cls p) s g = (case s of [] \<Rightarrow> [] | x # xs \<Rightarrow> if p x then [([x], xs, g)] else [])"
| "rx (Plus p) s g =
     (let n = length (takeWhile p s) in map (\<lambda>k. (take k s, drop k s, g)) (rev [1..<Suc n]))"
| "rx (Cat a b) s g =
     concat (map (\<lambda>(c, r, h). map (\<lambda>(c', r', h'). (c @ c', r', h')) (rx b r h)) (rx a s g))"
| "rx (Alt a b) s g = rx a s g @ rx b s g"
| "rx (Opt a) s g = rx a s g @ [([], s, g)]"
| "rx (Grp n a) s g = map (\<lambda>(c, r, h). (c, r, (n, c) # h)) (rx a s g)"
| "rx (NotAhead x) s g = (if startswith s [x] then [] else [([], s, g)])"
| "rx End s g = (if s = [] \<or> s = [CHR 0x0A] then [([], s, g)] else [])"

text \<open>\<open>re.match\<close>, \<open>re.search\<close> and \<open>re.finditer\<close>. \<open>finditer\<close> goes on after the end
  of a match (the counter skips the matched text); none of the patterns matches the empty
  string.\<close>

definition re_match_full :: "regex \<Rightarrow> string \<Rightarrow> (string \<times> caps) option" where
  "re_match_full r s = (case rx r s [] of [] \<Rightarrow> None | (c, rest, g) # _ \<Rightarrow> Some (c, g))"

definition re_match :: "regex \<Rightarrow> string \<Rightarrow> caps option" where
  "re_match r s = map_option snd (re_match_full r s)"

fun re_search :: "regex \<Rightarrow> string \<Rightarrow> caps option" where
  "re_search r [] = re_match r []"
| "re_search r (x # xs) =
     (case re_match r (x # xs) of Some g \<Rightarrow> Some g | None \<Rightarrow> re_search r xs)"

fun finditer_skip :: "regex \<Rightarrow> nat \<Rightarrow> string \<Rightarrow> caps list" where
  "finditer_skip r k [] = []"
| "finditer_skip r (Suc k) (x # xs) = finditer_skip r k xs"
| "finditer_skip r 0 (x # xs) =
     (case re_match_full r (x # xs) of
        None \<Rightarrow> finditer_skip r 0 xs
      | Some (c, g) \<Rightarrow> g # finditer_skip r (length c - 1) xs)"

definition re_finditer :: "regex \<Rightarrow> string \<Rightarrow> caps list" where
  "re_finditer r s = finditer_skip r 0 s"

text \<open>\<open>match.group(n)\<close>: \<open>None\<close> when the group took no part in the match. What the code does
  with it raises then: \<open>float(None)\<close> and \<open>int(None)\<close> a TypeError, a string method an
  AttributeError. \<open>group_text\<close> names the text in statements, where the group is known to be set.\<close>

definition group :: "caps \<Rightarrow> nat \<Rightarrow> string option" where
  "group g n = map_of g n"

definition group_text :: "caps \<Rightarrow> nat \<Rightarrow> string" where
  "group_text g n = (case group g n of None \<Rightarrow> [] | Some w \<Rightarrow> w)"

definition text_of_group :: "caps \<Rightarrow> nat \<Rightarrow> string res" where
  "text_of_group g n = (case group g n of None \<Rightarrow> Inl AttributeErr | Some w \<Rightarrow> Inr w)"

definition float_of_group :: "caps \<Rightarrow> nat \<Rightarrow> pyfloat res" where
  "float_of_group g n = (case group g n of None \<Rightarrow> Inl TypeErr | Some w \<Rightarrow> py_float_of_str w)"

definition int_of_group :: "caps \<Rightarrow> nat \<Rightarrow> int res" where
  "int_of_group g n = (case group g n of None \<Rightarrow> Inl TypeErr | Some w \<Rightarrow> py_int_of_str w)"

section \<open>What a match is\<close>

lemma in_rx_Plus:
  "(c, r, h) \<in> set (rx (Plus p) s g) \<longleftrightarrow> c \<noteq> [] \<and> list_all p c \<and> s = c @ r \<and> h = g"
proof
  assume "(c, r, h) \<in> set (rx (Plus p) s g)"
  then obtain k where k: "1 \<le> k" "k \<le> length (takeWhile p s)" "c = take k s" "r = drop k s" "h = g"
    by (auto simp: Let_def)
  then have "c = take k (takeWhile p s)"
    by (metis min.absorb1 take_take takeWhile_eq_take)
  then have "list_all p c" by (auto simp: list_all_iff dest: in_set_takeD set_takeWhileD)
  moreover have "s \<noteq> []" using k by auto
  then have "c \<noteq> []" using k by auto
  ultimately show "c \<noteq> [] \<and> list_all p c \<and> s = c @ r \<and> h = g" using k by simp
next
  assume a: "c \<noteq> [] \<and> list_all p c \<and> s = c @ r \<and> h = g"
  then have "length c \<le> length (takeWhile p s)"
    by (simp add: list_all_iff takeWhile_append2)
  moreover have "1 \<le> length c" using a by (cases c) auto
  ultimately have "length c \<in> set (rev [1..<Suc (length (takeWhile p s))])" by auto
  then show "(c, r, h) \<in> set (rx (Plus p) s g)" using a by (auto simp: Let_def image_iff intro!: bexI [of _ "length c"])
qed

lemma in_rx_Lit: "(c, r, h) \<in> set (rx (Lit w) s g) \<longleftrightarrow> c = w \<and> s = w @ r \<and> h = g"
  by (auto simp: startswith_iff)

lemma in_rx_Cls: "(c, r, h) \<in> set (rx (Cls p) s g) \<longleftrightarrow> (\<exists>x. p x \<and> c = [x] \<and> s = x # r \<and> h = g)"
  by (auto split: list.splits)

lemma in_rx_Cat:
  "(c, r, h) \<in> set (rx (Cat a b) s g) \<longleftrightarrow>
    (\<exists>u t k v. (u, t, k) \<in> set (rx a s g) \<and> (v, r, h) \<in> set (rx b t k) \<and> c = u @ v)"
  unfolding rx.simps by (fastforce intro: rev_image_eqI)

lemma in_rx_Grp:
  "(c, r, h) \<in> set (rx (Grp n a) s g) \<longleftrightarrow> (\<exists>k. (c, r, k) \<in> set (rx a s g) \<and> h = (n, c) # k)"
  unfolding rx.simps by (auto intro: rev_image_eqI)

lemma in_rx_Alt:
  "(c, r, h) \<in> set (rx (Alt a b) s g) \<longleftrightarrow> (c, r, h) \<in> set (rx a s g) \<or> (c, r, h) \<in> set (rx b s g)"
  by simp

lemma in_rx_Opt:
  "(c, r, h) \<in> set (rx (Opt a) s g) \<longleftrightarrow> (c, r, h) \<in> set (rx a s g) \<or> c = [] \<and> r = s \<and> h = g"
  by auto

lemma in_rx_NotAhead:
  "(c, r, h) \<in> set (rx (NotAhead x) s g) \<longleftrightarrow> c = [] \<and> r = s \<and> h = g \<and> (\<forall>t. s \<noteq> x # t)"
  by (auto simp: startswith_iff)

lemma in_rx_End:
  "(c, r, h) \<in> set (rx End s g) \<longleftrightarrow> c = [] \<and> r = s \<and> h = g \<and> (s = [] \<or> s = [CHR 0x0A])"
  by auto

lemmas in_rx = in_rx_Plus in_rx_Lit in_rx_Cls in_rx_Cat in_rx_Grp in_rx_Alt in_rx_Opt
  in_rx_NotAhead in_rx_End

declare rx.simps [simp del]

text \<open>The matched text and the rest make up the input.\<close>

lemma rx_append: "(c, r, h) \<in> set (rx e s g) \<Longrightarrow> s = c @ r"
  by (induction e arbitrary: c r h s g) (auto simp: in_rx)

text \<open>A group's text is made of the input's characters.\<close>

lemma rx_caps:
  "(c, r, h) \<in> set (rx e s g) \<Longrightarrow> (n, w) \<in> set h \<Longrightarrow> (n, w) \<in> set g \<or> set w \<subseteq> set s"
proof (induction e arbitrary: c r h s g)
  case (Cat a b)
  from Cat.prems(1) obtain u t k v where m: "(u, t, k) \<in> set (rx a s g)" "(v, r, h) \<in> set (rx b t k)"
    by (auto simp: in_rx)
  have "set t \<subseteq> set s" using rx_append [OF m(1)] by simp
  then show ?case using Cat.IH(2) [OF m(2) Cat.prems(2)] Cat.IH(1) [OF m(1)] by blast
next
  case (Grp i a)
  then show ?case using rx_append by (fastforce simp: in_rx)
next
  case (Alt a b)
  from Alt.prems(1) have "(c, r, h) \<in> set (rx a s g) \<or> (c, r, h) \<in> set (rx b s g)"
    by (simp only: in_rx)
  then show ?case using Alt.IH Alt.prems(2) by blast
next
  case (Opt a)
  from Opt.prems(1) have "(c, r, h) \<in> set (rx a s g) \<or> h = g" by (auto simp: in_rx)
  then show ?case using Opt.IH Opt.prems(2) by blast
qed (auto simp: in_rx)

section \<open>The matcher decides membership\<close>

fun assertion_free :: "regex \<Rightarrow> bool" where
  "assertion_free (Cat a b) = (assertion_free a \<and> assertion_free b)"
| "assertion_free (Alt a b) = (assertion_free a \<and> assertion_free b)"
| "assertion_free (Opt a) = assertion_free a"
| "assertion_free (Grp n a) = assertion_free a"
| "assertion_free (NotAhead x) = False"
| "assertion_free End = False"
| "assertion_free _ = True"

text \<open>The language of a pattern, its assertions left out.\<close>

fun lang :: "regex \<Rightarrow> string \<Rightarrow> bool" where
  "lang (Lit w) u = (u = w)"
| "lang (Cls p) u = (\<exists>x. u = [x] \<and> p x)"
| "lang (Plus p) u = (u \<noteq> [] \<and> list_all p u)"
| "lang (Cat a b) u = (\<exists>v w. u = v @ w \<and> lang a v \<and> lang b w)"
| "lang (Alt a b) u = (lang a u \<or> lang b u)"
| "lang (Opt a) u = (lang a u \<or> u = [])"
| "lang (Grp n a) u = lang a u"
| "lang (NotAhead x) u = (u = [])"
| "lang End u = (u = [])"

lemma rx_sound: "(c, r, h) \<in> set (rx e s g) \<Longrightarrow> lang e c"
proof (induction e arbitrary: c r h s g)
  case (Cat a b)
  from Cat.prems obtain u t k v where
    m: "(u, t, k) \<in> set (rx a s g)" "(v, r, h) \<in> set (rx b t k)" "c = u @ v"
    by (auto simp: in_rx)
  show ?case using Cat.IH(1) [OF m(1)] Cat.IH(2) [OF m(2)] m(3) by auto
qed (auto simp: in_rx)

text \<open>The texts a numbered group can take.\<close>

fun grp_lang :: "regex \<Rightarrow> nat \<Rightarrow> string \<Rightarrow> bool" where
  "grp_lang (Cat a b) n w = (grp_lang a n w \<or> grp_lang b n w)"
| "grp_lang (Alt a b) n w = (grp_lang a n w \<or> grp_lang b n w)"
| "grp_lang (Opt a) n w = grp_lang a n w"
| "grp_lang (Grp m a) n w = (m = n \<and> lang a w \<or> grp_lang a n w)"
| "grp_lang _ n w = False"

lemma rx_groups:
  "(c, r, h) \<in> set (rx e s g) \<Longrightarrow> (n, w) \<in> set h \<Longrightarrow> (n, w) \<in> set g \<or> grp_lang e n w"
proof (induction e arbitrary: c r h s g)
  case (Cat a b)
  from Cat.prems(1) obtain u t k v where m: "(u, t, k) \<in> set (rx a s g)" "(v, r, h) \<in> set (rx b t k)"
    by (auto simp: in_rx)
  have "(n, w) \<in> set k \<or> grp_lang b n w" using Cat.IH(2) [OF m(2) Cat.prems(2)] .
  then show ?case
  proof
    assume "(n, w) \<in> set k"
    from Cat.IH(1) [OF m(1) this] show ?thesis by auto
  qed simp
next
  case (Grp i a)
  then show ?case using rx_sound by (fastforce simp: in_rx)
next
  case (Alt a b)
  from Alt.prems(1) have "(c, r, h) \<in> set (rx a s g) \<or> (c, r, h) \<in> set (rx b s g)"
    by (simp only: in_rx)
  then show ?case unfolding grp_lang.simps using Alt.IH Alt.prems(2) by blast
next
  case (Opt a)
  from Opt.prems(1) have "(c, r, h) \<in> set (rx a s g) \<or> h = g" by (auto simp: in_rx)
  then show ?case unfolding grp_lang.simps using Opt.IH Opt.prems(2) by blast
qed (auto simp: in_rx)

lemma group_in: "group g n = Some w \<Longrightarrow> (n, w) \<in> set g"
  by (simp add: group_def map_of_SomeD)

lemma rx_complete:
  "assertion_free e \<Longrightarrow> lang e c \<Longrightarrow> \<exists>h. (c, r, h) \<in> set (rx e (c @ r) g)"
proof (induction e arbitrary: c r g)
  case (Cat a b)
  have af: "assertion_free a" "assertion_free b" using Cat.prems(1) by simp_all
  from Cat.prems(2) obtain v w where vw: "c = v @ w" "lang a v" "lang b w" by auto
  obtain k where k: "(v, w @ r, k) \<in> set (rx a (v @ w @ r) g)"
    using Cat.IH(1) [OF af(1) vw(2)] by blast
  obtain h where h: "(w, r, h) \<in> set (rx b (w @ r) k)"
    using Cat.IH(2) [OF af(2) vw(3)] by blast
  have "(c, r, h) \<in> set (rx (Cat a b) (c @ r) g)"
    unfolding in_rx_Cat vw(1) append_assoc using k h by blast
  then show ?case by blast
next
  case (Alt a b)
  then show ?case unfolding in_rx assertion_free.simps lang.simps by blast
next
  case (Opt a)
  then show ?case by (cases "c = []") (auto simp: in_rx)
next
  case (Grp n a)
  then show ?case unfolding in_rx assertion_free.simps lang.simps by blast
qed (auto simp: in_rx)

lemma re_match_in_rx:
  "re_match_full r s = Some (c, g) \<Longrightarrow> \<exists>rest. (c, rest, g) \<in> set (rx r s [])"
  by (auto simp: re_match_full_def split: list.splits)

lemma re_match_None_iff: "re_match r s = None \<longleftrightarrow> rx r s [] = []"
  by (auto simp: re_match_def re_match_full_def split: list.splits)

text \<open>Where a match comes from: groups of a match at some suffix of the input.\<close>

definition matched_in :: "regex \<Rightarrow> string \<Rightarrow> caps \<Rightarrow> bool" where
  "matched_in r s g = (\<exists>pre t c rest. s = pre @ t \<and> (c, rest, g) \<in> set (rx r t []))"

lemma matched_group:
  assumes "matched_in r s g" "group g n = Some w"
  shows "set w \<subseteq> set s \<and> grp_lang r n w"
proof -
  obtain pre t c rest where t: "s = pre @ t" "(c, rest, g) \<in> set (rx r t [])"
    using assms(1) by (auto simp: matched_in_def)
  have "(n, w) \<in> set g" using assms(2) by (rule group_in)
  then show ?thesis using rx_caps [OF t(2)] rx_groups [OF t(2)] t(1) by auto
qed

text \<open>A match found by \<open>search\<close> or \<open>finditer\<close> is a match at some suffix of the input.\<close>

lemma re_search_Some:
  "re_search r s = Some g \<Longrightarrow> matched_in r s g"
  unfolding matched_in_def
proof (induction r s rule: re_search.induct)
  case (1 r)
  then show ?case using re_match_in_rx by (fastforce simp: re_match_def)
next
  case (2 r x xs)
  show ?case
  proof (cases "re_match r (x # xs)")
    case None
    with 2 obtain pre t c rest where "xs = pre @ t" "(c, rest, g) \<in> set (rx r t [])" by fastforce
    then show ?thesis by (metis append_Cons)
  next
    case (Some h)
    with 2 have "re_match r (x # xs) = Some g" by simp
    then obtain c rest where "(c, rest, g) \<in> set (rx r (x # xs) [])"
      using re_match_in_rx by (fastforce simp: re_match_def)
    then show ?thesis by (metis append_Nil)
  qed
qed

lemma finditer_skip_in:
  "g \<in> set (finditer_skip r k s) \<Longrightarrow> \<exists>pre t c rest. s = pre @ t \<and> (c, rest, g) \<in> set (rx r t [])"
proof (induction r k s rule: finditer_skip.induct)
  case (2 r k x xs)
  then obtain pre t c rest where "xs = pre @ t" "(c, rest, g) \<in> set (rx r t [])" by auto
  then show ?case by (metis append_Cons)
next
  case (3 r x xs)
  have tail: ?case if "\<exists>pre t c rest. xs = pre @ t \<and> (c, rest, g) \<in> set (rx r t [])"
    using that by (metis append_Cons)
  show ?case
  proof (cases "re_match_full r (x # xs)")
    case None
    with 3 show ?thesis by (intro tail) simp
  next
    case (Some m)
    obtain c h where m: "m = (c, h)" by (cases m)
    show ?thesis
    proof (cases "g = h")
      case True
      then show ?thesis using re_match_in_rx Some m by (metis append_Nil)
    next
      case False
      with 3 Some m show ?thesis by (intro tail) simp
    qed
  qed
qed simp

lemma re_finditer_in:
  "g \<in> set (re_finditer r s) \<Longrightarrow> matched_in r s g"
  unfolding re_finditer_def matched_in_def by (rule finditer_skip_in)

section \<open>Groups a match always sets\<close>

definition takes_part :: "caps \<Rightarrow> nat \<Rightarrow> bool" where
  "takes_part g n = (group g n \<noteq> None)"

fun always_sets :: "regex \<Rightarrow> nat \<Rightarrow> bool" where
  "always_sets (Cat a b) n = (always_sets a n \<or> always_sets b n)"
| "always_sets (Alt a b) n = (always_sets a n \<and> always_sets b n)"
| "always_sets (Grp m a) n = (m = n \<or> always_sets a n)"
| "always_sets _ n = False"

lemma rx_keeps_group: "(c, r, h) \<in> set (rx e s g) \<Longrightarrow> takes_part g n \<Longrightarrow> takes_part h n"
proof (induction e arbitrary: c r h s g)
  case (Alt a b)
  from Alt.prems(1) have "(c, r, h) \<in> set (rx a s g) \<or> (c, r, h) \<in> set (rx b s g)"
    by (simp only: in_rx)
  then show ?case using Alt.IH Alt.prems(2) by blast
next
  case (Grp m a)
  then show ?case by (fastforce simp: in_rx takes_part_def group_def)
qed (auto simp: in_rx)

lemma rx_always_sets: "(c, r, h) \<in> set (rx e s g) \<Longrightarrow> always_sets e n \<Longrightarrow> takes_part h n"
proof (induction e arbitrary: c r h s g)
  case (Cat a b)
  from Cat.prems(1) obtain u t k v where m: "(u, t, k) \<in> set (rx a s g)" "(v, r, h) \<in> set (rx b t k)"
    by (auto simp: in_rx)
  show ?case using Cat.prems(2) Cat.IH(1) [OF m(1)] Cat.IH(2) [OF m(2)] rx_keeps_group [OF m(2)] by auto
next
  case (Alt a b)
  from Alt.prems(1) have "(c, r, h) \<in> set (rx a s g) \<or> (c, r, h) \<in> set (rx b s g)"
    by (simp only: in_rx)
  then show ?case using Alt.IH Alt.prems(2) by auto
next
  case (Grp m a)
  then show ?case by (fastforce simp: in_rx takes_part_def group_def)
qed auto

lemma matched_sets: "matched_in r s g \<Longrightarrow> always_sets r n \<Longrightarrow> takes_part g n"
  by (auto simp: matched_in_def intro: rx_always_sets)

lemma re_match_sets: "re_match r s = Some g \<Longrightarrow> always_sets r n \<Longrightarrow> takes_part g n"
  using re_match_in_rx rx_always_sets by (fastforce simp: re_match_def)

text \<open>A group that took part is read as its text.\<close>

lemma read_group:
  assumes "takes_part g n"
  shows "text_of_group g n = Inr (group_text g n)"
    and "float_of_group g n = py_float_of_str (group_text g n)"
    and "int_of_group g n = py_int_of_str (group_text g n)"
  using assms
  by (auto simp: takes_part_def text_of_group_def float_of_group_def int_of_group_def group_text_def)

lemma text_of_group_Inr: "text_of_group g n = Inr w \<Longrightarrow> w = group_text g n"
  by (auto simp: text_of_group_def group_text_def split: option.splits)

lemmas search_sets = matched_sets [OF re_search_Some] matched_sets [OF re_finditer_in] re_match_sets

lemma re_match_None_lang:
  assumes "assertion_free r"
  shows "re_match r t = None \<longleftrightarrow> (\<forall>v w. t = v @ w \<longrightarrow> \<not> lang r v)"
proof
  assume n: "re_match r t = None"
  show "\<forall>v w. t = v @ w \<longrightarrow> \<not> lang r v"
  proof (intro allI impI notI)
    fix v w assume "t = v @ w" "lang r v"
    with rx_complete [OF assms, of v w "[]"] n show False by (auto simp: re_match_None_iff)
  qed
next
  assume a: "\<forall>v w. t = v @ w \<longrightarrow> \<not> lang r v"
  show "re_match r t = None"
  proof (rule ccontr)
    assume "re_match r t \<noteq> None"
    then obtain m ms where m: "rx r t [] = m # ms"
      by (auto simp: re_match_None_iff neq_Nil_conv)
    obtain c rest g where "m = (c, rest, g)" by (cases m)
    with m have "(c, rest, g) \<in> set (rx r t [])" by simp
    from rx_append [OF this] rx_sound [OF this] a show False by blast
  qed
qed

lemma factor_Cons:
  "(\<forall>u v w. x # xs = u @ v @ w \<longrightarrow> P v) \<longleftrightarrow>
    (\<forall>v w. x # xs = v @ w \<longrightarrow> P v) \<and> (\<forall>u v w. xs = u @ v @ w \<longrightarrow> P v)"
  (is "?l \<longleftrightarrow> ?r1 \<and> ?r2")
proof
  assume l: ?l
  have ?r1 using l by (metis append_Nil)
  moreover have ?r2 using l by (metis append_Cons)
  ultimately show "?r1 \<and> ?r2" ..
next
  assume r: "?r1 \<and> ?r2"
  show ?l
  proof (intro allI impI)
    fix u v w assume "x # xs = u @ v @ w"
    then show "P v" using r by (cases u) auto
  qed
qed

lemma re_search_None_iff:
  assumes "assertion_free r"
  shows "re_search r s = None \<longleftrightarrow> (\<forall>u v w. s = u @ v @ w \<longrightarrow> \<not> lang r v)"
proof (induction s)
  case Nil
  show ?case using re_match_None_lang [OF assms, of "[]"] by simp
next
  case (Cons x xs)
  have "re_search r (x # xs) = None \<longleftrightarrow> re_match r (x # xs) = None \<and> re_search r xs = None"
    by (simp split: option.split)
  also have "\<dots> \<longleftrightarrow> (\<forall>v w. x # xs = v @ w \<longrightarrow> \<not> lang r v) \<and> re_search r xs = None"
    by (rule conj_cong [OF re_match_None_lang [OF assms] refl])
  also have "\<dots> \<longleftrightarrow> (\<forall>v w. x # xs = v @ w \<longrightarrow> \<not> lang r v)
      \<and> (\<forall>u v w. xs = u @ v @ w \<longrightarrow> \<not> lang r v)"
    by (rule conj_cong [OF refl Cons.IH])
  also have "\<dots> \<longleftrightarrow> (\<forall>u v w. x # xs = u @ v @ w \<longrightarrow> \<not> lang r v)"
    by (rule factor_Cons [symmetric])
  finally show ?case .
qed

section \<open>Optional tails\<close>

lemma concat_map_concat:
  "concat (map f (concat (map h xs))) = concat (map (\<lambda>y. concat (map f (h y))) xs)"
  by (induction xs) simp_all

lemma concat_concat: "concat (concat xs) = concat (map concat xs)"
  by (induction xs) simp_all

lemma rx_Cat_assoc: "rx (Cat (Cat a b) c) s g = rx (Cat a (Cat b c)) s g"
  by (simp add: rx.simps(4) map_concat concat_map_concat concat_concat o_def split_def)

lemma rx_cats_snoc:
  assumes "qs \<noteq> []"
  shows "rx (cats (qs @ [q])) s g = rx (Cat (cats qs) q) s g"
  using assms
proof (induction qs arbitrary: s g rule: cats.induct)
  case (3 r p ps)
  have "rx (cats ((r # p # ps) @ [q])) s g = rx (Cat r (cats ((p # ps) @ [q]))) s g" by simp
  also have "\<dots> = rx (Cat r (Cat (cats (p # ps)) q)) s g"
    by (simp only: rx.simps(4) 3(1) [OF list.distinct(2)])
  also have "\<dots> = rx (Cat (cats (r # p # ps)) q) s g" by (simp only: rx_Cat_assoc cats.simps(3))
  finally show ?case .
qed simp_all

text \<open>An optional tail does not change whether a pattern matches, nor the groups before it.\<close>

lemma re_match_optional:
  assumes "qs \<noteq> []" and "\<And>c r h g s. (c, r, h) \<in> set (rx q s g) \<Longrightarrow> \<exists>e. h = e @ g \<and> fst ` set e \<subseteq> N"
  shows "rel_option (\<lambda>g h. \<forall>n. n \<notin> N \<longrightarrow> group g n = group h n)
    (re_match (cats qs) s) (re_match (cats (qs @ [Opt q])) s)"
proof (cases "rx (cats qs) s []")
  case Nil
  then have "rx (cats (qs @ [Opt q])) s [] = []" by (simp add: rx_cats_snoc [OF assms(1)] rx.simps(4) Nil)
  with Nil show ?thesis by (simp add: re_match_def re_match_full_def)
next
  case (Cons m ms)
  obtain c r g where m: "m = (c, r, g)" by (cases m)
  obtain c' r' h ys where 1: "rx (Opt q) r g = (c', r', h) # ys"
    by (cases "rx q r g") (auto simp: rx.simps(6))
  then have "(c', r', h) \<in> set (rx (Opt q) r g)" by simp
  then have "\<exists>e. h = e @ g \<and> fst ` set e \<subseteq> N" using assms(2) [of c' r' h r g] by (auto simp: in_rx_Opt)
  then have "group g n = group h n" if "n \<notin> N" for n
    using that by (auto simp: group_def map_add_def map_of_eq_None_iff split: option.split)
      (metis (no_types, lifting) fst_conv image_iff map_of_SomeD subsetD)
  moreover have "rx (cats (qs @ [Opt q])) s [] \<noteq> [] \<and> hd (rx (cats (qs @ [Opt q])) s []) = (c @ c', r', h)"
    using Cons 1 by (simp add: rx_cats_snoc [OF assms(1)] m rx.simps(4))
  ultimately show ?thesis using Cons m
    by (cases "rx (cats (qs @ [Opt q])) s []") (auto simp: re_match_def re_match_full_def)
qed

lemma re_search_related:
  assumes "\<And>s. rel_option P (re_match r s) (re_match q s)"
  shows "rel_option P (re_search r s) (re_search q s)"
proof (induction s)
  case (Cons x xs)
  with assms [of "x # xs"] show ?case by (auto simp: option.rel_sel split: option.split)
qed (simp add: assms)

end
