(* ===== verification/Tegrastats.thy ===== *)
theory Tegrastats
  imports PyRegex
begin

text \<open>
  The four tegrastats parsers (\<open>collectors/jetson_orin.py\<close>, \<open>jetson_orin_nano.py\<close>,
  \<open>jetson_xavier.py\<close>, \<open>jetson_nano.py\<close>). Each is a sequence of sections that read the
  same line and write into one dictionary; a section the four files share word for word is one
  definition here. A section may raise (a malformed number, a zero total), which leaves the
  whole parse.
\<close>

section \<open>The patterns\<close>

definition word_grp :: "nat \<Rightarrow> regex" where
  "word_grp n = Grp n (Plus is_word)"

definition is_temp_char :: "char \<Rightarrow> bool" where
  "is_temp_char c = (c = CHR ''-'' \<or> is_digit c \<or> c = CHR ''.'')"

text \<open>\<open>(\\w+)\\s+(\\d+)mW(?:/(\\d+)mW)?\<close>\<close>

definition power_re :: regex where
  "power_re = cats [word_grp 1, spaces, digits_grp 2, Lit ''mW'',
     Opt (cats [Lit ''/'', digits_grp 3, Lit ''mW''])]"

text \<open>\<open>(\\w+)@([-\\d.]+)C\<close>\<close>

definition temp_re :: regex where
  "temp_re = cats [word_grp 1, Lit ''@'', Grp 2 (Plus is_temp_char), Lit ''C'']"

definition ram_re :: regex where
  "ram_re = cats [Lit ''RAM'', spaces, digits_grp 1, Lit ''/'', digits_grp 2, Lit ''MB'']"

definition swap_re :: regex where
  "swap_re = cats [Lit ''SWAP'', spaces, digits_grp 1, Lit ''/'', digits_grp 2, Lit ''MB'']"

text \<open>\<open>SWAP\\s+(\\d+)/(\\d+)MB(?:\\s+\\(cached\\s+(\\d+)MB\\))?\<close>\<close>

definition swap_cached_re :: regex where
  "swap_cached_re = cats [Lit ''SWAP'', spaces, digits_grp 1, Lit ''/'', digits_grp 2, Lit ''MB'',
     Opt (cats [spaces, Lit ''(cached'', spaces, digits_grp 3, Lit ''MB)''])]"

definition lfb_re :: regex where
  "lfb_re = cats [Lit ''lfb'', spaces, digits_grp 1, Lit ''x'', digits_grp 2, Lit ''MB'']"

definition cpu_re :: regex where
  "cpu_re = cats [Lit ''CPU'', spaces, Lit ''['', Grp 1 (Plus not_bracket), Lit '']'']"

definition core_re :: regex where
  "core_re = cats [digits_grp 1, Lit ''%@'', digits_grp 2]"

definition emc_re :: regex where
  "emc_re = cats [Lit ''EMC_FREQ'', spaces, digits_grp 1, Lit ''%'',
     Opt (cats [Lit ''@'', digits_grp 2])]"

definition gpu_bracket_re :: regex where
  "gpu_bracket_re = cats [Lit ''GR3D_FREQ'', spaces, digits_grp 1, Lit ''%@['',
     Grp 2 (Plus not_bracket), Lit '']'']"

text \<open>\<open>GR3D_FREQ\\s+(\\d+)%(?:@(?:\\[([^\\]]+)\\]|(\\d+)))?\<close>\<close>

definition gpu_optional_re :: regex where
  "gpu_optional_re = cats [Lit ''GR3D_FREQ'', spaces, digits_grp 1, Lit ''%'',
     Opt (cats [Lit ''@'',
       Alt (cats [Lit ''['', Grp 2 (Plus not_bracket), Lit '']'']) (digits_grp 3)])]"

text \<open>\<open>GR3D_FREQ\\s+(\\d+)%@(\\d+)(?!\\[)\<close>\<close>

definition gpu_single_re :: regex where
  "gpu_single_re = cats [Lit ''GR3D_FREQ'', spaces, digits_grp 1, Lit ''%@'', digits_grp 2,
     NotAhead (CHR ''['')]"

definition vic_re :: regex where
  "vic_re = cats [Lit ''VIC_FREQ'', spaces, digits_grp 1]"

definition ape_re :: regex where
  "ape_re = cats [Lit ''APE'', spaces, digits_grp 1]"

text \<open>\<open>(POM_\\w+)\\s+(\\d+)(?:/(\\d+))?(?:\\s|$)\<close>\<close>

definition pom_re :: regex where
  "pom_re = cats [Grp 1 (cats [Lit ''POM_'', Plus is_word]), spaces, digits_grp 2,
     Opt (cats [Lit ''/'', digits_grp 3]), Alt (Cls is_space) End]"

definition iram_re :: regex where
  "iram_re = cats [Lit ''IRAM'', spaces, digits_grp 1, Lit ''/'', digits_grp 2, Lit ''kB'']"

definition iram_lfb_re :: regex where
  "iram_lfb_re = cats [Lit ''IRAM'', spaces, Plus is_digit, Lit ''/'', Plus is_digit,
     Lit ''kB(lfb'', spaces, digits_grp 1, Lit ''kB)'']"

section \<open>The sections\<close>

text \<open>\<open>if match.group(n)\<close>.\<close>

definition has_group :: "caps \<Rightarrow> nat \<Rightarrow> bool" where
  "has_group g n = (case group g n of None \<Rightarrow> False | Some w \<Rightarrow> w \<noteq> [])"

type_synonym metric_section = "string \<Rightarrow> metrics \<Rightarrow> metrics res"

text \<open>A section that looks for its pattern once and does nothing without a match.\<close>

definition on_search :: "regex \<Rightarrow> (caps \<Rightarrow> metrics \<Rightarrow> metrics res) \<Rightarrow> metric_section" where
  "on_search r f out m = (case re_search r out of None \<Rightarrow> Inr m | Some g \<Rightarrow> f g m)"

definition milli :: "pyfloat \<Rightarrow> pyval res" where
  "milli x = rmap (\<lambda>w. PFloat (fround w 3)) (fdiv x (Fin 1000))"

definition rail_key :: "string \<Rightarrow> string \<Rightarrow> string" where
  "rail_key rail field = ''jetson_power_'' @ lower rail @ field"

definition temp_key :: "string \<Rightarrow> string" where
  "temp_key sensor = ''jetson_temp_'' @ lower sensor @ ''_celsius''"

text \<open>Writing a rail: the current value, and the average where the line has one.\<close>

definition put_rail :: "caps \<Rightarrow> pyfloat \<Rightarrow> pyfloat \<Rightarrow> metrics \<Rightarrow> metrics res" where
  "put_rail g cur avg m =
     rbind (milli cur) (\<lambda>w. rbind (text_of_group g 1) (\<lambda>rail.
       let m1 = dset m (rail_key rail ''_watts'') w in
       if has_group g 3
       then rmap (\<lambda>a. dset m1 (rail_key rail ''_avg_watts'') a) (milli avg)
       else Inr m1))"

definition rail_values :: "caps \<Rightarrow> (pyfloat \<times> pyfloat) res" where
  "rail_values g = rbind (float_of_group g 2) (\<lambda>cur.
     if has_group g 3 then rmap (\<lambda>avg. (cur, avg)) (float_of_group g 3)
     else Inr (cur, cur))"

definition power_step :: "caps \<Rightarrow> metrics \<Rightarrow> metrics res" where
  "power_step g m = rbind (rail_values g) (\<lambda>(cur, avg).
     if group g 1 = Some ''NC'' then Inr m else put_rail g cur avg m)"

definition power_section :: metric_section where
  "power_section out m = rfold power_step (re_finditer power_re out) m"

definition pom_step :: "caps \<Rightarrow> metrics \<Rightarrow> metrics res" where
  "pom_step g m = rbind (rail_values g) (\<lambda>(cur, avg). put_rail g cur avg m)"

definition pom_section :: metric_section where
  "pom_section out m = rfold pom_step (re_finditer pom_re out) m"

definition temp_step :: "caps \<Rightarrow> metrics \<Rightarrow> metrics res" where
  "temp_step g m = rbind (float_of_group g 2) (\<lambda>t.
     if flt t (Fin (- 100)) then Inr m
     else rmap (\<lambda>sensor. dset m (temp_key sensor) (PFloat (fround t 2))) (text_of_group g 1))"

definition temp_section :: metric_section where
  "temp_section out m = rfold temp_step (re_finditer temp_re out) m"

text \<open>\<open>round((used / tot) * 100, 2)\<close>.\<close>

definition percent :: "pyfloat \<Rightarrow> pyfloat \<Rightarrow> pyfloat res" where
  "percent used tot = rmap (\<lambda>q. fround (fmul q (Fin 100)) 2) (fdiv used tot)"

definition ram_section :: metric_section where
  "ram_section = on_search ram_re (\<lambda>g m.
     rbind (float_of_group g 1) (\<lambda>used.
     rbind (float_of_group g 2) (\<lambda>tot.
     rmap (\<lambda>p. dset (dset (dset m ''jetson_ram_used_mb'' (PFloat used))
         ''jetson_ram_total_mb'' (PFloat tot)) ''jetson_ram_used_percent'' (PFloat p))
       (percent used tot))))"

definition put_swap :: "caps \<Rightarrow> metrics \<Rightarrow> metrics res" where
  "put_swap g m =
     rbind (float_of_group g 1) (\<lambda>used.
     rmap (\<lambda>tot. dset (dset m ''jetson_swap_used_mb'' (PFloat used))
         ''jetson_swap_total_mb'' (PFloat tot))
       (float_of_group g 2))"

definition swap_section :: metric_section where
  "swap_section = on_search swap_re put_swap"

definition swap_cached_section :: metric_section where
  "swap_cached_section = on_search swap_cached_re (\<lambda>g m.
     rbind (put_swap g m) (\<lambda>m1.
     if has_group g 3
     then rmap (\<lambda>c. dset m1 ''jetson_swap_cached_mb'' (PFloat c)) (float_of_group g 3)
     else Inr m1))"

definition lfb_section :: metric_section where
  "lfb_section = on_search lfb_re (\<lambda>g m.
     rbind (int_of_group g 1) (\<lambda>blocks.
     rmap (\<lambda>size. dset (dset m ''jetson_lfb_blocks'' (PInt blocks))
         ''jetson_lfb_total_mb'' (PInt (blocks * size)))
       (int_of_group g 2)))"

definition core_key :: "nat \<Rightarrow> string \<Rightarrow> string" where
  "core_key i field = ''jetson_cpu_core'' @ str_nat i @ ''_'' @ field"

text \<open>One core of \<open>CPU [...]\<close>, with the running total and count of the active cores.\<close>

definition core_step :: "nat \<times> string \<Rightarrow> metrics \<times> int \<times> int \<Rightarrow> (metrics \<times> int \<times> int) res" where
  "core_step ic st = (let (i, core) = ic; (m, tot, active) = st; core = strip core in
     if core = ''off'' then Inr (dset m (core_key i ''status'') (PInt 0), tot, active)
     else case re_match core_re core of
       None \<Rightarrow> Inr (m, tot, active)
     | Some g \<Rightarrow>
         rbind (int_of_group g 1) (\<lambda>usage.
         rmap (\<lambda>freq.
             (dset (dset (dset m (core_key i ''usage_percent'') (PInt usage))
               (core_key i ''freq_mhz'') (PInt freq)) (core_key i ''status'') (PInt 1),
              tot + usage, active + 1))
           (int_of_group g 2)))"

definition cpu_average :: "metrics \<times> int \<times> int \<Rightarrow> metrics res" where
  "cpu_average st = (let (m, tot, active) = st in
     if 0 < active
     then rmap (\<lambda>q. dset (dset m ''jetson_cpu_avg_usage_percent'' (PFloat (fround q 2)))
            ''jetson_cpu_active_cores'' (PInt active)) (int_truediv tot active)
     else Inr m)"

definition cpu_section :: metric_section where
  "cpu_section = on_search cpu_re (\<lambda>g m.
     rbind (text_of_group g 1) (\<lambda>cores.
     rbind (rfold core_step (enum (split_on (CHR '','') cores)) (m, 0, 0)) cpu_average))"

definition emc_section :: metric_section where
  "emc_section = on_search emc_re (\<lambda>g m.
     rbind (int_of_group g 1) (\<lambda>usage.
     let m1 = dset m ''jetson_emc_usage_percent'' (PInt usage) in
     if has_group g 2
     then rmap (\<lambda>f. dset m1 ''jetson_emc_freq_mhz'' (PInt f)) (int_of_group g 2)
     else Inr m1))"

definition gpu_freq_key :: "nat \<Rightarrow> string" where
  "gpu_freq_key i = ''jetson_gpu_freq'' @ str_nat i @ ''_mhz''"

definition gpu_freq_step :: "nat \<times> string \<Rightarrow> metrics \<Rightarrow> metrics res" where
  "gpu_freq_step ic m = (let (i, freq) = ic in
     rmap (\<lambda>f. dset m (gpu_freq_key i) (PInt f))
       (py_int_of_str (strip freq)))"

definition gpu_freqs :: "string \<Rightarrow> metrics \<Rightarrow> metrics res" where
  "gpu_freqs freqs m = rfold gpu_freq_step (enum (split_on (CHR '','') freqs)) m"

definition gpu_bracket_section :: metric_section where
  "gpu_bracket_section = on_search gpu_bracket_re (\<lambda>g m.
     rbind (int_of_group g 1) (\<lambda>usage.
     let m1 = dset m ''jetson_gpu_usage_percent'' (PInt usage) in
     rbind (text_of_group g 2) (\<lambda>freqs. gpu_freqs freqs m1)))"

definition gpu_optional_section :: metric_section where
  "gpu_optional_section = on_search gpu_optional_re (\<lambda>g m.
     rbind (int_of_group g 1) (\<lambda>usage.
     let m1 = dset m ''jetson_gpu_usage_percent'' (PInt usage) in
     if has_group g 2 then rbind (text_of_group g 2) (\<lambda>freqs. gpu_freqs freqs m1)
     else if has_group g 3
     then rmap (\<lambda>f. dset m1 ''jetson_gpu_freq0_mhz'' (PInt f)) (int_of_group g 3)
     else Inr m1))"

definition gpu_single_section :: metric_section where
  "gpu_single_section = on_search gpu_single_re (\<lambda>g m.
     rbind (int_of_group g 1) (\<lambda>usage.
     rmap (\<lambda>f. dset (dset m ''jetson_gpu_usage_percent'' (PInt usage))
         ''jetson_gpu_freq0_mhz'' (PInt f)) (int_of_group g 2)))"

definition vic_section :: metric_section where
  "vic_section = on_search vic_re (\<lambda>g m.
     rmap (\<lambda>f. dset m ''jetson_vic_freq_mhz'' (PInt f)) (int_of_group g 1))"

definition ape_section :: metric_section where
  "ape_section = on_search ape_re (\<lambda>g m.
     rmap (\<lambda>f. dset m ''jetson_ape_freq_mhz'' (PInt f)) (int_of_group g 1))"

text \<open>The Nano's internal RAM; a zero total reads as 0 percent, and the block size has a search
  of its own over the whole line.\<close>

definition iram_section :: metric_section where
  "iram_section out = on_search iram_re (\<lambda>g m.
     rbind (float_of_group g 1) (\<lambda>used.
     rbind (float_of_group g 2) (\<lambda>tot.
     rbind (if flt (Fin 0) tot then rmap PFloat (percent used tot) else Inr (PInt 0)) (\<lambda>p.
     let m1 = dset (dset (dset m ''jetson_iram_used_kb'' (PFloat used))
         ''jetson_iram_total_kb'' (PFloat tot)) ''jetson_iram_used_percent'' p in
     on_search iram_lfb_re (\<lambda>h n.
       rmap (\<lambda>b. dset n ''jetson_iram_lfb_kb'' (PFloat b)) (float_of_group h 1))
       out m1)))) out"

section \<open>The parsers\<close>

fun run_sections :: "metric_section list \<Rightarrow> metric_section" where
  "run_sections [] out m = Inr m"
| "run_sections (f # fs) out m = rbind (f out m) (run_sections fs out)"

definition orin_parse_all_metrics :: "string \<Rightarrow> metrics res" where
  "orin_parse_all_metrics out = run_sections
     [power_section, temp_section, ram_section, swap_section, lfb_section, cpu_section,
      emc_section, gpu_bracket_section, vic_section, ape_section] out []"

definition orin_nano_parse_all_metrics :: "string \<Rightarrow> metrics res" where
  "orin_nano_parse_all_metrics out = run_sections
     [power_section, temp_section, ram_section, swap_cached_section, lfb_section, cpu_section,
      emc_section, gpu_optional_section, vic_section, ape_section] out []"

definition xavier_parse_all_metrics :: "string \<Rightarrow> metrics res" where
  "xavier_parse_all_metrics out = run_sections
     [power_section, temp_section, ram_section, swap_cached_section, lfb_section, cpu_section,
      emc_section, gpu_bracket_section, vic_section, ape_section] out []"

definition nano_parse_all_metrics :: "string \<Rightarrow> metrics res" where
  "nano_parse_all_metrics out = run_sections
     [pom_section, temp_section, ram_section, swap_cached_section, iram_section, lfb_section,
      cpu_section, emc_section, gpu_single_section, ape_section] out []"

end
