(* ===== verification/MetricSource.thy ===== *)
theory MetricSource
  imports PyVal
begin

text \<open>
  What the exporter relies on in a device: a dictionary without duplicate names, every name in
  the device's namespace, every value a number. The parsers of tegrastats, the edge server
  collector and the stub are interpretations; a value fetched from the Shelly server comes from
  the network and promises nothing.
\<close>

definition prom_start :: "char \<Rightarrow> bool" where
  "prom_start c = (let n = ord_c c in 65 \<le> n \<and> n \<le> 90 \<or> 97 \<le> n \<and> n \<le> 122 \<or> n = 95 \<or> n = 58)"

definition prom_char :: "char \<Rightarrow> bool" where
  "prom_char c = (prom_start c \<or> is_digit c)"

text \<open>A valid metric name of the Prometheus data model: \<open>[a-zA-Z_:][a-zA-Z0-9_:]*\<close>.\<close>

definition prom_name :: "string \<Rightarrow> bool" where
  "prom_name k = (case k of [] \<Rightarrow> False | c # cs \<Rightarrow> prom_start c \<and> list_all prom_char cs)"

definition all_entries :: "(string \<Rightarrow> pyval \<Rightarrow> bool) \<Rightarrow> metrics \<Rightarrow> bool" where
  "all_entries E m = (wf_dict m \<and> (\<forall>(k, v) \<in> set m. E k v))"

lemma all_entries_Nil [simp]: "all_entries E []"
  by (simp add: all_entries_def)

lemma all_entries_dset [intro]: "all_entries E m \<Longrightarrow> E k v \<Longrightarrow> all_entries E (dset m k v)"
  using in_set_dset [of _ m k v] by (fastforce simp: all_entries_def wf_dict_dset)

lemma all_entries_dget: "all_entries E m \<Longrightarrow> dget m k = Some v \<Longrightarrow> E k v"
  using dget_in_set by (fastforce simp: all_entries_def)

definition source_entry :: "string \<Rightarrow> string \<Rightarrow> pyval \<Rightarrow> bool" where
  "source_entry prefix k v = (startswith k prefix \<and> is_number v)"

text \<open>A Python function that returns metrics, in the namespace of a prefix.\<close>

locale metric_source =
  fixes get :: "'a \<Rightarrow> metrics res" and prefix :: string
  assumes namespace: "get a = Inr m \<Longrightarrow> all_entries (source_entry prefix) m"
begin

lemma wf: "get a = Inr m \<Longrightarrow> wf_dict m"
  using namespace by (auto simp: all_entries_def)

lemma numbers: "get a = Inr m \<Longrightarrow> dget m k = Some v \<Longrightarrow> is_number v"
  using namespace all_entries_dget source_entry_def by metis

lemma names: "get a = Inr m \<Longrightarrow> dget m k = Some v \<Longrightarrow> startswith k prefix"
  using namespace all_entries_dget source_entry_def by metis

text \<open>Updating with another source's metrics keeps the metrics outside of its namespace.\<close>

lemma update_keeps:
  assumes "get a = Inr m" "\<not> startswith k prefix"
  shows "dget (dupdate d m) k = dget d k"
proof -
  have "dget m k = None" using names [OF assms(1)] assms(2) by (cases "dget m k") auto
  then show ?thesis by (simp add: dget_dupdate_other dget_None_iff)
qed

end

end
