(* ===== verification/TegrastatsSpec.thy ===== *)
theory TegrastatsSpec
  imports Tegrastats MetricSource
begin

text \<open>
  The contract of the tegrastats sections and of the parsers made of them: what a parser may
  put into the dictionary (names in the \<open>jetson_\<close> namespace, numbers only, no temperature below
  -100) and which exceptions can leave it. The sections are proved to keep it one by one, the
  parsers by composition.
\<close>

section \<open>What a section may write\<close>

definition ascii :: "string \<Rightarrow> bool" where
  "ascii s = list_all (\<lambda>c. ord_c c < 128) s"

text \<open>The characters a metric name of a line can have: fixed ones, and the lower-cased word
  characters of the line.\<close>

definition key_chars :: "string \<Rightarrow> char set" where
  "key_chars out = {c. prom_char c} \<union> lower_c ` {c \<in> set out. is_word c}"

definition jetson_entry :: "string \<Rightarrow> string \<Rightarrow> pyval \<Rightarrow> bool" where
  "jetson_entry out k v = (startswith k ''jetson_'' \<and> set k \<subseteq> key_chars out \<and> is_number v \<and>
     (startswith k ''jetson_temp_'' \<longrightarrow> (\<exists>t. v = PFloat t \<and> \<not> flt t (Fin (- 100)))))"

definition parse_exn :: "exn \<Rightarrow> bool" where
  "parse_exn e = ((\<exists>s. e = ValueError s) \<or> e = ZeroDivisionErr \<or> e = OverflowErr)"

lemma parse_exn_simps [simp]: "parse_exn (ValueError s)" "parse_exn ZeroDivisionErr" "parse_exn OverflowErr"
  by (simp_all add: parse_exn_def)

lemma py_int_of_str_exn [dest]: "py_int_of_str s = Inl e \<Longrightarrow> parse_exn e"
  using py_int_of_str_error by (auto simp: parse_exn_def)

lemma py_float_of_str_exn [dest]: "py_float_of_str s = Inl e \<Longrightarrow> parse_exn e"
  using py_float_of_str_error by (auto simp: parse_exn_def)

lemma fdiv_exn [dest]: "fdiv x y = Inl e \<Longrightarrow> parse_exn e"
  by (auto simp: fdiv_def split: pyfloat.splits if_splits)

lemma int_truediv_exn [dest]: "int_truediv x y = Inl e \<Longrightarrow> parse_exn e"
  by (auto simp: int_truediv_def split: pyfloat.splits if_splits)

locale metric_section_spec =
  fixes sec :: "string \<Rightarrow> metrics \<Rightarrow> metrics res"
  assumes entries: "all_entries (jetson_entry out) m \<Longrightarrow> sec out m = Inr m'
      \<Longrightarrow> all_entries (jetson_entry out) m'"
    and exns: "sec out m = Inl e \<Longrightarrow> parse_exn e"

lemma prom_char_in_key_chars: "prom_char c \<Longrightarrow> c \<in> key_chars out"
  by (simp add: key_chars_def)

lemma list_all_prom_key: "list_all prom_char k \<Longrightarrow> set k \<subseteq> key_chars out"
  by (auto simp: list_all_iff prom_char_in_key_chars)

text \<open>A fixed key, and a key around a lower-cased word of the line.\<close>

lemma fixed_entry:
  assumes "startswith k ''jetson_''" "list_all prom_char k" "is_number v" "\<not> startswith k ''jetson_temp_''"
  shows "jetson_entry out k v"
  using assms list_all_prom_key by (auto simp: jetson_entry_def)

lemma set_digits_str_acc: "list_all is_digit acc \<Longrightarrow> 0 \<le> n \<Longrightarrow> list_all is_digit (str_int_acc n acc)"
proof (induction n acc rule: str_int_acc.induct)
  case (1 n acc)
  have d: "is_digit (digit_char k)" if "0 \<le> k" "k < 10" for k
  proof -
    have "ord_c (digit_char k) = k + 48" using that
      by (simp add: ord_c_def digit_char_def take_bit_eq_mod)
    with that show ?thesis by (simp add: is_digit_def)
  qed
  show ?case
  proof (cases "n < 10")
    case True
    with 1 d show ?thesis by (simp add: str_int_acc.simps [of n])
  next
    case False
    with 1 d [of "n mod 10"] show ?thesis by (simp add: str_int_acc.simps [of n])
  qed
qed

lemma str_nat_digits: "list_all is_digit (str_nat n)"
  by (simp add: str_nat_def set_digits_str_acc)

lemma digit_prom: "list_all is_digit s \<Longrightarrow> list_all prom_char s"
  by (auto simp: list_all_iff prom_char_def)


section \<open>Every section keeps the contract\<close>

text \<open>The groups that every match of a pattern sets: reading one of them raises no TypeError and
  no AttributeError. The other groups are read behind \<open>has_group\<close>.\<close>

lemma pattern_sets [simp]:
  "always_sets power_re (Suc 0)" "always_sets power_re 2"
  "always_sets pom_re (Suc 0)" "always_sets pom_re 2"
  "always_sets temp_re (Suc 0)" "always_sets temp_re 2"
  "always_sets ram_re (Suc 0)" "always_sets ram_re 2"
  "always_sets swap_re (Suc 0)" "always_sets swap_re 2"
  "always_sets swap_cached_re (Suc 0)" "always_sets swap_cached_re 2"
  "always_sets lfb_re (Suc 0)" "always_sets lfb_re 2"
  "always_sets cpu_re (Suc 0)"
  "always_sets core_re (Suc 0)" "always_sets core_re 2"
  "always_sets emc_re (Suc 0)"
  "always_sets gpu_bracket_re (Suc 0)" "always_sets gpu_bracket_re 2"
  "always_sets gpu_optional_re (Suc 0)"
  "always_sets gpu_single_re (Suc 0)" "always_sets gpu_single_re 2"
  "always_sets vic_re (Suc 0)" "always_sets ape_re (Suc 0)"
  "always_sets iram_re (Suc 0)" "always_sets iram_re 2" "always_sets iram_lfb_re (Suc 0)"
  by (simp_all add: power_re_def pom_re_def temp_re_def ram_re_def swap_re_def swap_cached_re_def
      lfb_re_def cpu_re_def core_re_def emc_re_def gpu_bracket_re_def gpu_optional_re_def
      gpu_single_re_def vic_re_def ape_re_def iram_re_def iram_lfb_re_def word_grp_def digits_grp_def)

lemma has_group_takes_part: "has_group g n \<Longrightarrow> takes_part g n"
  by (auto simp: has_group_def takes_part_def split: option.splits)

lemmas group_reads = read_group search_sets matched_sets has_group_takes_part

lemma matched_word:
  assumes "matched_in r out g" "\<And>w. grp_lang r n w \<Longrightarrow> list_all is_word w"
  shows "set (lower (group_text g n)) \<subseteq> key_chars out"
proof (cases "group g n")
  case None
  then show ?thesis by (simp add: group_text_def lower_def)
next
  case (Some w)
  with matched_group [OF assms(1) Some] assms(2) have "set w \<subseteq> {c \<in> set out. is_word c}"
    by (auto simp: list_all_iff)
  with Some show ?thesis by (auto simp: group_text_def set_lower key_chars_def)
qed

text \<open>A key made of a fixed start, a word of the line and a fixed end.\<close>

lemma word_key:
  assumes "set w \<subseteq> key_chars out" "list_all prom_char pre" "list_all prom_char post"
  shows "set (pre @ w @ post) \<subseteq> key_chars out"
  using assms list_all_prom_key by auto

lemma search_section:
  assumes "\<And>g m m'. matched_in r out g \<Longrightarrow> P m \<Longrightarrow> f g m = Inr m' \<Longrightarrow> P m'"
    and "P m" "on_search r f out m = Inr m'"
  shows "P m'"
  using assms(2,3) assms(1) [OF re_search_Some assms(2)]
  by (auto simp: on_search_def split: option.splits)

lemma finditer_section:
  assumes "\<And>g m m'. matched_in r out g \<Longrightarrow> P m \<Longrightarrow> f g m = Inr m' \<Longrightarrow> P m'"
    and "P m" "rfold f (re_finditer r out) m = Inr m'"
  shows "P m'"
  using rfold_invariant [of "re_finditer r out" P f m m'] assms re_finditer_in by blast

lemma rfold_Inl: "rfold f xs s = Inl e \<Longrightarrow> \<exists>x t. x \<in> set xs \<and> f x t = Inl e"
proof (induction xs arbitrary: s)
  case (Cons x xs)
  then show ?case unfolding rfold.simps rbind_Inl_iff by (metis list.set_intros)
qed simp

lemma search_exn:
  "on_search r f out m = Inl e \<Longrightarrow> (\<And>g m. matched_in r out g \<Longrightarrow> f g m = Inl e \<Longrightarrow> parse_exn e)
    \<Longrightarrow> parse_exn e"
  by (auto simp: on_search_def split: option.splits dest: re_search_Some)

lemma finditer_exn:
  "rfold f (re_finditer r out) m = Inl e \<Longrightarrow> (\<And>g m. matched_in r out g \<Longrightarrow> f g m = Inl e \<Longrightarrow> parse_exn e)
    \<Longrightarrow> parse_exn e"
  by (auto dest!: rfold_Inl dest: re_finditer_in)

lemma rail_values_exn [dest]: "rail_values g = Inl e \<Longrightarrow> takes_part g 2 \<Longrightarrow> parse_exn e"
  by (auto simp: rail_values_def res_simps group_reads split: if_splits)

lemma milli_exn [dest]: "milli x = Inl e \<Longrightarrow> parse_exn e"
  by (auto simp: milli_def res_simps)

lemma milli_number: "milli x = Inr v \<Longrightarrow> is_number v"
  by (auto simp: milli_def res_simps)

lemma put_rail_exn [dest]: "put_rail g a b m = Inl e \<Longrightarrow> takes_part g (Suc 0) \<Longrightarrow> parse_exn e"
  by (auto simp: put_rail_def Let_def res_simps group_reads split: if_splits)

lemma put_rail_entries:
  assumes "set (lower (group_text g 1)) \<subseteq> key_chars out"
    and "all_entries (jetson_entry out) m" "put_rail g a b m = Inr m'"
  shows "all_entries (jetson_entry out) m'"
proof -
  have lits: "list_all prom_char ''jetson_power_''" "list_all prom_char ''_watts''"
    "list_all prom_char ''_avg_watts''" by code_simp+
  have k: "jetson_entry out (rail_key (group_text g 1) post) v"
    if "list_all prom_char post" "is_number v" for post v
    unfolding jetson_entry_def rail_key_def
    by (intro conjI word_key assms(1) lits that) (simp_all add: that)
  show ?thesis using assms(2,3) k [OF lits(2)] k [OF lits(3)]
    by (auto simp: put_rail_def Let_def res_simps milli_number dest!: text_of_group_Inr
        intro!: all_entries_dset split: if_splits)
qed

lemma word_grp_lang:
  "grp_lang power_re 1 w \<Longrightarrow> list_all is_word w" "grp_lang temp_re 1 w \<Longrightarrow> list_all is_word w"
  "grp_lang pom_re 1 w \<Longrightarrow> list_all is_word w"
proof -
  have "list_all is_word ''POM_''" by code_simp
  then show "grp_lang power_re 1 w \<Longrightarrow> list_all is_word w" "grp_lang temp_re 1 w \<Longrightarrow> list_all is_word w"
  "grp_lang pom_re 1 w \<Longrightarrow> list_all is_word w"
    by (auto simp: power_re_def temp_re_def pom_re_def word_grp_def digits_grp_def spaces_def)
qed

interpretation power: metric_section_spec power_section
proof
  fix out m m'
  assume "all_entries (jetson_entry out) m" "power_section out m = Inr m'"
  then show "all_entries (jetson_entry out) m'" unfolding power_section_def
    by (rule finditer_section [rotated])
      (auto simp: power_step_def res_simps split: if_splits
        dest: put_rail_entries [OF matched_word [OF _ word_grp_lang(1)]])
next
  fix out m e
  assume "power_section out m = Inl e"
  then show "parse_exn e"
    unfolding power_section_def
    by (rule finditer_exn) (auto simp: power_step_def res_simps matched_sets split: if_splits)
qed


definition fixed_keys :: "string list" where
  "fixed_keys = [''jetson_ram_used_mb'', ''jetson_ram_total_mb'', ''jetson_ram_used_percent'',
     ''jetson_swap_used_mb'', ''jetson_swap_total_mb'', ''jetson_swap_cached_mb'',
     ''jetson_iram_used_kb'', ''jetson_iram_total_kb'', ''jetson_iram_used_percent'',
     ''jetson_iram_lfb_kb'', ''jetson_lfb_blocks'', ''jetson_lfb_total_mb'',
     ''jetson_cpu_avg_usage_percent'', ''jetson_cpu_active_cores'', ''jetson_emc_usage_percent'',
     ''jetson_emc_freq_mhz'', ''jetson_gpu_usage_percent'', ''jetson_gpu_freq0_mhz'',
     ''jetson_vic_freq_mhz'', ''jetson_ape_freq_mhz'']"

lemma fixed_key_entry: "k \<in> set fixed_keys \<Longrightarrow> is_number v \<Longrightarrow> jetson_entry out k v"
proof -
  have "list_all (\<lambda>k. startswith k ''jetson_'' \<and> list_all prom_char k
      \<and> \<not> startswith k ''jetson_temp_'') fixed_keys"
    by code_simp
  then show "k \<in> set fixed_keys \<Longrightarrow> is_number v \<Longrightarrow> ?thesis"
    by (auto simp: list_all_iff intro!: fixed_entry)
qed

lemma core_key_entry:
  assumes "list_all prom_char field" "is_number v"
  shows "jetson_entry out (core_key i field) v"
proof -
  have "list_all prom_char ''jetson_cpu_core''" "list_all prom_char ''_''" by code_simp+
  then have "list_all prom_char (core_key i field)"
    using assms(1) by (simp only: core_key_def list_all_append digit_prom [OF str_nat_digits] simp_thms)
  then show ?thesis using assms(2) by (intro fixed_entry) (simp_all add: core_key_def)
qed

lemma gpu_freq_key_entry:
  assumes "is_number v"
  shows "jetson_entry out (gpu_freq_key i) v"
proof -
  have "list_all prom_char ''jetson_gpu_freq''" "list_all prom_char ''_mhz''" by code_simp+
  then have "list_all prom_char (gpu_freq_key i)"
    by (simp only: gpu_freq_key_def list_all_append digit_prom [OF str_nat_digits] simp_thms)
  then show ?thesis using assms by (intro fixed_entry) (simp_all add: gpu_freq_key_def)
qed

lemma core_fields:
  "list_all prom_char ''status''" "list_all prom_char ''usage_percent''" "list_all prom_char ''freq_mhz''"
  by code_simp+

lemma fround_not_below:
  assumes "\<not> flt t (Fin (of_int n))" "\<bar>n\<bar> \<le> 2 ^ 53"
  shows "\<not> flt (fround t k) (Fin (of_int n))"
proof (cases t)
  case (Fin a)
  with assms(1) have "of_int n \<le> a" by (simp add: flt_def)
  then have "of_int (n * 10 ^ k) \<le> a * 10 ^ k" by simp
  then have "n * 10 ^ k \<le> rhe (a * 10 ^ k)" by (rule of_int_le_rhe)
  then have "(of_int (n * 10 ^ k) :: rat) \<le> of_int (rhe (a * 10 ^ k))" by (simp only: of_int_le_iff)
  then have "of_int n \<le> (of_int (rhe (a * 10 ^ k)) / 10 ^ k :: rat)" by (simp add: field_simps)
  then have n: "of_int n \<le> rnd (of_int (rhe (a * 10 ^ k)) / 10 ^ k)"
    using rnd_mono rnd_of_int [OF assms(2)] by metis
  show ?thesis
  proof (cases "below_limit (rnd (of_int (rhe (a * 10 ^ k)) / 10 ^ k))")
    case True
    then show ?thesis using n Fin by (simp add: fround_def fl_def Let_def flt_def)
  next
    case False
    then have "float_limit \<le> \<bar>rnd (of_int (rhe (a * 10 ^ k)) / 10 ^ k)\<bar>"
      by (simp add: below_limit_iff)
    then have "\<not> rnd (of_int (rhe (a * 10 ^ k)) / 10 ^ k) < 0"
      using n pow53_less [OF assms(2)] by linarith
    then show ?thesis using Fin False by (simp add: fround_def fl_def Let_def flt_def)
  qed
qed (use assms in \<open>simp_all add: fround_def\<close>)

lemma temp_entry:
  assumes "set (lower (group_text g 1)) \<subseteq> key_chars out" "\<not> flt t (Fin (- 100))"
  shows "jetson_entry out (temp_key (group_text g 1)) (PFloat (fround t 2))"
proof -
  have lits: "list_all prom_char ''jetson_temp_''" "list_all prom_char ''_celsius''" by code_simp+
  have "\<not> flt (fround t 2) (Fin (- 100))" using fround_not_below [of t "- 100" 2] assms(2) by simp
  then show ?thesis unfolding jetson_entry_def temp_key_def
    by (intro conjI word_key assms(1) lits) simp_all
qed

lemmas section_simps = on_search_def res_simps Let_def group_reads

interpretation pom: metric_section_spec pom_section
proof
  fix out m m'
  assume "all_entries (jetson_entry out) m" "pom_section out m = Inr m'"
  then show "all_entries (jetson_entry out) m'" unfolding pom_section_def
    by (rule finditer_section [rotated])
      (auto simp: pom_step_def res_simps split: if_splits
        dest: put_rail_entries [OF matched_word [OF _ word_grp_lang(3)]])
next
  fix out m e
  assume "pom_section out m = Inl e"
  then show "parse_exn e"
    unfolding pom_section_def
    by (rule finditer_exn) (auto simp: pom_step_def res_simps matched_sets)
qed

lemma temp_step_entries:
  assumes "matched_in temp_re out g" "all_entries (jetson_entry out) m" "temp_step g m = Inr m'"
  shows "all_entries (jetson_entry out) m'"
proof -
  obtain t where t: "float_of_group g 2 = Inr t"
    using assms(3) by (auto simp: temp_step_def res_simps)
  show ?thesis
  proof (cases "flt t (Fin (- 100))")
    case True
    with t assms(2,3) show ?thesis by (simp add: temp_step_def)
  next
    case False
    with t assms(3) have "m' = dset m (temp_key (group_text g 1)) (PFloat (fround t 2))"
      using assms(1) by (simp add: temp_step_def group_reads)
    then show ?thesis
      using assms(2) temp_entry [OF matched_word [OF assms(1) word_grp_lang(2)] False] by blast
  qed
qed

interpretation temp: metric_section_spec temp_section
proof
  fix out m m'
  assume "all_entries (jetson_entry out) m" "temp_section out m = Inr m'"
  then show "all_entries (jetson_entry out) m'" unfolding temp_section_def
    by (rule finditer_section [rotated]) (rule temp_step_entries)
next
  fix out m e
  assume "temp_section out m = Inl e"
  then show "parse_exn e"
    unfolding temp_section_def
    by (rule finditer_exn) (auto simp: temp_step_def res_simps group_reads split: if_splits)
qed

lemma percent_exn [dest]: "percent a b = Inl e \<Longrightarrow> parse_exn e"
  by (auto simp: percent_def res_simps)

lemma put_swap_exn [dest]:
  "put_swap g m = Inl e \<Longrightarrow> takes_part g (Suc 0) \<Longrightarrow> takes_part g 2 \<Longrightarrow> parse_exn e"
  by (auto simp: put_swap_def res_simps group_reads)

lemma put_swap_entries [dest]:
  "put_swap g m = Inr m' \<Longrightarrow> all_entries (jetson_entry out) m \<Longrightarrow> all_entries (jetson_entry out) m'"
  by (auto simp: put_swap_def res_simps fixed_keys_def intro!: all_entries_dset fixed_key_entry)

text \<open>The sections that search once: their entries have fixed keys.\<close>

interpretation ram: metric_section_spec ram_section
  by unfold_locales
    (auto simp: ram_section_def section_simps fixed_keys_def intro!: all_entries_dset fixed_key_entry
      split: option.splits if_splits)

interpretation swap: metric_section_spec swap_section
  by unfold_locales (auto simp: swap_section_def section_simps split: option.splits)

interpretation swap_cached: metric_section_spec swap_cached_section
  by unfold_locales
    (auto simp: swap_cached_section_def section_simps fixed_keys_def
      intro!: all_entries_dset fixed_key_entry split: option.splits if_splits)

interpretation lfb: metric_section_spec lfb_section
  by unfold_locales
    (auto simp: lfb_section_def section_simps fixed_keys_def intro!: all_entries_dset fixed_key_entry
      split: option.splits if_splits)

interpretation emc: metric_section_spec emc_section
  by unfold_locales
    (auto simp: emc_section_def section_simps fixed_keys_def intro!: all_entries_dset fixed_key_entry
      split: option.splits if_splits)

interpretation vic: metric_section_spec vic_section
  by unfold_locales
    (auto simp: vic_section_def section_simps fixed_keys_def intro!: all_entries_dset fixed_key_entry
      split: option.splits if_splits)

interpretation ape: metric_section_spec ape_section
  by unfold_locales
    (auto simp: ape_section_def section_simps fixed_keys_def intro!: all_entries_dset fixed_key_entry
      split: option.splits if_splits)

interpretation gpu_single: metric_section_spec gpu_single_section
  by unfold_locales
    (auto simp: gpu_single_section_def section_simps fixed_keys_def intro!: all_entries_dset fixed_key_entry
      split: option.splits if_splits)

interpretation iram: metric_section_spec iram_section
  by unfold_locales
    (auto simp: iram_section_def section_simps fixed_keys_def intro!: all_entries_dset fixed_key_entry
      split: option.splits if_splits)


lemma gpu_freqs_entries [dest]:
  assumes "gpu_freqs fs m = Inr m'" "all_entries (jetson_entry out) m"
  shows "all_entries (jetson_entry out) m'"
  by (rule rfold_invariant [where P = "all_entries (jetson_entry out)",
        OF _ assms(2) assms(1) [unfolded gpu_freqs_def]])
    (auto simp: gpu_freq_step_def res_simps intro!: all_entries_dset gpu_freq_key_entry)

lemma gpu_freqs_exn [dest]: "gpu_freqs fs m = Inl e \<Longrightarrow> parse_exn e"
  by (auto simp: gpu_freqs_def gpu_freq_step_def res_simps dest!: rfold_Inl)

interpretation gpu_bracket: metric_section_spec gpu_bracket_section
  by unfold_locales
    (auto simp: gpu_bracket_section_def section_simps fixed_keys_def
      intro!: all_entries_dset fixed_key_entry dest!: gpu_freqs_entries split: option.splits if_splits)

interpretation gpu_optional: metric_section_spec gpu_optional_section
  by unfold_locales
    (auto simp: gpu_optional_section_def section_simps fixed_keys_def
      intro!: all_entries_dset fixed_key_entry dest!: gpu_freqs_entries split: option.splits if_splits)

lemma core_step_entries:
  "core_step ic (m, s, a) = Inr (m', s', a') \<Longrightarrow> all_entries (jetson_entry out) m
    \<Longrightarrow> all_entries (jetson_entry out) m'"
  by (auto simp: core_step_def section_simps
      intro!: all_entries_dset core_key_entry [OF core_fields(1)] core_key_entry [OF core_fields(2)]
        core_key_entry [OF core_fields(3)]
      split: prod.splits if_splits option.splits)

lemma core_step_exn: "core_step ic st = Inl e \<Longrightarrow> parse_exn e"
  by (auto simp: core_step_def section_simps split: prod.splits if_splits option.splits)

lemma cpu_average_entries:
  "cpu_average (m, s, a) = Inr m' \<Longrightarrow> all_entries (jetson_entry out) m
    \<Longrightarrow> all_entries (jetson_entry out) m'"
  by (auto simp: cpu_average_def section_simps fixed_keys_def intro!: all_entries_dset fixed_key_entry
      split: if_splits)

lemma cpu_average_exn: "cpu_average st = Inl e \<Longrightarrow> parse_exn e"
  by (auto simp: cpu_average_def section_simps split: prod.splits if_splits)

interpretation cpu: metric_section_spec cpu_section
proof
  fix out m m'
  assume m: "all_entries (jetson_entry out) m" and "cpu_section out m = Inr m'"
  then consider "m' = m" | cores s a n where "rfold core_step cores (m, 0, 0) = Inr (n, s, a)"
      "cpu_average (n, s, a) = Inr m'"
    by (auto simp: cpu_section_def section_simps split: option.splits)
  then show "all_entries (jetson_entry out) m'"
  proof cases
    case 1
    with m show ?thesis by simp
  next
    case 2
    have "all_entries (jetson_entry out) (fst (n, s, a))"
      by (rule rfold_invariant [OF _ _ 2(1)]) (use m core_step_entries in \<open>auto split: prod.splits\<close>)
    with cpu_average_entries [OF 2(2)] show ?thesis by simp
  qed
next
  fix out m e
  assume "cpu_section out m = Inl e"
  then show "parse_exn e"
    by (auto simp: cpu_section_def section_simps dest!: rfold_Inl core_step_exn cpu_average_exn
        split: option.splits)
qed

section \<open>The parsers\<close>

lemma run_sections_spec:
  assumes "list_all metric_section_spec fs"
  shows "metric_section_spec (run_sections fs)"
  using assms
proof (induction fs)
  case Nil
  show ?case by unfold_locales simp_all
next
  case (Cons f fs)
  then have f: "metric_section_spec f" and fs: "metric_section_spec (run_sections fs)" by simp_all
  show ?case
    by unfold_locales
      (auto simp: res_simps
        dest: metric_section_spec.entries [OF f] metric_section_spec.entries [OF fs]
          metric_section_spec.exns [OF f] metric_section_spec.exns [OF fs])
qed

text \<open>The device models, and the parser each collector class supplies.\<close>

datatype jetson_model = Orin | OrinNano | Xavier | Nano

fun parse_all_metrics :: "jetson_model \<Rightarrow> string \<Rightarrow> metrics res" where
  "parse_all_metrics Orin = orin_parse_all_metrics"
| "parse_all_metrics OrinNano = orin_nano_parse_all_metrics"
| "parse_all_metrics Xavier = xavier_parse_all_metrics"
| "parse_all_metrics Nano = nano_parse_all_metrics"

text \<open>What the base class and the exporter rely on in a parser.\<close>

locale tegrastats_parser =
  fixes parse :: "string \<Rightarrow> metrics res"
  assumes parse_entries: "parse out = Inr m \<Longrightarrow> all_entries (jetson_entry out) m"
    and parse_exns: "parse out = Inl e \<Longrightarrow> parse_exn e"
begin

lemma entry: "parse out = Inr m \<Longrightarrow> dget m k = Some v \<Longrightarrow> jetson_entry out k v"
  using parse_entries all_entries_dget by blast

lemma keys_distinct: "parse out = Inr m \<Longrightarrow> wf_dict m"
  using parse_entries by (auto simp: all_entries_def)

lemma temperature_floor:
  "parse out = Inr m \<Longrightarrow> dget m k = Some v \<Longrightarrow> startswith k ''jetson_temp_''
    \<Longrightarrow> \<exists>t. v = PFloat t \<and> \<not> flt t (Fin (- 100))"
  using entry by (simp add: jetson_entry_def)

end

lemma parser_of_sections:
  "list_all metric_section_spec fs \<Longrightarrow> (\<And>out. parse out = run_sections fs out [])
    \<Longrightarrow> tegrastats_parser parse"
  using metric_section_spec.entries [OF run_sections_spec] metric_section_spec.exns [OF run_sections_spec]
  by unfold_locales (metis all_entries_Nil)+

lemmas section_specs = power.metric_section_spec_axioms pom.metric_section_spec_axioms
  temp.metric_section_spec_axioms ram.metric_section_spec_axioms swap.metric_section_spec_axioms
  swap_cached.metric_section_spec_axioms lfb.metric_section_spec_axioms
  cpu.metric_section_spec_axioms emc.metric_section_spec_axioms vic.metric_section_spec_axioms
  ape.metric_section_spec_axioms gpu_bracket.metric_section_spec_axioms
  gpu_optional.metric_section_spec_axioms gpu_single.metric_section_spec_axioms
  iram.metric_section_spec_axioms

interpretation device: tegrastats_parser "parse_all_metrics model" for model
proof (cases model)
  case Orin
  show "tegrastats_parser (parse_all_metrics model)"
    by (rule parser_of_sections [OF _ orin_parse_all_metrics_def [folded parse_all_metrics.simps(1) Orin]])
      (simp add: section_specs)
next
  case OrinNano
  show "tegrastats_parser (parse_all_metrics model)"
    by (rule parser_of_sections [OF _ orin_nano_parse_all_metrics_def [folded parse_all_metrics.simps(2) OrinNano]])
      (simp add: section_specs)
next
  case Xavier
  show "tegrastats_parser (parse_all_metrics model)"
    by (rule parser_of_sections [OF _ xavier_parse_all_metrics_def [folded parse_all_metrics.simps(3) Xavier]])
      (simp add: section_specs)
next
  case Nano
  show "tegrastats_parser (parse_all_metrics model)"
    by (rule parser_of_sections [OF _ nano_parse_all_metrics_def [folded parse_all_metrics.simps(4) Nano]])
      (simp add: section_specs)
qed

text \<open>On an ASCII line every name is a valid Prometheus metric name.\<close>

lemma lower_ascii_word: "is_word c \<Longrightarrow> ord_c c < 128 \<Longrightarrow> prom_char (lower_c c)"
proof -
  assume w: "is_word c" "ord_c c < 128"
  have "ord_c (lower_c c) = (if 65 \<le> ord_c c \<and> ord_c c \<le> 90 then ord_c c + 32 else ord_c c)"
    using w by (auto simp: lower_c_def Let_def ord_c_def take_bit_eq_mod)
  then show ?thesis using w
    by (auto simp: is_word_def prom_char_def prom_start_def is_digit_def Let_def split: if_splits)
qed

lemma ascii_key_chars: "ascii out \<Longrightarrow> c \<in> key_chars out \<Longrightarrow> prom_char c"
  by (auto simp: key_chars_def ascii_def list_all_iff lower_ascii_word)

lemma jetson_entry_name: "ascii out \<Longrightarrow> jetson_entry out k v \<Longrightarrow> prom_name k"
proof -
  assume a: "ascii out" "jetson_entry out k v"
  then have "list_all prom_char k" using ascii_key_chars by (auto simp: jetson_entry_def list_all_iff)
  moreover have "startswith k ''jetson_''" using a(2) by (simp add: jetson_entry_def)
  moreover have "prom_start CHR ''j''" by code_simp
  ultimately show ?thesis by (cases k) (auto simp: prom_name_def)
qed

end
