(* ===== verification/TegrastatsOverlay.thy ===== *)
theory TegrastatsOverlay
  imports TegrastatsSpec
begin

text \<open>
  The sections of a tegrastats parser do not read what the sections before them wrote: run on a
  dictionary, a section raises exactly when it raises on the empty one, and otherwise updates the
  dictionary with what it produces on the empty one. The parsers are therefore overlays of
  independent readings of the same line, and two parsers that differ in one section differ in that
  section's metrics only.
\<close>

section \<open>Overlays\<close>

text \<open>A section that writes without reading what the sections before it wrote: on an earlier
  dictionary \<open>m\<close> it raises as it would alone, and otherwise assigns what it would alone.\<close>

definition overlays :: "(metrics \<Rightarrow> metrics res) \<Rightarrow> bool" where
  "overlays f = (\<forall>m n. wf_dict n \<longrightarrow> f (dupdate m n) = rmap (dupdate m) (f n)
     \<and> (\<forall>n'. f n = Inr n' \<longrightarrow> wf_dict n'))"

lemma overlaysD: "overlays f \<Longrightarrow> f m = rmap (dupdate m) (f [])"
  unfolding overlays_def using wf_dict_Nil dupdate_Nil by metis

lemma overlays_Inr: "overlays Inr"
  by (simp add: overlays_def)

lemma overlays_Inl: "overlays (\<lambda>m. Inl e)"
  by (simp add: overlays_def)

lemma overlays_dset: "overlays f \<Longrightarrow> overlays (\<lambda>m. rmap (\<lambda>n. dset n k v) (f m))"
proof -
  assume f: "overlays f"
  show ?thesis unfolding overlays_def
  proof (intro allI impI)
    fix m n :: metrics assume n: "wf_dict n"
    show "rmap (\<lambda>n. dset n k v) (f (dupdate m n)) = rmap (dupdate m) (rmap (\<lambda>n. dset n k v) (f n))
      \<and> (\<forall>n'. rmap (\<lambda>n. dset n k v) (f n) = Inr n' \<longrightarrow> wf_dict n')"
      using f n by (cases "f n") (auto simp: overlays_def dupdate_dset wf_dict_dset)
  qed
qed

lemma overlays_eq: "overlays f \<Longrightarrow> wf_dict n \<Longrightarrow> f (dupdate m n) = rmap (dupdate m) (f n)"
  by (simp add: overlays_def)

lemma overlays_wf: "overlays f \<Longrightarrow> wf_dict n \<Longrightarrow> f n = Inr n' \<Longrightarrow> wf_dict n'"
  by (simp add: overlays_def)

lemma overlays_rbind:
  assumes f: "overlays f" and g: "overlays g"
  shows "overlays (\<lambda>m. rbind (f m) g)"
  unfolding overlays_def
proof (intro allI impI)
  fix m n :: metrics assume n: "wf_dict n"
  show "rbind (f (dupdate m n)) g = rmap (dupdate m) (rbind (f n) g)
      \<and> (\<forall>n'. rbind (f n) g = Inr n' \<longrightarrow> wf_dict n')"
  proof (cases "f n")
    case (Inr x)
    then have "wf_dict x" by (rule overlays_wf [OF f n])
    then show ?thesis
      using overlays_eq [OF g, of x m] overlays_wf [OF g] by (simp add: overlays_eq [OF f n] Inr)
  qed (simp add: overlays_eq [OF f n])
qed

lemma overlays_value:
  assumes "\<And>x. overlays (f x)"
  shows "overlays (\<lambda>m. rbind c (\<lambda>x. f x m))"
proof (cases c)
  case (Inl e)
  then show ?thesis by (simp add: overlays_Inl)
next
  case (Inr x)
  then show ?thesis using assms [of x] by simp
qed

lemma overlays_rfold: "(\<And>x. overlays (f x)) \<Longrightarrow> overlays (rfold f xs)"
proof (induction xs)
  case Nil
  then show ?case by (simp add: overlays_def)
next
  case (Cons x xs)
  then show ?case using overlays_rbind [of "f x" "rfold f xs"] by simp
qed

lemma overlays_search: "(\<And>g. overlays (f g)) \<Longrightarrow> overlays (on_search r f out)"
  unfolding on_search_def [abs_def] by (cases "re_search r out") (auto intro: overlays_Inr)

lemma overlays_sections: "list_all (\<lambda>f. overlays (f out)) fs \<Longrightarrow> overlays (run_sections fs out)"
proof (induction fs)
  case Nil
  then show ?case by (simp add: overlays_def)
next
  case (Cons f fs)
  then show ?case using overlays_rbind [of "f out" "run_sections fs out"] by simp
qed

text \<open>The shapes of the sections' bodies: a computed value is stored, after others.\<close>

lemma overlays_store: "overlays (\<lambda>m. Inr (dset m k v))"
  using overlays_dset [OF overlays_Inr, of k v] by simp

lemma overlays_rmap_dset:
  assumes "\<And>x. overlays (\<lambda>m. Inr (F x m))"
  shows "overlays (\<lambda>m. rmap (\<lambda>x. F x m) c)"
  using assms by (cases c) (simp_all add: overlays_Inl)

lemma overlays_then_dset: "overlays (\<lambda>m. Inr (F m)) \<Longrightarrow> overlays (\<lambda>m. Inr (dset (F m) k v))"
  using overlays_dset [of "\<lambda>m. Inr (F m)" k v] by simp

lemma overlays_if: "overlays f \<Longrightarrow> overlays g \<Longrightarrow> overlays (\<lambda>m. if b then f m else g m)"
  by (cases b) simp_all

lemma overlays_after:
  assumes "overlays (\<lambda>m. Inr (F m))" "overlays g"
  shows "overlays (\<lambda>m. g (F m))"
  using overlays_rbind [OF assms] by simp

lemmas overlays_intros = overlays_Inr overlays_Inl overlays_store overlays_then_dset
  overlays_value overlays_rmap_dset overlays_if overlays_search overlays_rfold

lemma power_overlays: "overlays (power_section out)"
  unfolding power_section_def [abs_def]
proof (rule overlays_rfold)
  fix g
  have "overlays (put_rail g cur avg)" for cur avg
    unfolding put_rail_def [abs_def] Let_def by (intro overlays_intros)
  then show "overlays (power_step g)"
    unfolding power_step_def [abs_def] 
    by (intro overlays_value) (auto intro!: overlays_intros split: prod.split)
qed

lemma temp_overlays: "overlays (temp_section out)"
  unfolding temp_section_def [abs_def] temp_step_def [abs_def] by (intro overlays_intros)

lemma ram_overlays: "overlays (ram_section out)"
  unfolding ram_section_def by (intro overlays_intros)

lemma swap_overlays: "overlays (swap_section out)"
  unfolding swap_section_def put_swap_def [abs_def] by (intro overlays_intros)

lemma lfb_overlays: "overlays (lfb_section out)"
  unfolding lfb_section_def by (intro overlays_intros)

lemma emc_overlays: "overlays (emc_section out)"
  unfolding emc_section_def Let_def by (intro overlays_intros)

lemma pom_overlays: "overlays (pom_section out)"
  unfolding pom_section_def [abs_def]
proof (rule overlays_rfold)
  fix g
  have "overlays (put_rail g cur avg)" for cur avg
    unfolding put_rail_def [abs_def] Let_def by (intro overlays_intros)
  then show "overlays (pom_step g)"
    unfolding pom_step_def [abs_def] 
    by (intro overlays_value) (auto split: prod.split)
qed

lemma put_swap_overlays: "overlays (put_swap g)"
  unfolding put_swap_def [abs_def] by (intro overlays_intros)

lemma swap_cached_overlays: "overlays (swap_cached_section out)"
  unfolding swap_cached_section_def by (intro overlays_search overlays_rbind put_swap_overlays overlays_intros)

lemma gpu_freq_step_overlays: "overlays (gpu_freq_step ic)"
proof (cases ic)
  case (Pair i f)
  show ?thesis unfolding gpu_freq_step_def [abs_def] Let_def Pair prod.case by (intro overlays_intros)
qed

lemma gpu_freqs_overlays: "overlays (gpu_freqs fs)"
  unfolding gpu_freqs_def [abs_def] by (intro overlays_rfold gpu_freq_step_overlays)

lemma gpu_freqs_after: "overlays (\<lambda>m. rbind c (\<lambda>freqs. gpu_freqs freqs (dset m k v)))"
  by (intro overlays_value overlays_after [OF overlays_store gpu_freqs_overlays])

lemma gpu_bracket_overlays: "overlays (gpu_bracket_section out)"
  unfolding gpu_bracket_section_def Let_def by (intro overlays_search gpu_freqs_after overlays_value)

lemma gpu_optional_overlays: "overlays (gpu_optional_section out)"
  unfolding gpu_optional_section_def Let_def by (intro gpu_freqs_after overlays_intros)

lemma gpu_single_overlays: "overlays (gpu_single_section out)"
  unfolding gpu_single_section_def by (intro overlays_intros)

lemma vic_overlays: "overlays (vic_section out)"
  unfolding vic_section_def by (intro overlays_intros)

lemma ape_overlays: "overlays (ape_section out)"
  unfolding ape_section_def by (intro overlays_intros)

lemma iram_overlays: "overlays (iram_section out)"
proof -
  have lfb: "overlays (on_search iram_lfb_re (\<lambda>h n.
       rmap (\<lambda>b. dset n ''jetson_iram_lfb_kb'' (PFloat b)) (float_of_group h 1)) out)"
    by (intro overlays_intros)
  have put: "overlays (\<lambda>m. Inr (dset (dset (dset m a u) b v) c w))" for a b c u v w
    by (intro overlays_intros)
  show ?thesis unfolding iram_section_def [abs_def] Let_def
    by (intro overlays_search overlays_value overlays_after [OF put lfb])
qed

definition overlay_state :: "metrics \<Rightarrow> metrics \<times> int \<times> int \<Rightarrow> metrics \<times> int \<times> int" where
  "overlay_state m st = (dupdate m (fst st), snd st)"

lemma core_step_overlay:
  assumes "wf_dict (fst st)"
  shows "core_step ic (overlay_state m st) = rmap (overlay_state m) (core_step ic st)"
    and "core_step ic st = Inr st' \<Longrightarrow> wf_dict (fst st')"
  using assms
  by (auto simp: core_step_def overlay_state_def Let_def dupdate_dset wf_dict_dset res_simps rmap_rbind rmap_rmap
      split: prod.splits option.splits if_splits)

lemma core_fold_overlay:
  assumes "wf_dict (fst st)"
  shows "rfold core_step cs (overlay_state m st) = rmap (overlay_state m) (rfold core_step cs st)
    \<and> (\<forall>st'. rfold core_step cs st = Inr st' \<longrightarrow> wf_dict (fst st'))"
  using assms
proof (induction cs arbitrary: st)
  case (Cons c cs)
  show ?case
  proof (cases "core_step c st")
    case (Inr st')
    with core_step_overlay(2) [OF Cons.prems Inr] Cons.IH [of st'] show ?thesis
      by (simp add: core_step_overlay(1) [OF Cons.prems] del: split_paired_All)
  qed (simp add: core_step_overlay(1) [OF Cons.prems])
qed simp

lemma cpu_average_overlays: "overlays (\<lambda>m. cpu_average (m, sa))"
  unfolding cpu_average_def Let_def by (cases sa) (auto intro!: overlays_intros)

lemma cpu_overlays: "overlays (cpu_section out)"
  unfolding cpu_section_def
proof (rule overlays_search)
  fix g
  have cores: "overlays (\<lambda>m. rbind (rfold core_step cs (m, 0, 0)) cpu_average)" for cs
    unfolding overlays_def
  proof (intro allI impI)
    fix m n :: metrics assume n: "wf_dict n"
    note fold = core_fold_overlay [of "(n, 0, 0)" cs m, unfolded overlay_state_def fst_conv snd_conv, OF n]
    show "rbind (rfold core_step cs (dupdate m n, 0, 0)) cpu_average
        = rmap (dupdate m) (rbind (rfold core_step cs (n, 0, 0)) cpu_average)
      \<and> (\<forall>n'. rbind (rfold core_step cs (n, 0, 0)) cpu_average = Inr n' \<longrightarrow> wf_dict n')"
    proof (cases "rfold core_step cs (n, 0, 0)")
      case (Inr st)
      then have "wf_dict (fst st)" using fold by blast
      then show ?thesis
        using fold Inr overlays_eq [OF cpu_average_overlays, of "fst st" m "snd st"]
          overlays_wf [OF cpu_average_overlays, of "fst st" "snd st"]
        by simp
    qed (use fold in simp)
  qed
  show "overlays (\<lambda>m. rbind (text_of_group g 1)
      (\<lambda>cores. rbind (rfold core_step (enum (split_on (CHR '','') cores)) (m, 0, 0)) cpu_average))"
    by (intro overlays_value cores)
qed

end
