(* ===== verification/TegrastatsProps.thy ===== *)
theory TegrastatsProps
  imports TegrastatsOverlay
begin

text \<open>
  What the tegrastats parsers export, stated on their results: valid names and numbers, the
  temperature floor, the exceptions, exact watts, bounded percentages, and that the Xavier parser
  is the Orin parser plus one metric.
\<close>

section \<open>Numbers\<close>

lemma core_key_inj [simp]: "core_key i f = core_key j f' \<longleftrightarrow> i = j \<and> f = f'"
proof
  assume "core_key i f = core_key j f'"
  then have e: "str_nat i @ CHR ''_'' # f = str_nat j @ CHR ''_'' # f'" by (simp add: core_key_def)
  have "\<not> is_digit CHR ''_''" by code_simp
  then have "str_nat i = str_nat j"
    using arg_cong [OF e, of "takeWhile is_digit"] takeWhile_digits str_nat_digits by simp
  with e show "i = j \<and> f = f'" by simp
qed simp

text \<open>A whole number of milliwatts below \<open>2^52\<close>: the exported value is the float nearest to the
  exact quotient, and \<open>round(., 3)\<close> does not change it.\<close>

lemma milli_exact:
  assumes "0 \<le> n" "n < 2 ^ 52"
  shows "milli (fl (of_int n)) = Inr (PFloat (fl (of_int n / 1000)))"
proof (cases "n = 0")
  case True
  have "fl 0 = Fin 0" using fl_of_int [of 0] by simp
  with True rhe_of_int [of 0] show ?thesis by (simp add: milli_def fdiv_def fround_def del: rhe_of_int)
next
  case False
  define x y where "x = (of_int n / 1000 :: rat)" and "y = rnd x"
  have n: "fl (of_int n) = Fin (of_int n)" using assms by (intro fl_of_int) simp
  have n1: "(1 :: rat) \<le> of_int n" using False assms by simp
  have n2: "(of_int n :: rat) < 2 ^ 52"
    using assms(2) by (metis of_int_less_iff of_int_numeral of_int_power)
  have x: "1 / 1000 \<le> x" "x < 2 ^ 52" using n1 n2 by (simp_all add: x_def)
  have "(2 powi (- 1022) :: rat) \<le> 2 powi (- 10)" by (subst powi2_le_iff) simp
  also have "\<dots> \<le> 1 / 1000" by (simp add: power_int_def power_divide)
  also have "\<dots> \<le> \<bar>x\<bar>" using x by simp
  finally have "\<bar>rnd x - x\<bar> \<le> \<bar>x\<bar> / 2 ^ 53" by (rule rnd_error)
  then have e: "\<bar>y - x\<bar> \<le> x / 2 ^ 53" using x by (simp add: y_def)
  have "y * 1000 - of_int n = 1000 * (y - x)" by (simp add: x_def)
  then have "\<bar>y * 1000 - of_int n\<bar> = 1000 * \<bar>y - x\<bar>" by (simp only: abs_mult abs_numeral)
  also have "\<dots> \<le> of_int n / 2 ^ 53" using e by (simp add: x_def)
  also have "\<dots> < 1/2" using n2 by simp
  finally have r: "\<bar>y * 1000 - of_int n\<bar> < 1/2" .
  have rhe: "rhe (y * 1000) = n"
  proof -
    have "\<bar>of_int (rhe (y * 1000)) - of_int n\<bar> < (1 :: rat)"
      using rhe_error [of "y * 1000"] r by linarith
    then have "\<bar>rhe (y * 1000) - n\<bar> < 1" by linarith
    then show ?thesis by simp
  qed
  have "\<bar>y - x\<bar> < 1" using e x by simp
  then have "y < x + 1" by linarith
  then have "y < 2 ^ 53" using x(2) by simp
  moreover have "0 \<le> y" using rnd_nonneg [of x] x by (simp add: y_def)
  moreover have "(2 ^ 53 :: rat) < float_limit" using pow53_less [of "2 ^ 53"] by simp
  ultimately have "below_limit y" by (simp add: below_limit_iff)
  then have fl: "fl x = Fin y" by (simp add: fl_def y_def)
  show ?thesis using rhe
    by (simp add: milli_def n fdiv_def x_def [symmetric] fl fround_def)
qed

lemma power_groups:
  assumes "matched_in power_re out g"
  shows "\<exists>a b. group g 1 = Some a \<and> group g 2 = Some b \<and> all_digits b
    \<and> (\<forall>d. group g 3 = Some d \<longrightarrow> all_digits d)"
  using assms
  by (auto simp: matched_in_def power_re_def word_grp_def spaces_def digits_grp_def in_rx group_def)

text \<open>(C15) A power rail is exported in watts as the float nearest to the reading divided by 1000: the
  rounding to three digits is exact on the milliwatts tegrastats prints.\<close>

theorem power_rail_exact:
  assumes g: "matched_in power_re out g" and nc: "group_text g 1 \<noteq> ''NC''"
    and n: "digits_val (group_text g 2) < 2 ^ 52"
    and step: "power_step g m = Inr m'"
  shows "dget m' (rail_key (group_text g 1) ''_watts'')
    = Some (PFloat (fl (of_int (digits_val (group_text g 2)) / 1000)))"
proof -
  obtain a b where ab: "group g 1 = Some a" "group g 2 = Some b" "all_digits b"
    using power_groups [OF g] by blast
  then have gt: "group_text g 2 = b" and cur: "float_of_group g 2 = Inr (fl (of_int (digits_val b)))"
    and rail: "text_of_group g 1 = Inr (group_text g 1)" and named: "group g 1 \<noteq> Some ''NC''"
    using nc by (simp_all add: group_text_def float_of_group_def text_of_group_def py_float_digits)
  have "0 \<le> digits_val b" using ab(3) by (simp add: digits_val_nonneg)
  then have "milli (fl (of_int (digits_val b))) = Inr (PFloat (fl (of_int (digits_val b) / 1000)))"
    using milli_exact n gt by blast
  moreover have "rail_key (group_text g 1) ''_watts'' \<noteq> rail_key (group_text g 1) ''_avg_watts''"
    by (simp add: rail_key_def)
  ultimately show ?thesis using step
    by (auto simp: power_step_def rail_values_def put_rail_def gt cur rail named
        res_simps dict_simps Let_def simp del: One_nat_def split: if_splits)
qed

lemma core_step_cases:
  assumes "core_step (i, c) (m, s, a) = Inr (m', s', a')"
  obtains "m' = dset m (core_key i ''status'') (PInt 0)" "s' = s" "a' = a"
  | "m' = m" "s' = s" "a' = a"
  | u f where "m' = dset (dset (dset m (core_key i ''usage_percent'') (PInt u))
        (core_key i ''freq_mhz'') (PInt f)) (core_key i ''status'') (PInt 1)"
      "s' = s + u" "a' = a + 1"
  using assms by (auto simp: core_step_def Let_def res_simps split: if_splits option.splits)

text \<open>The running total is the sum of the usages the active cores were exported with: it stays
  between the count times any bounds of them.\<close>

lemma core_fold_bounds:
  assumes "rfold core_step (zip [n..<n + length cs] cs) (m, s, a) = Inr (m', s', a')"
    and "\<forall>i. n \<le> i \<longrightarrow> dget m (core_key i ''usage_percent'') = None"
    and "\<forall>i u. dget m' (core_key i ''usage_percent'') = Some (PInt u) \<longrightarrow> lo \<le> u \<and> u \<le> hi"
  shows "lo * (a' - a) \<le> s' - s \<and> s' - s \<le> hi * (a' - a) \<and> a \<le> a'
    \<and> (\<forall>i < n. dget m' (core_key i ''usage_percent'') = dget m (core_key i ''usage_percent''))"
  using assms
proof (induction cs arbitrary: n m s a)
  case Nil
  then show ?case by simp
next
  case (Cons c cs)
  have z: "zip [n..<n + length (c # cs)] (c # cs) = (n, c) # zip [Suc n..<Suc n + length cs] cs"
    by (simp add: upt_rec)
  obtain m1 s1 a1 where 1: "core_step (n, c) (m, s, a) = Inr (m1, s1, a1)"
    and 2: "rfold core_step (zip [Suc n..<Suc n + length cs] cs) (m1, s1, a1) = Inr (m', s', a')"
    using Cons.prems(1) unfolding z by (auto simp: res_simps)
  have fresh: "\<forall>i. Suc n \<le> i \<longrightarrow> dget m1 (core_key i ''usage_percent'') = None"
    using 1 Cons.prems(2) by (cases rule: core_step_cases) (auto simp: dict_simps)
  note IH = Cons.IH [OF 2 fresh Cons.prems(3)]
  show ?case using 1
  proof (cases rule: core_step_cases)
    case (3 u f)
    then have "dget m1 (core_key n ''usage_percent'') = Some (PInt u)" by (simp add: dict_simps)
    with IH have "dget m' (core_key n ''usage_percent'') = Some (PInt u)" by simp
    with Cons.prems(3) have "lo \<le> u" "u \<le> hi" by auto
    with IH 3 show ?thesis by (auto simp: dict_simps algebra_simps)
  qed (use IH in \<open>auto simp: dict_simps\<close>)
qed

lemma average_between:
  fixes lo hi :: int
  assumes "lo * a \<le> s" "s \<le> hi * a" "0 < a" "\<bar>lo\<bar> \<le> 2 ^ 53" "\<bar>hi\<bar> \<le> 2 ^ 53"
  shows "\<exists>x. int_truediv s a = Inr x \<and> fbetween (of_int lo) (fround x 2) (of_int hi)"
proof -
  have "of_int (lo * a) \<le> (of_int s :: rat)" "(of_int s :: rat) \<le> of_int (hi * a)"
    using assms by (simp_all only: of_int_le_iff)
  then have "of_int lo \<le> (of_int s / of_int a :: rat)" "(of_int s / of_int a :: rat) \<le> of_int hi"
    using assms(3) by (simp_all add: field_simps)
  then have b: "fbetween (of_int lo) (fl (of_int s / of_int a)) (of_int hi)"
    using assms(4,5) by (rule fl_between_int)
  then have "int_truediv s a = Inr (fl (of_int s / of_int a))"
    using assms(3) by (auto simp: int_truediv_def fbetween_iff)
  with fround_between_int [OF b assms(4,5)] show ?thesis by blast
qed

text \<open>(C13) The exported CPU average lies between any bounds of the usages the same section exported for the
  cores that are on: it is an average of exactly those values, and neither the division nor the
  rounding leaves the interval.\<close>

theorem cpu_average_within_usages:
  assumes "cpu_section out m = Inr m'"
    and "\<forall>k \<in> set (dkeys m). \<not> startswith k ''jetson_cpu_''"
    and "dget m' ''jetson_cpu_avg_usage_percent'' = Some v"
    and "\<forall>i u. dget m' (core_key i ''usage_percent'') = Some (PInt u) \<longrightarrow> lo \<le> u \<and> u \<le> hi"
    and "\<bar>lo\<bar> \<le> 2 ^ 53" "\<bar>hi\<bar> \<le> 2 ^ 53"
  shows "\<exists>x. v = PFloat x \<and> fbetween (of_int lo) x (of_int hi)"
proof -
  have fresh: "dget m (core_key i f) = None" for i f
    using assms(2) by (auto simp: dget_None_iff core_key_def)
  have avg: "dget m ''jetson_cpu_avg_usage_percent'' = None"
    using assms(2) by (auto simp: dget_None_iff)
  obtain cores n s a where 1: "rfold core_step (enum (split_on (CHR '','') cores)) (m, 0, 0) = Inr (n, s, a)"
    and 2: "cpu_average (n, s, a) = Inr m'"
    using assms(1,3) avg by (auto simp: cpu_section_def on_search_def res_simps split: option.splits)
  have key: "core_key i f \<noteq> ''jetson_cpu_avg_usage_percent''"
    "core_key i f \<noteq> ''jetson_cpu_active_cores''" for i f by (simp_all add: core_key_def)
  have same: "dget m' (core_key i f) = dget n (core_key i f)" for i f
    using 2 key [of i f] by (auto simp: cpu_average_def res_simps dict_simps split: if_splits)
  have n: "dget n ''jetson_cpu_avg_usage_percent'' = None"
  proof -
    have "dget (fst (n, s, a)) ''jetson_cpu_avg_usage_percent'' = None"
      by (rule rfold_invariant [OF _ _ 1])
        (use avg in \<open>auto elim!: core_step_cases simp: dict_simps key key [symmetric]\<close>)
    then show ?thesis by simp
  qed
  have "lo * (a - 0) \<le> s - 0 \<and> s - 0 \<le> hi * (a - 0) \<and> 0 \<le> a"
    using core_fold_bounds [of 0 "split_on (CHR '','') cores" m 0 0 n s a lo hi] 1 fresh assms(4) same
    by (simp add: enum_def)
  then show ?thesis using 2 n assms(3) average_between [OF _ _ _ assms(5,6), of a s]
    by (auto simp: cpu_average_def res_simps dict_simps split: if_splits)
qed

section \<open>Xavier reads what Orin reads\<close>

lemma swap_searches:
  "rel_option (\<lambda>g h. group g 1 = group h 1 \<and> group g 2 = group h 2)
     (re_search swap_re out) (re_search swap_cached_re out)"
proof (rule re_search_related)
  fix s
  define qs q where "qs = [Lit ''SWAP'', spaces, digits_grp 1, Lit ''/'', digits_grp 2, Lit ''MB'']"
    and "q = cats [spaces, Lit ''(cached'', spaces, digits_grp 3, Lit ''MB)'']"
  have "rel_option (\<lambda>g h. \<forall>n. n \<notin> {3} \<longrightarrow> group g n = group h n)
      (re_match (cats qs) s) (re_match (cats (qs @ [Opt q])) s)"
    by (rule re_match_optional) (auto simp: qs_def q_def in_rx spaces_def digits_grp_def)
  moreover have "cats qs = swap_re" "cats (qs @ [Opt q]) = swap_cached_re"
    by (simp_all add: qs_def q_def swap_re_def swap_cached_re_def)
  ultimately show "rel_option (\<lambda>g h. group g 1 = group h 1 \<and> group g 2 = group h 2)
     (re_match swap_re s) (re_match swap_cached_re s)"
    by (auto elim!: option.rel_mono_strong)
qed

definition same_but :: "string \<Rightarrow> metrics \<Rightarrow> metrics \<Rightarrow> bool" where
  "same_but k m n = (\<forall>k'. k' \<noteq> k \<longrightarrow> dget m k' = dget n k')"

lemma group3_digits: "re_search swap_cached_re out = Some g \<Longrightarrow> has_group g 3 \<Longrightarrow> all_digits (group_text g 3)"
proof -
  assume "re_search swap_cached_re out = Some g" "has_group g 3"
  then have "matched_in swap_cached_re out g" "\<exists>w. group g 3 = Some w"
    using re_search_Some by (auto simp: has_group_def split: option.splits)
  then show ?thesis
    by (auto simp: matched_in_def swap_cached_re_def spaces_def digits_grp_def in_rx group_def group_text_def)
qed

lemma swap_sections:
  "rel_sum (=) (same_but ''jetson_swap_cached_mb'') (swap_section out m) (swap_cached_section out m)"
proof (cases "re_search swap_re out")
  case None
  then have "re_search swap_cached_re out = None" using swap_searches [of out] by simp
  with None show ?thesis
    by (simp add: swap_section_def swap_cached_section_def on_search_def same_but_def)
next
  case (Some g)
  then obtain h where h: "re_search swap_cached_re out = Some h"
    and same: "group g 1 = group h 1" "group g 2 = group h 2"
    using swap_searches [of out] by (auto simp: option_rel_Some1)
  have put: "put_swap g m = put_swap h m" unfolding put_swap_def float_of_group_def same ..
  show ?thesis
  proof (cases "put_swap h m")
    case (Inr n)
    then show ?thesis using Some h group3_digits [OF h]
      by (auto simp: swap_section_def swap_cached_section_def on_search_def put py_float_digits
          read_group has_group_takes_part same_but_def dict_simps)
  qed (simp add: swap_section_def swap_cached_section_def on_search_def put Some h)
qed

lemma overlays_same_but:
  assumes "overlays f" "same_but k m n"
  shows "rel_sum (=) (same_but k) (f m) (f n)"
proof (cases "f []")
  case (Inr d)
  then have "wf_dict d" using overlays_wf [OF assms(1) wf_dict_Nil] by blast
  with assms(2) have "same_but k (dupdate m d) (dupdate n d)"
    by (simp add: same_but_def dget_dupdate split: option.split)
  then show ?thesis
    by (simp add: overlaysD [OF assms(1), of m] overlaysD [OF assms(1), of n] Inr)
qed (simp add: overlaysD [OF assms(1), of m] overlaysD [OF assms(1), of n])

lemma run_sections_append: "run_sections (fs @ gs) out m = rbind (run_sections fs out m) (run_sections gs out)"
proof (induction fs arbitrary: m)
  case (Cons f fs)
  then show ?case by (cases "f out m") simp_all
qed simp

lemma run_sections_around: "run_sections (fs @ f # gs) out m
    = rbind (run_sections fs out m) (\<lambda>m. rbind (f out m) (run_sections gs out))"
  by (cases "run_sections fs out m") (simp_all add: run_sections_append)

text \<open>(C12) On every line the Xavier parser raises what the Orin parser raises and otherwise exports the
  same metrics, \<open>jetson_swap_cached_mb\<close> apart: the optional tail of its swap pattern does not
  change which text matches, and no later section reads what was written.\<close>

theorem xavier_parses_as_orin:
  "rel_sum (=) (same_but ''jetson_swap_cached_mb'')
     (orin_parse_all_metrics out) (xavier_parse_all_metrics out)"
proof -
  let ?pre = "[power_section, temp_section, ram_section]"
  let ?post = "[lfb_section, cpu_section, emc_section, gpu_bracket_section, vic_section, ape_section]"
  have post: "overlays (run_sections ?post out)"
    by (rule overlays_sections) (simp add: lfb_overlays cpu_overlays emc_overlays
        gpu_bracket_overlays vic_overlays ape_overlays)
  have "orin_parse_all_metrics out = run_sections (?pre @ swap_section # ?post) out []"
    "xavier_parse_all_metrics out = run_sections (?pre @ swap_cached_section # ?post) out []"
    by (simp_all only: orin_parse_all_metrics_def xavier_parse_all_metrics_def append_Cons append_Nil)
  then have "orin_parse_all_metrics out = rbind (run_sections ?pre out []) (\<lambda>m.
      rbind (swap_section out m) (run_sections ?post out))"
    "xavier_parse_all_metrics out = rbind (run_sections ?pre out []) (\<lambda>m.
      rbind (swap_cached_section out m) (run_sections ?post out))"
    by (simp_all only: run_sections_around)
  moreover have "rel_sum (=) (same_but ''jetson_swap_cached_mb'')
      (rbind (swap_section out m) (run_sections ?post out))
      (rbind (swap_cached_section out m) (run_sections ?post out))" for m
    using swap_sections [of out m] by (cases rule: rel_sum.cases) (simp_all add: overlays_same_but [OF post] del: run_sections.simps)
  ultimately show ?thesis by (cases "run_sections ?pre out []") (simp_all del: run_sections.simps)
qed


lemma failing_section:
  "f \<in> set fs \<Longrightarrow> (\<And>m. f out m = Inl e) \<Longrightarrow> \<not> returns (run_sections fs out m)"
proof (induction fs arbitrary: m)
  case (Cons h hs)
  then show ?case by (cases "h out m") auto
qed simp

lemma ram_groups:
  "re_search ram_re out = Some g \<Longrightarrow> all_digits (group_text g 1) \<and> all_digits (group_text g 2)"
  by (drule re_search_Some)
    (auto simp: matched_in_def ram_re_def spaces_def digits_grp_def in_rx group_def group_text_def)

lemma ram_section_eq:
  assumes g: "re_search ram_re out = Some g"
    and n: "digits_val (group_text g 1) \<le> 2 ^ 53" "digits_val (group_text g 2) \<le> 2 ^ 53"
  shows "ram_section out m = rmap (\<lambda>p. dset (dset (dset m
      ''jetson_ram_used_mb'' (PFloat (Fin (of_int (digits_val (group_text g 1))))))
      ''jetson_ram_total_mb'' (PFloat (Fin (of_int (digits_val (group_text g 2))))))
      ''jetson_ram_used_percent'' (PFloat p))
    (percent (Fin (of_int (digits_val (group_text g 1)))) (Fin (of_int (digits_val (group_text g 2)))))"
proof -
  have "0 \<le> digits_val (group_text g i)" if "i = 1 \<or> i = 2" for i
    using ram_groups [OF g] that digits_val_nonneg by auto
  with n have "fl (of_int (digits_val (group_text g i))) = Fin (of_int (digits_val (group_text g i)))"
    if "i = 1 \<or> i = 2" for i
    using that by (intro fl_of_int) auto
  then show ?thesis using g ram_groups [OF g]
    by (simp add: ram_section_def on_search_def py_float_digits group_reads)
qed

lemma ram_zero_total:
  assumes g: "re_search ram_re out = Some g" and z: "digits_val (group_text g 2) = 0"
  shows "ram_section out m = Inl ZeroDivisionErr"
proof -
  have "fl 0 = Fin 0" using fl_of_int [of 0] by simp
  then show ?thesis using ram_groups [OF g] z g
    by (simp add: ram_section_def on_search_def py_float_digits group_reads percent_def fdiv_def
        split: pyfloat.split)
qed

text \<open>(C14) A line whose RAM total is zero yields no metrics on any device: the division raises and takes
  the sections before and after it along.\<close>

theorem ram_zero_total_loses_the_line:
  assumes "re_search ram_re out = Some g" "digits_val (group_text g 2) = 0"
  shows "\<not> returns (parse_all_metrics model out)"
proof -
  note fails = failing_section [of ram_section, OF _ ram_zero_total [OF assms]]
  show ?thesis
    by (cases model) (auto simp: orin_parse_all_metrics_def orin_nano_parse_all_metrics_def
        xavier_parse_all_metrics_def nano_parse_all_metrics_def simp del: run_sections.simps
        dest!: fails [THEN notE, rotated])
qed

lemma percent_between:
  assumes "0 \<le> a" "a \<le> b" "0 < b"
  shows "\<exists>p. percent (Fin (of_int a)) (Fin (of_int b)) = Inr p \<and> fbetween 0 p 100"
proof -
  have "0 \<le> (of_int a / of_int b :: rat)" "of_int a / of_int b \<le> (1 :: rat)" using assms by simp_all
  then obtain q where q: "fl (of_int a / of_int b) = Fin q" "0 \<le> q" "q \<le> 1"
    using fl_between_int [of 0 "of_int a / of_int b" 1] by (auto simp: fbetween_iff)
  then have "fbetween (of_int 0) (fl (q * 100)) (of_int 100)"
    by (intro fl_between_int) simp_all
  then have "fbetween (of_int 0) (fround (fl (q * 100)) 2) (of_int 100)"
    by (rule fround_between_int) simp_all
  with q assms show ?thesis by (simp add: percent_def fdiv_def fmul_def)
qed

text \<open>(C17) The RAM percentage is between 0 and 100 whenever the line reports no more used than total.\<close>

theorem ram_percent_bounds:
  assumes "ram_section out m = Inr m'" "re_search ram_re out = Some g"
    and "digits_val (group_text g 1) \<le> digits_val (group_text g 2)" "digits_val (group_text g 2) \<le> 2 ^ 53"
  shows "\<exists>p. dget m' ''jetson_ram_used_percent'' = Some (PFloat p) \<and> fbetween 0 p 100"
proof -
  have "digits_val (group_text g 2) \<noteq> 0" using ram_zero_total [OF assms(2)] assms(1) by auto
  moreover have "0 \<le> digits_val (group_text g 1)" using ram_groups [OF assms(2)] digits_val_nonneg by simp
  ultimately obtain p where "percent (Fin (of_int (digits_val (group_text g 1))))
      (Fin (of_int (digits_val (group_text g 2)))) = Inr p" "fbetween 0 p 100"
    using percent_between [of "digits_val (group_text g 1)" "digits_val (group_text g 2)"] assms(3) by auto
  then show ?thesis
    using ram_section_eq [OF assms(2), of m] assms by (auto simp: dict_simps)
qed

section \<open>Names, numbers and exceptions\<close>

text \<open>(C11) On an ASCII line every parser exports valid Prometheus names in the \<open>jetson_\<close> namespace,
  each once, with a number as its value: what the exporter needs to make gauges of them.\<close>

theorem parsed_metrics_valid:
  assumes "parse_all_metrics model out = Inr m" "ascii out" "dget m k = Some v"
  shows "prom_name k \<and> startswith k ''jetson_'' \<and> is_number v \<and> wf_dict m"
  using device.entry [OF assms(1,3)] jetson_entry_name [OF assms(2)] device.keys_distinct [OF assms(1)]
  by (simp add: jetson_entry_def)

text \<open>(C16) No parser exports a temperature below -100: the reading of a disconnected sensor is
  dropped, also after rounding.\<close>

theorem temperatures_above_floor:
  assumes "parse_all_metrics model out = Inr m" "dget m k = Some v" "startswith k ''jetson_temp_''"
  shows "\<exists>t. v = PFloat t \<and> \<not> flt t (Fin (- 100))"
  using assms by (rule device.temperature_floor)

text \<open>(C18) A parse raises nothing but ValueError, ZeroDivisionError and OverflowError.\<close>

theorem parser_exceptions:
  assumes "parse_all_metrics model out = Inl e"
  shows "parse_exn e"
  using assms by (rule device.parse_exns)

section \<open>Witnesses\<close>

lemma small_line: "parse_all_metrics Orin ''A 5mW b@4C'' =
    Inr [(''jetson_power_a_watts'', PFloat (fl (5 / 1000))), (''jetson_temp_b_celsius'', PFloat (Fin 4))]"
  by code_simp

lemma small_line_ascii: "ascii ''A 5mW b@4C''"
  by code_simp

lemma small_line_facts:
  "dget [(''jetson_power_a_watts'', PFloat (fl (5 / 1000))), (''jetson_temp_b_celsius'', PFloat (Fin 4))]
    ''jetson_temp_b_celsius'' = Some (PFloat (Fin 4))"
  "startswith ''jetson_temp_b_celsius'' ''jetson_temp_''"
  by (simp_all add: dict_simps)

lemma parsed_metrics_valid_witness:
  "prom_name ''jetson_temp_b_celsius'' \<and> startswith ''jetson_temp_b_celsius'' ''jetson_''
    \<and> is_number (PFloat (Fin 4))"
  using parsed_metrics_valid [OF small_line small_line_ascii small_line_facts(1)] by simp

lemma temperatures_above_floor_witness: "\<exists>t. PFloat (Fin 4) = PFloat t \<and> \<not> flt t (Fin (- 100))"
  by (rule temperatures_above_floor [OF small_line small_line_facts])

lemma zero_total_line: "parse_all_metrics Nano ''RAM 1/0MB'' = Inl ZeroDivisionErr"
  by code_simp

lemma parser_exceptions_witness: "parse_exn ZeroDivisionErr"
  by (rule parser_exceptions [OF zero_total_line])

lemma zero_total_match: "re_search ram_re ''RAM 1/0MB'' = Some [(2, ''0''), (1, ''1'')]"
  by code_simp

lemma ram_zero_total_loses_the_line_witness: "\<not> returns (parse_all_metrics Xavier ''RAM 1/0MB'')"
proof -
  have "digits_val (group_text [(2, ''0''), (1, ''1'')] 2) = 0" by code_simp
  then show ?thesis by (rule ram_zero_total_loses_the_line [OF zero_total_match])
qed

lemma ram_percent_bounds_witness:
  "\<exists>m' p. ram_section ''RAM 1/4MB'' [] = Inr m'
    \<and> dget m' ''jetson_ram_used_percent'' = Some (PFloat p) \<and> fbetween 0 p 100"
proof -
  have r: "ram_section ''RAM 1/4MB'' [] = Inr [(''jetson_ram_used_mb'', PFloat (Fin 1)),
      (''jetson_ram_total_mb'', PFloat (Fin 4)), (''jetson_ram_used_percent'', PFloat (Fin 25))]"
    by code_simp
  have g: "re_search ram_re ''RAM 1/4MB'' = Some [(2, ''4''), (1, ''1'')]" by code_simp
  have n: "digits_val (group_text [(2, ''4''), (1, ''1'')] 1) = 1"
    "digits_val (group_text [(2, ''4''), (1, ''1'')] 2) = 4" by code_simp+
  show ?thesis using ram_percent_bounds [OF r g, unfolded n] r by simp
qed

lemma power_rail_exact_witness:
  "\<exists>m'. power_step [(2, ''5''), (1, ''A'')] [] = Inr m'
    \<and> dget m' ''jetson_power_a_watts'' = Some (PFloat (fl (5 / 1000)))"
proof -
  have g: "matched_in power_re ''A 5mW'' [(2, ''5''), (1, ''A'')]"
    by (rule re_search_Some) code_simp
  have s: "power_step [(2, ''5''), (1, ''A'')] [] = Inr [(''jetson_power_a_watts'', PFloat (fl (5 / 1000)))]"
    by code_simp
  have n: "digits_val (group_text [(2, ''5''), (1, ''A'')] 2) = 5"
    "group_text [(2, ''5''), (1, ''A'')] 1 = ''A''" "rail_key ''A'' ''_watts'' = ''jetson_power_a_watts''"
    by code_simp+
  show ?thesis using power_rail_exact [OF g _ _ s, unfolded n] s by simp
qed

lemma cpu_average_within_usages_witness:
  "\<exists>m' x. cpu_section ''CPU [7%@9,off]'' [] = Inr m'
    \<and> dget m' ''jetson_cpu_avg_usage_percent'' = Some (PFloat x) \<and> fbetween 7 x 7"
proof -
  define m' where "m' = [(core_key 0 ''usage_percent'', PInt 7), (core_key 0 ''freq_mhz'', PInt 9),
      (core_key 0 ''status'', PInt 1), (core_key 1 ''status'', PInt 0),
      (''jetson_cpu_avg_usage_percent'', PFloat (Fin 7)), (''jetson_cpu_active_cores'', PInt 1)]"
  have r: "cpu_section ''CPU [7%@9,off]'' [] = Inr m'" unfolding m'_def by code_simp
  have k: "core_key i f \<noteq> ''jetson_cpu_avg_usage_percent''" "core_key i f \<noteq> ''jetson_cpu_active_cores''" for i f
    by (simp_all add: core_key_def)
  have d: "dget m' ''jetson_cpu_avg_usage_percent'' = Some (PFloat (Fin 7))"
    using k k [symmetric] by (simp add: m'_def dict_simps)
  have "\<forall>i u. dget m' (core_key i ''usage_percent'') = Some (PInt u) \<longrightarrow> 7 \<le> u \<and> u \<le> 7"
    using k k [symmetric] by (auto simp: m'_def dict_simps split: if_splits)
  then show ?thesis using cpu_average_within_usages [OF r _ d, of 7 7] r d by simp
qed

end
