(* ===== verification/EdgeServer.thy ===== *)
theory EdgeServer
  imports PyVal
begin

text \<open>
  \<open>collectors/edge_server.py\<close>: the collector of x86 servers. The file system (sysfs and procfs)
  is a parameter, a record of the four questions the code asks of it, each of which may raise
  (\<open>Path.exists\<close> and \<open>Path.is_dir\<close> raise a PermissionError); the clock is a parameter of
  \<open>get_metrics\<close>. Discovery runs once, when the collector is made, and may raise; the operations
  of one collection write into one dictionary and keep the two delta states, which survive an
  exception raised after they were set.
\<close>

section \<open>Files\<close>

type_synonym path = "string list"

record filesystem =
  fs_exists :: "path \<Rightarrow> bool res"
  fs_is_dir :: "path \<Rightarrow> bool res"
  fs_iterdir :: "path \<Rightarrow> string list res"
  fs_read :: "path \<Rightarrow> string res"

text \<open>\<open>_read_file(path, default)\<close>; without a default it is \<open>fs_read\<close>.\<close>

definition read_or :: "filesystem \<Rightarrow> path \<Rightarrow> string \<Rightarrow> string" where
  "read_or fs p d = (case fs_read fs p of Inl e \<Rightarrow> d | Inr s \<Rightarrow> s)"

definition read_int :: "filesystem \<Rightarrow> path \<Rightarrow> int res" where
  "read_int fs p = rbind (fs_read fs p) (\<lambda>s. py_int_of_str (strip s))"

definition sorted_dir :: "filesystem \<Rightarrow> path \<Rightarrow> string list res" where
  "sorted_dir fs p = rmap sort (fs_iterdir fs p)"

definition rapl_base :: path where
  "rapl_base = [''sys'', ''devices'', ''virtual'', ''powercap'', ''intel-rapl'']"

definition hwmon_base :: path where
  "hwmon_base = [''sys'', ''class'', ''hwmon'']"

section \<open>State and discovery\<close>

record rapl_domain =
  dom_name :: string
  energy_file :: path
  max_range :: int

record edge_state =
  cpu_count :: nat
  rapl_domains :: "rapl_domain dict"
  temp_inputs :: "path dict"
  prev_rapl :: "(int \<times> pyfloat) dict"
  prev_cpu_times :: "(int \<times> int) dict"

text \<open>One directory with an \<open>energy_uj\<close> file: its name and range are read, with defaults.\<close>

definition rapl_entry :: "filesystem \<Rightarrow> path \<Rightarrow> rapl_domain res" where
  "rapl_entry fs p = rmap (\<lambda>r. \<lparr> dom_name = strip (read_or fs (p @ [''name'']) ''unknown''),
       energy_file = p @ [''energy_uj''], max_range = r \<rparr>)
     (py_int_of_str (strip (read_or fs (p @ [''max_energy_range_uj'']) ''0'')))"

definition rapl_sub_step :: "filesystem \<Rightarrow> path \<Rightarrow> string \<Rightarrow> rapl_domain dict \<Rightarrow> rapl_domain dict res" where
  "rapl_sub_step fs p sub doms =
     (if \<not> startswith sub ''intel-rapl:'' then Inr doms
      else rbind (fs_is_dir fs (p @ [sub])) (\<lambda>dir. if \<not> dir then Inr doms
      else rbind (fs_exists fs (p @ [sub, ''energy_uj''])) (\<lambda>readable. if \<not> readable then Inr doms
      else rmap (dset doms sub) (rapl_entry fs (p @ [sub])))))"

definition rapl_step :: "filesystem \<Rightarrow> string \<Rightarrow> rapl_domain dict \<Rightarrow> rapl_domain dict res" where
  "rapl_step fs entry doms = (let p = rapl_base @ [entry] in
     if \<not> startswith entry ''intel-rapl:'' then Inr doms
     else rbind (fs_exists fs (p @ [''energy_uj''])) (\<lambda>readable. if \<not> readable then Inr doms
     else rbind (rapl_entry fs p) (\<lambda>d. rbind (sorted_dir fs p) (\<lambda>subs.
       rfold (rapl_sub_step fs p) subs (dset doms entry d)))))"

definition discover_rapl_domains :: "filesystem \<Rightarrow> rapl_domain dict res" where
  "discover_rapl_domains fs = rbind (fs_exists fs rapl_base) (\<lambda>present.
     if \<not> present then Inr []
     else rbind (sorted_dir fs rapl_base) (\<lambda>es. rfold (rapl_step fs) es []))"

fun find_coretemp :: "filesystem \<Rightarrow> string list \<Rightarrow> path option res" where
  "find_coretemp fs [] = Inr None"
| "find_coretemp fs (e # es) = (let name_file = hwmon_base @ [e, ''name''] in
     rbind (fs_exists fs name_file) (\<lambda>present.
     if present \<and> strip (read_or fs name_file []) = ''coretemp''
     then Inr (Some (hwmon_base @ [e])) else find_coretemp fs es))"

definition discover_coretemp_hwmon :: "filesystem \<Rightarrow> path option res" where
  "discover_coretemp_hwmon fs = rbind (fs_exists fs hwmon_base) (\<lambda>present.
     if \<not> present then Inr None else rbind (sorted_dir fs hwmon_base) (find_coretemp fs))"

definition temp_input_step :: "filesystem \<Rightarrow> path \<Rightarrow> string \<Rightarrow> path dict \<Rightarrow> path dict" where
  "temp_input_step fs p f inputs =
     (if startswith f ''temp'' \<and> endswith f ''_input'' then
        let idx = replace (replace f ''temp'' []) ''_input'' [];
            label = strip (read_or fs (p @ [''temp'' @ idx @ ''_label'']) (''temp'' @ idx))
        in dset inputs label (p @ [f])
      else inputs)"

definition discover_temp_inputs :: "filesystem \<Rightarrow> path option \<Rightarrow> path dict res" where
  "discover_temp_inputs fs hwmon = (case hwmon of None \<Rightarrow> Inr []
     | Some p \<Rightarrow> rmap (\<lambda>files. fold (temp_input_step fs p) files []) (sorted_dir fs p))"

definition new_edge_collector :: "filesystem \<Rightarrow> nat \<Rightarrow> edge_state res" where
  "new_edge_collector fs cpus =
     rbind (discover_rapl_domains fs) (\<lambda>doms.
     rbind (discover_coretemp_hwmon fs) (\<lambda>hwmon.
     rmap (\<lambda>temps. \<lparr> cpu_count = cpus, rapl_domains = doms, temp_inputs = temps,
         prev_rapl = [], prev_cpu_times = [] \<rparr>)
       (discover_temp_inputs fs hwmon)))"

section \<open>Power\<close>

text \<open>The energy between two readings, with the counter's wraparound undone.\<close>

definition energy_delta :: "int \<Rightarrow> int \<Rightarrow> int \<Rightarrow> int" where
  "energy_delta max_energy prev cur =
     (let d = cur - prev in if d < 0 \<and> 0 < max_energy then d + max_energy else d)"

definition rapl_key :: "string \<Rightarrow> string" where
  "rapl_key name = ''server_power_'' @ name @ ''_watts''"

text \<open>\<open>(delta_energy / 1_000_000.0) / dt\<close>.\<close>

definition rapl_watts :: "int \<Rightarrow> pyfloat \<Rightarrow> pyfloat res" where
  "rapl_watts d dt = rbind (float_of_int d) (\<lambda>x. rbind (fdiv x (Fin 1000000)) (\<lambda>y. fdiv y dt))"

text \<open>One domain's reading: the \<open>try\<close> block. Raising leaves both dictionaries as they were.\<close>

definition rapl_read :: "filesystem \<Rightarrow> pyfloat \<Rightarrow> string \<Rightarrow> rapl_domain
    \<Rightarrow> metrics \<times> (int \<times> pyfloat) dict \<Rightarrow> (metrics \<times> (int \<times> pyfloat) dict) res" where
  "rapl_read fs now key dmn st = (let (m, prev) = st in
     rbind (read_int fs (energy_file dmn)) (\<lambda>energy.
     rmap (\<lambda>m1. (m1, dset prev key (energy, now)))
       (case dget prev key of
          None \<Rightarrow> Inr m
        | Some (prev_energy, prev_time) \<Rightarrow>
            (let dt = fsub now prev_time in
             if flt (Fin 0) dt then
               rmap (\<lambda>w. dset m (rapl_key (dom_name dmn)) (PFloat (fround w 3)))
                 (rapl_watts (energy_delta (max_range dmn) prev_energy energy) dt)
             else Inr m))))"

text \<open>\<open>try: ... except Exception: pass\<close> around a step of a loop.\<close>

definition attempt :: "('s \<Rightarrow> 's res) \<Rightarrow> 's \<Rightarrow> 's" where
  "attempt f s = (case f s of Inl e \<Rightarrow> s | Inr s' \<Rightarrow> s')"

definition collect_rapl :: "filesystem \<Rightarrow> pyfloat \<Rightarrow> edge_state \<Rightarrow> metrics \<Rightarrow> metrics \<times> edge_state" where
  "collect_rapl fs now s m =
     (let (m', prev) = fold (\<lambda>(key, dmn). attempt (rapl_read fs now key dmn))
        (rapl_domains s) (m, prev_rapl s)
      in (m', s\<lparr>prev_rapl := prev\<rparr>))"

section \<open>Temperatures\<close>

definition temp_name :: "string \<Rightarrow> string" where
  "temp_name label = (let n = replace (lower label) '' '' [] in
     if startswith n ''packageid'' then ''package'' else n)"

definition server_temp_key :: "string \<Rightarrow> string" where
  "server_temp_key label = ''server_temp_'' @ temp_name label @ ''_celsius''"

definition temp_read :: "filesystem \<Rightarrow> string \<Rightarrow> path \<Rightarrow> metrics \<Rightarrow> metrics res" where
  "temp_read fs label p m =
     rbind (read_int fs p) (\<lambda>raw. rbind (float_of_int raw) (\<lambda>x.
     rmap (\<lambda>c. dset m (server_temp_key label) (PFloat (fround c 2))) (fdiv x (Fin 1000))))"

definition collect_temperatures :: "filesystem \<Rightarrow> edge_state \<Rightarrow> metrics \<Rightarrow> metrics" where
  "collect_temperatures fs s m = fold (\<lambda>(label, p). attempt (temp_read fs label p)) (temp_inputs s) m"

section \<open>CPU\<close>

definition proc_stat :: path where
  "proc_stat = [''proc'', ''stat'']"

text \<open>One line of \<open>/proc/stat\<close>: idle (with iowait) and total time of a CPU.\<close>

definition stat_line :: "string \<Rightarrow> (int \<times> int) dict \<Rightarrow> (int \<times> int) dict res" where
  "stat_line line acc =
     (if \<not> startswith line ''cpu'' then Inr acc
      else case split_ws line of
        [] \<Rightarrow> Inr acc
      | cpu_id # columns \<Rightarrow>
          rmap (\<lambda>values. if length values < 4 then acc
              else dset acc cpu_id
                (values ! 3 + (if 4 < length values then values ! 4 else 0), sum_list values))
            (rmapM py_int_of_str columns))"

definition cpu_usage_key :: "string \<Rightarrow> string" where
  "cpu_usage_key cpu_id = (if cpu_id = ''cpu'' then ''server_cpu_avg_usage_percent''
     else ''server_cpu_core'' @ replace cpu_id ''cpu'' [] @ ''_usage_percent'')"

definition usage_step :: "(int \<times> int) dict \<Rightarrow> string \<times> int \<times> int \<Rightarrow> metrics \<Rightarrow> metrics res" where
  "usage_step prev entry m = (let (cpu_id, idle, tot) = entry in
     case dget prev cpu_id of
       None \<Rightarrow> Inr m
     | Some (prev_idle, prev_tot) \<Rightarrow>
         (let d_total = tot - prev_tot; d_idle = idle - prev_idle in
          if 0 < d_total then
            rmap (\<lambda>q. dset m (cpu_usage_key cpu_id) (PFloat (fround (fmul q (Fin 100)) 2)))
              (int_truediv (d_total - d_idle) d_total)
          else Inr m))"

text \<open>A malformed number in \<open>/proc/stat\<close> or an overflow leaves \<open>get_metrics\<close>, with the CPU
  state as it was.\<close>

definition collect_cpu_usage :: "filesystem \<Rightarrow> edge_state \<Rightarrow> metrics \<Rightarrow> (metrics \<times> edge_state) res" where
  "collect_cpu_usage fs s m = (case fs_read fs proc_stat of
       Inl e \<Rightarrow> Inr (m, s)
     | Inr content \<Rightarrow>
         rbind (rfold stat_line (splitlines content) []) (\<lambda>acc.
         rmap (\<lambda>m'. (m', s\<lparr>prev_cpu_times := acc\<rparr>))
           (rfold (usage_step (prev_cpu_times s)) acc m)))"

definition freq_file :: "nat \<Rightarrow> path" where
  "freq_file i = [''sys'', ''devices'', ''system'', ''cpu'', ''cpu'' @ str_nat i, ''cpufreq'',
     ''scaling_cur_freq'']"

definition freq_read :: "filesystem \<Rightarrow> nat \<Rightarrow> metrics \<Rightarrow> metrics res" where
  "freq_read fs i m =
     rbind (read_int fs (freq_file i)) (\<lambda>khz. rbind (float_of_int khz) (\<lambda>x.
     rmap (\<lambda>q. dset m (''server_cpu_core'' @ str_nat i @ ''_freq_mhz'') (PFloat (fround q 1)))
       (fdiv x (Fin 1000))))"

definition collect_cpu_freq :: "filesystem \<Rightarrow> edge_state \<Rightarrow> metrics \<Rightarrow> metrics" where
  "collect_cpu_freq fs s m = fold (\<lambda>i. attempt (freq_read fs i)) [0..<cpu_count s] m"

section \<open>Memory\<close>

definition meminfo_line :: "string \<Rightarrow> int dict \<Rightarrow> int dict res" where
  "meminfo_line line mem = (case split_ws line of
       key # val # _ \<Rightarrow> rmap (dset mem (rstrip_of (\<lambda>c. c = CHR '':'') key)) (py_int_of_str val)
     | _ \<Rightarrow> Inr mem)"

text \<open>The four memory metrics, from the two totals in kB.\<close>

definition put_memory :: "int \<Rightarrow> int \<Rightarrow> metrics \<Rightarrow> metrics res" where
  "put_memory total_kb available_kb m =
     rbind (float_of_int total_kb) (\<lambda>t. rbind (fdiv t (Fin 1024)) (\<lambda>total_mb.
     rbind (float_of_int available_kb) (\<lambda>a. rbind (fdiv a (Fin 1024)) (\<lambda>available_mb.
     let used_mb = fsub total_mb available_mb in
     rmap (\<lambda>q. dset (dset (dset (dset m
           ''server_ram_total_mb'' (PFloat (fround total_mb 1)))
           ''server_ram_used_mb'' (PFloat (fround used_mb 1)))
           ''server_ram_available_mb'' (PFloat (fround available_mb 1)))
           ''server_ram_used_percent'' (PFloat (fround (fmul q (Fin 100)) 2)))
       (fdiv used_mb total_mb)))))"

definition collect_memory :: "filesystem \<Rightarrow> metrics \<Rightarrow> metrics res" where
  "collect_memory fs m = (let host = [''host'', ''proc'', ''meminfo''] in
     rbind (fs_exists fs host) (\<lambda>mounted.
     case fs_read fs (if mounted then host else [''proc'', ''meminfo'']) of
       Inl e \<Rightarrow> Inr m
     | Inr content \<Rightarrow>
         rbind (rfold meminfo_line (splitlines content) []) (\<lambda>mem.
         let total_kb = dget_or mem ''MemTotal'' 0 in
         if 0 < total_kb then put_memory total_kb (dget_or mem ''MemAvailable'' 0) m else Inr m)))"

section \<open>One collection\<close>

definition edge_get_metrics :: "filesystem \<Rightarrow> pyfloat \<Rightarrow> edge_state \<Rightarrow> metrics res \<times> edge_state" where
  "edge_get_metrics fs now s =
     (let (m1, s1) = collect_rapl fs now s [];
          m2 = collect_temperatures fs s1 m1
      in case collect_cpu_usage fs s1 m2 of
           Inl e \<Rightarrow> (Inl e, s1)
         | Inr (m3, s2) \<Rightarrow> (collect_memory fs (collect_cpu_freq fs s2 m3), s2))"

definition edge_metric_names :: "string list" where
  "edge_metric_names = [''server_metric_discovered_on_first_run'']"

end
