(* ===== verification/Http.thy ===== *)
theory Http
  imports PyVal
begin

text \<open>
  What the code sees of a request made with the \<open>requests\<close> library: it times out, cannot
  connect, fails in another way, or answers with a status and a body. The body is given as the
  JSON value it parses to, or none when it is not JSON; \<open>raise_for_status\<close> raises on 4xx and 5xx,
  \<open>ok\<close> is its negation.
\<close>

datatype http_result =
    HttpTimeout
  | HttpConnectionError
  | HttpFailure exn
  | HttpResponse nat "pyval option"

definition http_ok :: "nat \<Rightarrow> bool" where
  "http_ok status = (\<not> (400 \<le> status \<and> status < 600))"

text \<open>\<open>requests.get(...); raise_for_status(); json()\<close>: the errors the code tells apart.\<close>

datatype fetch_error = Timeout | ConnectionError | HTTPError nat | OtherError

type_synonym fetch = "fetch_error + pyval"

definition fetch_json :: "http_result \<Rightarrow> fetch" where
  "fetch_json r = (case r of
      HttpTimeout \<Rightarrow> Inl Timeout
    | HttpConnectionError \<Rightarrow> Inl ConnectionError
    | HttpFailure e \<Rightarrow> Inl OtherError
    | HttpResponse status body \<Rightarrow>
        if \<not> http_ok status then Inl (HTTPError status)
        else (case body of None \<Rightarrow> Inl OtherError | Some v \<Rightarrow> Inr v))"

lemma fetch_json_Inr_iff:
  "fetch_json r = Inr v \<longleftrightarrow> (\<exists>status. r = HttpResponse status (Some v) \<and> http_ok status)"
  by (auto simp: fetch_json_def split: http_result.splits option.splits if_splits)

end
