(* ===== verification/Collectors.thy ===== *)
theory Collectors
  imports TegrastatsSpec EdgeServer Http
begin

text \<open>
  The collectors package: the abstract base (\<open>base.py\<close>), the factory (\<open>__init__.py\<close>), the
  tegrastats process of the Jetson collectors (\<open>jetson.py\<close>), the Shelly client
  (\<open>shelly.py\<close>), the stub (\<open>stub.py\<close>) and the three collectors not implemented yet. What a
  collector reads from outside is the record \<open>world\<close>: the files, the clocks, the behaviour of
  the tegrastats process, the answer of the Shelly server, and \<open>math.sin\<close>.
\<close>

section \<open>The tegrastats process\<close>

text \<open>The operations on the process, in the order they are made.\<close>

datatype pevent = Spawn "string list" | CloseStdout | CloseStderr | Terminate | WaitSecond | Kill | WaitExit

text \<open>\<open>Popen\<close> does not find the command, fails, or starts the process, whose first line (or
  the exception of \<open>readline\<close>) is given.\<close>

datatype launch = PopenNotFound | PopenFails exn | PopenStarts "string res"

record tegra_process =
  launched :: launch
  op_raises :: "pevent \<Rightarrow> bool"
  exits_in_time :: bool

definition tegrastats_command :: "bool \<Rightarrow> string list" where
  "tegrastats_command as_root =
     (if as_root then [] else [''sudo'']) @ [''tegrastats'', ''--interval'', ''100'']"

text \<open>A sequence of operations, left at the first one that raises.\<close>

fun perform :: "(pevent \<Rightarrow> bool) \<Rightarrow> pevent list \<Rightarrow> pevent list" where
  "perform raises [] = []"
| "perform raises (e # es) = e # (if raises e then [] else perform raises es)"

text \<open>The \<open>finally\<close> block: close both pipes, terminate, wait one second, else kill and wait.\<close>

definition cleanup :: "tegra_process \<Rightarrow> pevent list" where
  "cleanup p = perform (op_raises p)
     ([CloseStdout, CloseStderr, Terminate, WaitSecond]
      @ (if exits_in_time p then [] else [Kill, WaitExit]))"

definition read_and_parse :: "jetson_model \<Rightarrow> string res \<Rightarrow> metrics res" where
  "read_and_parse model line = rbind line (\<lambda>s. let output = strip s in
     if output = [] then Inl (RuntimeErr ''tegrastats returned empty output'')
     else parse_all_metrics model output)"

text \<open>\<open>JetsonCollector.get_metrics\<close>: the result, the cached metric names of the class, and the
  operations made on the process.\<close>

definition jetson_get_metrics ::
    "jetson_model \<Rightarrow> bool \<Rightarrow> tegra_process \<Rightarrow> string list \<Rightarrow> metrics res \<times> string list \<times> pevent list" where
  "jetson_get_metrics model as_root p cached = (case launched p of
      PopenNotFound \<Rightarrow> (Inl (RuntimeErr ''tegrastats not found''), cached, [])
    | PopenFails e \<Rightarrow> (Inl e, cached, [])
    | PopenStarts line \<Rightarrow>
        (let r = read_and_parse model line in
         (r, case r of Inl e \<Rightarrow> cached | Inr m \<Rightarrow> sort (dkeys m),
          Spawn (tegrastats_command as_root) # cleanup p)))"

definition jetson_metric_names :: "string list \<Rightarrow> string list" where
  "jetson_metric_names cached =
     (if cached \<noteq> [] then cached else [''jetson_metric_discovered_on_first_run''])"

section \<open>The Shelly client\<close>

text \<open>\<open>data.get("metrics", {})\<close> where the body is a JSON object; every failure and every empty
  answer is the empty dictionary.\<close>

definition shelly_get_metrics :: "http_result \<Rightarrow> pyval" where
  "shelly_get_metrics r = (case fetch_json r of
      Inl e \<Rightarrow> PDict []
    | Inr data \<Rightarrow> (case py_get data ''metrics'' (PDict []) of
        Inl e \<Rightarrow> PDict []
      | Inr m \<Rightarrow> if truthy m then m else PDict []))"

definition shelly_server_url :: "pyval \<Rightarrow> pyval res" where
  "shelly_server_url config = rbind (py_get config ''shelly'' (PDict [])) (\<lambda>shelly_config.
     py_get shelly_config ''server_url'' (PStr ''http://localhost:8766''))"

definition shelly_metric_names :: "string list" where
  "shelly_metric_names = [''power_total_watts'', ''power_voltage_volts'', ''power_current_amps'']"

section \<open>The stub\<close>

definition METRICS :: "(string \<times> pyfloat) list" where
  "METRICS = [
     (''jetson_power_vdd_gpu_soc_watts'', fl (32 / 10)),
     (''jetson_power_vdd_cpu_cv_watts'', fl (41 / 10)),
     (''jetson_power_vddq_vdd2_1v8ao_watts'', fl (15 / 10)),
     (''jetson_power_vin_sys_5v0_watts'', fl (128 / 10)),
     (''jetson_temp_cpu_celsius'', fl 42),
     (''jetson_temp_gpu_celsius'', fl (405 / 10)),
     (''jetson_temp_soc0_celsius'', fl 39),
     (''jetson_temp_soc1_celsius'', fl (385 / 10)),
     (''jetson_temp_tj_celsius'', fl 43),
     (''jetson_gpu_utilization_percent'', fl 25),
     (''jetson_cpu_utilization_percent'', fl 30),
     (''jetson_ram_used_mb'', fl 5848),
     (''jetson_ram_total_mb'', fl 62801),
     (''shelly_power_watts'', fl 85),
     (''shelly_voltage_volts'', fl (2205 / 10)),
     (''shelly_current_amps'', fl (39 / 100)),
     (''shelly_energy_wh'', fl 1250)]"

definition stub_metric_names :: "string list" where
  "stub_metric_names = map fst METRICS"

record stub_state =
  stub_start :: pyfloat
  amplitude :: pyval
  period :: pyval

definition new_stub :: "pyfloat \<Rightarrow> pyval \<Rightarrow> stub_state res" where
  "new_stub wall config = rbind (py_get config ''stub_config'' (PDict [])) (\<lambda>stub_cfg.
     rbind (py_get stub_cfg ''amplitude'' (PFloat (fl (1 / 10)))) (\<lambda>a.
     rmap (\<lambda>p. \<lparr> stub_start = wall, amplitude = a, period = p \<rparr>)
       (py_get stub_cfg ''period'' (PInt 60))))"

text \<open>A float combined with a value of the configuration: a number is converted.\<close>

definition operand :: "pyval \<Rightarrow> pyfloat res" where
  "operand v = (case v of
      PBool b \<Rightarrow> Inr (Fin (if b then 1 else 0))
    | PInt n \<Rightarrow> float_of_int n
    | PFloat x \<Rightarrow> Inr x
    | _ \<Rightarrow> Inl TypeErr)"

text \<open>\<open>math.pi\<close>, and the values of one collection; \<open>sine\<close> is \<open>math.sin\<close>.\<close>

definition math_pi :: pyfloat where
  "math_pi = Fin (884279719003555 / 281474976710656)"

definition stub_wave :: "(pyfloat \<Rightarrow> pyfloat res) \<Rightarrow> pyfloat \<Rightarrow> stub_state \<Rightarrow> pyfloat res" where
  "stub_wave sine wall s =
     rbind (operand (period s)) (\<lambda>p.
     rbind (fdiv (fmul (fmul (Fin 2) math_pi) (fsub wall (stub_start s))) p) (\<lambda>angle.
     rbind (sine angle) (\<lambda>y. rmap (fmul y) (operand (amplitude s)))))"

definition stub_get_metrics :: "(pyfloat \<Rightarrow> pyfloat res) \<Rightarrow> pyfloat \<Rightarrow> stub_state \<Rightarrow> metrics res" where
  "stub_get_metrics sine wall s = rmap (\<lambda>wave.
       map (\<lambda>(k, v). (k, PFloat (fround (fmul v (fadd (Fin 1) wave)) 4))) METRICS)
     (stub_wave sine wall s)"

section \<open>The collectors not implemented yet\<close>

definition raspberry_pi_get_metrics :: "metrics res" where
  "raspberry_pi_get_metrics = Inl (NotImplementedErr ''RaspberryPi collector not implemented yet. Need to implement INA260 I2C sensor reading.'')"

definition raspberry_pi_metric_names :: "string list" where
  "raspberry_pi_metric_names = [''power_total_watts'']"

definition orange_pi_get_metrics :: "metrics res" where
  "orange_pi_get_metrics = Inl (NotImplementedErr ''OrangePi collector not implemented yet. Need to implement sysfs or sensor reading.'')"

definition orange_pi_metric_names :: "string list" where
  "orange_pi_metric_names = [''power_total_watts'']"

definition lattepanda_get_metrics :: "metrics res" where
  "lattepanda_get_metrics = Inl (NotImplementedErr ''LattePanda collector not implemented yet. Need to implement RAPL (Intel RAPL) reading.'')"

definition lattepanda_metric_names :: "string list" where
  "lattepanda_metric_names = [''power_total_watts'', ''power_package_watts'', ''power_dram_watts'']"

section \<open>Collector objects and the factory\<close>

datatype collector =
    JetsonCollector jetson_model
  | RaspberryPiCollector
  | OrangePiCollector
  | LattePandaCollector
  | EdgeServerCollector edge_state
  | ShellyCollector pyval
  | StubCollector stub_state

text \<open>What the collectors see of the machine at one moment.\<close>

record world =
  files :: filesystem
  os_cpu_count :: nat
  monotonic :: pyfloat
  wall_time :: pyfloat
  is_root :: bool
  tegrastats :: tegra_process
  http_get :: "pyval \<Rightarrow> http_result"
  math_sin :: "pyfloat \<Rightarrow> pyfloat res"

definition unsupported :: "string \<Rightarrow> exn" where
  "unsupported t = ValueError (''Unsupported device type: '' @ t @ ''. Supported types: jetson_orin, jetson_orin_nano, jetson_xavier, jetson_nano, raspberry_pi, orange_pi, lattepanda, edge_server, shelly, stub'')"

text \<open>\<open>get_collector\<close>: the type is lower-cased, and only a string can be.\<close>

definition get_collector :: "world \<Rightarrow> pyval \<Rightarrow> pyval \<Rightarrow> collector res" where
  "get_collector w device_type config = (case device_type of
      PStr s \<Rightarrow> (let t = lower s in
        if t = ''jetson_orin'' then Inr (JetsonCollector Orin)
        else if t = ''jetson_orin_nano'' \<or> t = ''orin_nano'' then Inr (JetsonCollector OrinNano)
        else if t = ''jetson_xavier'' then Inr (JetsonCollector Xavier)
        else if t = ''jetson_nano'' then Inr (JetsonCollector Nano)
        else if t = ''jetson'' then Inr (JetsonCollector Orin)
        else if t = ''raspberry_pi'' then Inr RaspberryPiCollector
        else if t = ''orange_pi'' then Inr OrangePiCollector
        else if t = ''lattepanda'' then Inr LattePandaCollector
        else if t = ''edge_server'' then
          rmap EdgeServerCollector (new_edge_collector (files w) (os_cpu_count w))
        else if t = ''shelly'' then rmap ShellyCollector (shelly_server_url config)
        else if t = ''stub'' then rmap StubCollector (new_stub (wall_time w) config)
        else Inl (unsupported t))
    | _ \<Rightarrow> Inl AttributeErr)"

text \<open>\<open>collector.get_metrics()\<close>; the edge server's object keeps its delta state.\<close>

definition collector_get_metrics :: "world \<Rightarrow> collector \<Rightarrow> pyval res \<times> collector" where
  "collector_get_metrics w c = (case c of
      JetsonCollector model \<Rightarrow> (rmap PDict (fst (jetson_get_metrics model (is_root w) (tegrastats w) [])), c)
    | RaspberryPiCollector \<Rightarrow> (rmap PDict raspberry_pi_get_metrics, c)
    | OrangePiCollector \<Rightarrow> (rmap PDict orange_pi_get_metrics, c)
    | LattePandaCollector \<Rightarrow> (rmap PDict lattepanda_get_metrics, c)
    | EdgeServerCollector s \<Rightarrow>
        (let (r, s') = edge_get_metrics (files w) (monotonic w) s in (rmap PDict r, EdgeServerCollector s'))
    | ShellyCollector url \<Rightarrow> (Inr (shelly_get_metrics (http_get w url)), c)
    | StubCollector s \<Rightarrow> (rmap PDict (stub_get_metrics (math_sin w) (wall_time w) s), c))"

text \<open>\<open>BaseCollector.safe_get_metrics\<close>.\<close>

definition safe_get_metrics :: "world \<Rightarrow> collector \<Rightarrow> pyval \<times> collector" where
  "safe_get_metrics w c = (let (r, c') = collector_get_metrics w c in
     (case r of Inl e \<Rightarrow> PDict [] | Inr m \<Rightarrow> m, c'))"

end
