(* ===== verification/EdgeServerProps.thy ===== *)
theory EdgeServerProps
  imports EdgeServer MetricSource
begin

text \<open>
  The edge server collector: names and numbers, the power readings across a counter wrap, the
  bounds of the percentages, what a failing file leaves untouched.
\<close>

section \<open>Names and numbers\<close>

abbreviation server_entry :: "string \<Rightarrow> pyval \<Rightarrow> bool" where
  "server_entry \<equiv> source_entry ''server_''"

lemma server_entryI: "startswith k ''server_'' \<Longrightarrow> is_number v \<Longrightarrow> server_entry k v"
  by (simp add: source_entry_def)

lemma attempt_invariant: "P s \<Longrightarrow> (\<And>s'. f s = Inr s' \<Longrightarrow> P s') \<Longrightarrow> P (attempt f s)"
  by (cases "f s") (auto simp: attempt_def)

lemma fold_invariant_on:
  assumes "P s" "\<And>x s. x \<in> set xs \<Longrightarrow> P s \<Longrightarrow> P (f x s)"
  shows "P (fold f xs s)"
  using assms by (induction xs arbitrary: s) auto

lemma rapl_read_entries:
  "rapl_read fs now key d (m, prev) = Inr (m', prev') \<Longrightarrow> all_entries server_entry m
    \<Longrightarrow> all_entries server_entry m'"
  by (cases "dget prev key")
    (auto simp: rapl_read_def rapl_key_def res_simps Let_def
      intro!: all_entries_dset server_entryI split: if_splits)

lemma collect_rapl_entries:
  assumes "all_entries server_entry m"
  shows "all_entries server_entry (fst (collect_rapl fs now s m))"
proof -
  have "all_entries server_entry (fst (fold (\<lambda>(key, dmn). attempt (rapl_read fs now key dmn))
      (rapl_domains s) (m, prev_rapl s)))"
    by (rule fold_invariant_on [where P = "\<lambda>st. all_entries server_entry (fst st)"])
      (auto simp: assms intro!: attempt_invariant [where P = "\<lambda>st. all_entries server_entry (fst st)"]
        dest: rapl_read_entries)
  then show ?thesis by (simp add: collect_rapl_def split_def Let_def)
qed

lemma collect_temperatures_entries:
  "all_entries server_entry m \<Longrightarrow> all_entries server_entry (collect_temperatures fs s m)"
  unfolding collect_temperatures_def
  by (rule fold_invariant_on)
    (auto intro!: attempt_invariant [where P = "all_entries server_entry"] all_entries_dset server_entryI
      simp: temp_read_def server_temp_key_def res_simps)

lemma collect_cpu_usage_entries:
  assumes "collect_cpu_usage fs s m = Inr (m', s')" "all_entries server_entry m"
  shows "all_entries server_entry m'"
proof (cases "fs_read fs proc_stat")
  case (Inr content)
  with assms(1) obtain tms where "rfold (usage_step (prev_cpu_times s)) tms m = Inr m'"
    by (auto simp: collect_cpu_usage_def res_simps)
  then show ?thesis
    by (rule rfold_invariant [where P = "all_entries server_entry", rotated 2])
      (auto simp: assms usage_step_def cpu_usage_key_def res_simps Let_def
        intro!: all_entries_dset server_entryI split: option.splits if_splits)
qed (use assms in \<open>simp add: collect_cpu_usage_def\<close>)

lemma collect_cpu_freq_entries:
  "all_entries server_entry m \<Longrightarrow> all_entries server_entry (collect_cpu_freq fs s m)"
  unfolding collect_cpu_freq_def
  by (rule fold_invariant_on) (auto intro!: attempt_invariant [where P = "all_entries server_entry"] all_entries_dset server_entryI
      simp: freq_read_def res_simps)

lemma put_memory_entries:
  "put_memory t a m = Inr m' \<Longrightarrow> all_entries server_entry m \<Longrightarrow> all_entries server_entry m'"
  by (auto simp: put_memory_def res_simps Let_def intro!: all_entries_dset server_entryI)

lemma collect_memory_entries:
  assumes "collect_memory fs m = Inr m'" "all_entries server_entry m"
  shows "all_entries server_entry m'"
proof -
  from assms(1) obtain p where "(case fs_read fs p of Inl e \<Rightarrow> Inr m
     | Inr content \<Rightarrow> rbind (rfold meminfo_line (splitlines content) []) (\<lambda>mem.
         let total_kb = dget_or mem ''MemTotal'' 0 in
         if 0 < total_kb then put_memory total_kb (dget_or mem ''MemAvailable'' 0) m else Inr m)) = Inr m'"
    by (auto simp: collect_memory_def Let_def rbind_Inr_iff)
  then show ?thesis using assms(2)
    by (auto simp: res_simps Let_def dest: put_memory_entries split: sum.splits if_splits)
qed

interpretation edge: metric_source "\<lambda>(fs, now, s). fst (edge_get_metrics fs now s)" "''server_''"
proof
  fix a m
  assume *: "(\<lambda>(fs, now, s). fst (edge_get_metrics fs now s)) a = Inr m"
  obtain fs now s where a: "a = (fs, now, s)" by (cases a)
  obtain m1 s1 where 1: "collect_rapl fs now s [] = (m1, s1)" by fastforce
  have e1: "all_entries server_entry m1" using collect_rapl_entries [of "[]" fs now s] 1 by simp
  from * obtain m3 s2 where 2: "collect_cpu_usage fs s1 (collect_temperatures fs s1 m1) = Inr (m3, s2)"
    and 3: "collect_memory fs (collect_cpu_freq fs s2 m3) = Inr m"
    by (auto simp: a 1 edge_get_metrics_def split: sum.splits)
  show "all_entries server_entry m"
    by (rule collect_memory_entries [OF 3 collect_cpu_freq_entries [OF
        collect_cpu_usage_entries [OF 2 collect_temperatures_entries [OF e1]]]])
qed

section \<open>Power\<close>

lemma mod_difference:
  fixes a u r :: int
  assumes "0 < r" "0 \<le> u" "u < r"
  shows "energy_delta r (a mod r) ((a + u) mod r) = u"
proof (cases "a mod r + u < r")
  case True
  have "(a + u) mod r = (a mod r + u) mod r" by (simp add: mod_add_left_eq)
  with True assms have "(a + u) mod r = a mod r + u" by (simp add: mod_pos_pos_trivial)
  with assms show ?thesis by (simp add: energy_delta_def)
next
  case False
  have "a mod r < r" using assms by simp
  have "(a mod r + u - r) mod r = (a mod r + u) mod r" by (rule minus_mod_self2)
  then have "(a + u) mod r = (a mod r + u - r) mod r" by (simp add: mod_add_left_eq)
  also have "\<dots> = a mod r + u - r"
    using False assms \<open>a mod r < r\<close> by (intro mod_pos_pos_trivial) auto
  finally have "(a + u) mod r = a mod r + u - r" .
  with assms \<open>a mod r < r\<close> show ?thesis by (simp add: energy_delta_def Let_def)
qed

text \<open>(C19) A domain whose counter wraps between two collections exports the power of the energy really used:
  with the counter showing the energy consumed modulo its range, and less than the range used in
  between, the exported watts are those of the used energy over the elapsed time.\<close>

theorem rapl_power_across_wrap:
  assumes "read_int fs (energy_file d) = Inr ((consumed + used) mod max_range d)"
    and "0 < max_range d" "0 \<le> used" "used < max_range d"
    and "dget prev key = Some (consumed mod max_range d, t0)" "flt (Fin 0) (fsub now t0)"
    and "rapl_watts used (fsub now t0) = Inr w"
  shows "rapl_read fs now key d (m, prev) = Inr (dset m (rapl_key (dom_name d)) (PFloat (fround w 3)),
    dset prev key ((consumed + used) mod max_range d, now))"
  using assms by (simp add: rapl_read_def mod_difference)

text \<open>\<open>x < 0\<close> is false of a float: zero, positive, plus infinity or NaN.\<close>

lemma fl_nonneg: "0 \<le> x \<Longrightarrow> \<not> flt (fl x) (Fin 0)"
  using rnd_nonneg [of x] by (auto simp: fl_def Let_def flt_def below_limit_iff)

lemma fdiv_nonneg:
  assumes "\<not> flt x (Fin 0)" "flt (Fin 0) y" "fdiv x y = Inr z"
  shows "\<not> flt z (Fin 0)"
proof (cases x)
  case (Fin a)
  then have a: "0 \<le> a" using assms(1) by (simp add: flt_def)
  show ?thesis
  proof (cases y)
    case (Fin b)
    with assms a \<open>x = Fin a\<close> have "z = fl (a / b)" "0 \<le> a / b"
      by (auto simp: fdiv_def flt_def split: if_splits)
    then show ?thesis using fl_nonneg by simp
  qed (use assms \<open>x = Fin a\<close> in \<open>auto simp: fdiv_def flt_def\<close>)
qed (use assms in \<open>auto simp: fdiv_def flt_def split: pyfloat.splits if_splits\<close>)

lemma fround_nonneg: "\<not> flt x (Fin 0) \<Longrightarrow> \<not> flt (fround x n) (Fin 0)"
proof (cases x)
  case (Fin a)
  assume "\<not> flt x (Fin 0)"
  then have "of_int 0 \<le> a * 10 ^ n" using Fin by (simp add: flt_def)
  then have "0 \<le> rhe (a * 10 ^ n)" by (rule of_int_le_rhe)
  then show ?thesis using Fin fl_nonneg [of "of_int (rhe (a * 10 ^ n)) / 10 ^ n"] by (simp add: fround_def)
qed (simp_all add: fround_def)

lemma float_of_int_nonneg: "0 \<le> n \<Longrightarrow> float_of_int n = Inr x \<Longrightarrow> \<not> flt x (Fin 0)"
  using fl_nonneg [of "of_int n"] by (auto simp: float_of_int_def split: pyfloat.splits)

lemma rapl_watts_nonneg:
  assumes "rapl_watts n dt = Inr w" "0 \<le> n" "flt (Fin 0) dt"
  shows "\<not> flt w (Fin 0)"
proof -
  obtain x y where "float_of_int n = Inr x" "fdiv x (Fin 1000000) = Inr y" "fdiv y dt = Inr w"
    using assms(1) by (auto simp: rapl_watts_def res_simps)
  moreover have "flt (Fin 0) (Fin 1000000)" by (simp add: flt_def)
  ultimately show ?thesis using float_of_int_nonneg fdiv_nonneg assms(2,3) by blast
qed

lemma rapl_read_nonneg:
  assumes "rapl_read fs now key d (m, prev) = Inr (m', prev')" "0 < max_range d"
    and "\<And>e. read_int fs (energy_file d) = Inr e \<Longrightarrow> 0 \<le> e"
    and "\<And>e t. dget prev key = Some (e, t) \<Longrightarrow> e \<le> max_range d"
    and "all_entries (\<lambda>k v. \<exists>w. v = PFloat w \<and> \<not> flt w (Fin 0)) m"
  shows "all_entries (\<lambda>k v. \<exists>w. v = PFloat w \<and> \<not> flt w (Fin 0)) m'"
    and "\<And>k. k \<noteq> key \<Longrightarrow> dget prev' k = dget prev k"
proof -
  obtain energy where e: "read_int fs (energy_file d) = Inr energy" and p: "prev' = dset prev key (energy, now)"
    using assms(1) by (auto simp: rapl_read_def res_simps)
  show "dget prev' k = dget prev k" if "k \<noteq> key" for k using that by (simp add: p dict_simps)
  show "all_entries (\<lambda>k v. \<exists>w. v = PFloat w \<and> \<not> flt w (Fin 0)) m'"
  proof (cases "dget prev key")
    case None
    with assms(1,5) e show ?thesis by (simp add: rapl_read_def)
  next
    case (Some et)
    obtain e0 t0 where et: "et = (e0, t0)" by (cases et)
    have d: "0 \<le> energy_delta (max_range d) e0 energy"
      using assms(2) assms(3) [OF e] assms(4) Some et by (auto simp: energy_delta_def Let_def)
    have "\<not> flt (fround w 3) (Fin 0)"
      if "rapl_watts (energy_delta (max_range d) e0 energy) (fsub now t0) = Inr w" "flt (Fin 0) (fsub now t0)" for w
      by (rule fround_nonneg [OF rapl_watts_nonneg [OF that(1) d that(2)]])
    with assms(1,5) e Some et show ?thesis
      by (auto simp: rapl_read_def res_simps Let_def intro!: all_entries_dset split: if_splits)
  qed
qed

lemma rapl_fold_nonneg:
  assumes "distinct (map fst ds)"
    and "\<forall>(key, d) \<in> set ds. 0 < max_range d \<and> (\<forall>e. read_int fs (energy_file d) = Inr e \<longrightarrow> 0 \<le> e)
      \<and> (\<forall>e t. dget prev key = Some (e, t) \<longrightarrow> e \<le> max_range d)"
    and "all_entries (\<lambda>k v. \<exists>w. v = PFloat w \<and> \<not> flt w (Fin 0)) m"
  shows "all_entries (\<lambda>k v. \<exists>w. v = PFloat w \<and> \<not> flt w (Fin 0))
    (fst (fold (\<lambda>(key, d). attempt (rapl_read fs now key d)) ds (m, prev)))"
  using assms
proof (induction ds arbitrary: m prev)
  case (Cons kd ds)
  obtain key d where kd: "kd = (key, d)" by (cases kd)
  obtain m1 prev1 where 1: "attempt (rapl_read fs now key d) (m, prev) = (m1, prev1)" by fastforce
  have "all_entries (\<lambda>k v. \<exists>w. v = PFloat w \<and> \<not> flt w (Fin 0)) m1 \<and> (\<forall>k. k \<noteq> key \<longrightarrow> dget prev1 k = dget prev k)"
  proof (cases "rapl_read fs now key d (m, prev)")
    case (Inl e)
    with 1 Cons.prems(3) show ?thesis by (simp add: attempt_def)
  next
    case (Inr st)
    with 1 have r: "rapl_read fs now key d (m, prev) = Inr (m1, prev1)" by (simp add: attempt_def)
    show ?thesis using rapl_read_nonneg [OF r] Cons.prems(2,3) kd by auto
  qed
  moreover have "\<forall>k \<in> set (map fst ds). k \<noteq> key" using Cons.prems(1) kd by auto
  ultimately show ?case using Cons.IH [of prev1 m1] Cons.prems(1,2) by (auto simp: kd 1 split_beta)
qed simp

text \<open>(C20) No power of a collection is negative when the range of every RAPL domain is known
  (positive), the recorded readings do not exceed it and no counter reads below zero, whatever the
  counters, their wraparounds and the elapsed time are.\<close>

theorem rapl_power_nonnegative:
  assumes "wf_dict (rapl_domains s)"
    and "\<And>key d. dget (rapl_domains s) key = Some d \<Longrightarrow> 0 < max_range d"
    and "\<And>key d e. dget (rapl_domains s) key = Some d \<Longrightarrow> read_int fs (energy_file d) = Inr e \<Longrightarrow> 0 \<le> e"
    and "\<And>key d e t. dget (rapl_domains s) key = Some d \<Longrightarrow> dget (prev_rapl s) key = Some (e, t)
      \<Longrightarrow> e \<le> max_range d"
    and "dget (fst (collect_rapl fs now s [])) k = Some v"
  shows "\<exists>w. v = PFloat w \<and> \<not> flt w (Fin 0)"
proof -
  have "\<forall>(key, d) \<in> set (rapl_domains s). 0 < max_range d \<and> (\<forall>e. read_int fs (energy_file d) = Inr e \<longrightarrow> 0 \<le> e)
      \<and> (\<forall>e t. dget (prev_rapl s) key = Some (e, t) \<longrightarrow> e \<le> max_range d)"
    using assms(2-4) in_set_dget [OF assms(1)] by blast
  moreover have "distinct (map fst (rapl_domains s))" using assms(1) by (simp add: wf_dict_def dkeys_def)
  ultimately have "all_entries (\<lambda>k v. \<exists>w. v = PFloat w \<and> \<not> flt w (Fin 0)) (fst (collect_rapl fs now s []))"
    using rapl_fold_nonneg [of "rapl_domains s" fs "prev_rapl s" "[]" now]
    by (simp add: collect_rapl_def split_beta Let_def)
  from all_entries_dget [OF this assms(5)] show ?thesis .
qed

text \<open>The hypothesis on the range is needed: a domain without a \<open>max_energy_range_uj\<close> file gets range
  0, and a counter that starts again from zero exports its whole last reading as negative power.\<close>

theorem unknown_range_exports_negative:
  assumes "fs_read fs (p @ [''max_energy_range_uj'']) = Inl OSErr" "rapl_entry fs p = Inr d"
    and "read_int fs (energy_file d) = Inr 0"
  shows "rapl_read fs (Fin 2) key d (m, [(key, 1000000, Fin 1)])
    = Inr (dset m (rapl_key (dom_name d)) (PFloat (Fin (- 1))), [(key, 0, Fin 2)])"
proof -
  have "py_int_of_str (strip ''0'') = Inr 0" by code_simp
  then have "max_range d = 0" using assms(1,2) by (auto simp: rapl_entry_def read_or_def)
  moreover have "rapl_watts (- 1000000) (fsub (Fin 2) (Fin 1)) = Inr (Fin (- 1))"
    "fround (Fin (- 1)) 3 = Fin (- 1)" "flt (Fin 0) (fsub (Fin 2) (Fin 1))"
    by code_simp+
  ultimately show ?thesis using assms(3) by (simp add: rapl_read_def energy_delta_def dict_simps)
qed

text \<open>The first collection.\<close>

lemma first_rapl_fold:
  assumes "distinct (map fst ds)" "\<forall>k \<in> set (map fst ds). dget prev k = None"
  shows "\<exists>prev'. fold (\<lambda>(key, d). attempt (rapl_read fs now key d)) ds (m, prev) = (m, prev')
    \<and> (\<forall>k d e. (k, d) \<in> set ds \<longrightarrow> read_int fs (energy_file d) = Inr e \<longrightarrow> dget prev' k = Some (e, now))
    \<and> (\<forall>k. k \<notin> set (map fst ds) \<longrightarrow> dget prev' k = dget prev k)"
  using assms
proof (induction ds arbitrary: prev)
  case (Cons kd ds)
  obtain k d where kd: "kd = (k, d)" by (cases kd)
  define prev1 where "prev1 = (case read_int fs (energy_file d) of Inl e \<Rightarrow> prev | Inr e \<Rightarrow> dset prev k (e, now))"
  have 1: "attempt (rapl_read fs now k d) (m, prev) = (m, prev1)"
    using Cons.prems by (auto simp: kd attempt_def rapl_read_def prev1_def split: sum.split)
  have "\<forall>k \<in> set (map fst ds). dget prev1 k = None"
    using Cons.prems by (auto simp: kd prev1_def dict_simps split: sum.split)
  with Cons.IH [of prev1] Cons.prems(1) obtain prev' where
    2: "fold (\<lambda>(key, d). attempt (rapl_read fs now key d)) ds (m, prev1) = (m, prev')"
    and 3: "\<forall>k d e. (k, d) \<in> set ds \<longrightarrow> read_int fs (energy_file d) = Inr e \<longrightarrow> dget prev' k = Some (e, now)"
    and 4: "\<forall>k. k \<notin> set (map fst ds) \<longrightarrow> dget prev' k = dget prev1 k" by auto
  have "dget prev1 k = Some (e, now)" if "read_int fs (energy_file d) = Inr e" for e
    using that by (simp add: prev1_def dict_simps)
  with 1 2 3 4 Cons.prems show ?case
    by (intro exI [of _ prev']) (auto simp: kd prev1_def dict_simps split: sum.split)
qed simp

text \<open>(C21) The first collection exports no power and records the reading of every domain it can read, so
  the second one has a delta to compute.\<close>

theorem first_collection_has_no_power:
  assumes "wf_dict (rapl_domains s)" "prev_rapl s = []"
  shows "fst (collect_rapl fs now s m) = m \<and>
    (\<forall>key d e. dget (rapl_domains s) key = Some d \<longrightarrow> read_int fs (energy_file d) = Inr e
      \<longrightarrow> dget (prev_rapl (snd (collect_rapl fs now s m))) key = Some (e, now))"
proof -
  obtain prev' where 1: "fold (\<lambda>(key, d). attempt (rapl_read fs now key d)) (rapl_domains s) (m, []) = (m, prev')"
    and 2: "\<forall>k d e. (k, d) \<in> set (rapl_domains s) \<longrightarrow> read_int fs (energy_file d) = Inr e
      \<longrightarrow> dget prev' k = Some (e, now)"
    using first_rapl_fold [of "rapl_domains s" "[]" fs now m] assms(1)
    by (auto simp: wf_dict_def dkeys_def)
  have "dget prev' key = Some (e, now)"
    if "dget (rapl_domains s) key = Some d" "read_int fs (energy_file d) = Inr e" for key d e
    using 2 dget_in_set [OF that(1)] that(2) by blast
  then show ?thesis by (simp add: collect_rapl_def assms(2) 1)
qed

lemma same_name_fold:
  assumes "\<forall>(k, d) \<in> set ds. dom_name d = n"
  shows "set (dkeys (fst (fold (\<lambda>(key, d). attempt (rapl_read fs now key d)) ds (m, prev))))
    \<subseteq> insert (rapl_key n) (set (dkeys m))"
  using assms
proof (induction ds arbitrary: m prev)
  case (Cons kd ds)
  obtain k d where kd: "kd = (k, d)" by (cases kd)
  obtain m1 prev1 where 1: "attempt (rapl_read fs now k d) (m, prev) = (m1, prev1)" by fastforce
  have "dom_name d = n" using Cons.prems by (simp add: kd)
  with 1 have "set (dkeys m1) \<subseteq> insert (rapl_key n) (set (dkeys m))"
    by (cases "dget prev k") (auto simp: attempt_def rapl_read_def res_simps dict_simps Let_def
        split: sum.splits if_splits)
  with Cons.IH [of m1 prev1] Cons.prems show ?case by (auto simp: kd 1)
qed auto

theorem same_name_domains_share_a_metric:
  assumes "\<forall>(k, d) \<in> set (rapl_domains s). dom_name d = n"
  shows "set (dkeys (fst (collect_rapl fs now s []))) \<subseteq> {rapl_key n}"
  using same_name_fold [OF assms, of fs now "[]" "prev_rapl s"] by (simp add: collect_rapl_def split_def Let_def)

theorem package_domain_name_not_classic: "\<not> prom_name (rapl_key ''package-0'')"
  by code_simp

section \<open>Percentages\<close>

lemma ratio_percent:
  assumes "0 \<le> a" "a \<le> b" "0 < b"
  shows "\<exists>q. int_truediv a b = Inr q \<and> fbetween 0 (fround (fmul q (Fin 100)) 2) 100"
proof -
  have "0 \<le> (of_int a / of_int b :: rat)" "of_int a / of_int b \<le> (1 :: rat)" using assms by simp_all
  then obtain q where q: "fl (of_int a / of_int b) = Fin q" "0 \<le> q" "q \<le> 1"
    using fl_between_int [of 0 "of_int a / of_int b" 1] by (auto simp: fbetween_iff)
  then have "fbetween (of_int 0) (fl (q * 100)) (of_int 100)" by (intro fl_between_int) simp_all
  then have "fbetween (of_int 0) (fround (fl (q * 100)) 2) (of_int 100)"
    by (rule fround_between_int) simp_all
  with q assms show ?thesis by (simp add: int_truediv_def fmul_def)
qed

text \<open>(C22) The CPU usage is between 0 and 100 when the idle time did not go backwards and did not grow by
  more than the total time.\<close>

theorem cpu_usage_bounds:
  assumes "dget prev cpu = Some (prev_idle, prev_tot)" "prev_tot < tot"
    and "prev_idle \<le> idle" "idle - prev_idle \<le> tot - prev_tot"
  shows "\<exists>x. usage_step prev (cpu, idle, tot) m = Inr (dset m (cpu_usage_key cpu) (PFloat x))
    \<and> fbetween 0 x 100"
proof -
  obtain q where "int_truediv (tot - prev_tot - (idle - prev_idle)) (tot - prev_tot) = Inr q"
    "fbetween 0 (fround (fmul q (Fin 100)) 2) 100"
    using ratio_percent [of "tot - prev_tot - (idle - prev_idle)" "tot - prev_tot"] assms by auto
  then show ?thesis using assms
    by (intro exI [of _ "fround (fmul q (Fin 100)) 2"]) (simp add: usage_step_def)
qed

lemma rnd_div_1024: "\<bar>n\<bar> \<le> 2 ^ 53 \<Longrightarrow> rnd (of_int n / 1024) = of_int n / 1024"
proof -
  assume "\<bar>n\<bar> \<le> 2 ^ 53"
  then have "rnd (of_int n * 2 powi (- 10)) = of_int n * 2 powi (- 10)" by (rule rnd_dyadic) simp
  moreover have "(2 powi (- 10) :: rat) = 1 / 1024" by (simp add: power_int_def power_divide)
  ultimately show ?thesis by simp
qed

lemma fl_exact: "rnd x = x \<Longrightarrow> \<bar>x\<bar> < float_limit \<Longrightarrow> fl x = Fin x"
  by (simp add: fl_def below_limit_iff)

lemma fl_div_1024: "\<bar>n\<bar> \<le> 2 ^ 53 \<Longrightarrow> fl (of_int n / 1024) = Fin (of_int n / 1024)"
proof -
  assume n: "\<bar>n\<bar> \<le> 2 ^ 53"
  have "\<bar>of_int n / 1024 :: rat\<bar> \<le> \<bar>of_int n\<bar>" by (simp add: abs_divide)
  also have "\<dots> < float_limit" by (rule pow53_less [OF n])
  finally show ?thesis by (rule fl_exact [OF rnd_div_1024 [OF n]])
qed

text \<open>(C23) With no more memory available than there is, the memory metrics are exported, the used
  percentage lies between 0 and 100 and the used megabytes are the exact difference, rounded once.\<close>

theorem memory_percent_bounds:
  assumes "0 \<le> available" "available \<le> tot" "0 < tot" "tot \<le> 2 ^ 53"
  shows "\<exists>m' p. put_memory tot available m = Inr m'
    \<and> dget m' ''server_ram_used_percent'' = Some (PFloat p) \<and> fbetween 0 p 100
    \<and> dget m' ''server_ram_used_mb'' = Some (PFloat (fround (Fin (of_int (tot - available) / 1024)) 1))"
proof -
  have t: "float_of_int tot = Inr (Fin (of_int tot))" "float_of_int available = Inr (Fin (of_int available))"
    using assms fl_of_int [of tot] fl_of_int [of available] by (simp_all add: float_of_int_def)
  have d: "fl (of_int tot / 1024) = Fin (of_int tot / 1024)"
    "fl (of_int available / 1024) = Fin (of_int available / 1024)"
    "fl (of_int (tot - available) / 1024) = Fin (of_int (tot - available) / 1024)"
    using assms by (intro fl_div_1024; simp)+
  have u: "fsub (Fin (of_int tot / 1024)) (Fin (of_int available / 1024)) = Fin (of_int (tot - available) / 1024)"
    using d(3) by (simp add: fsub_def fadd_def fminus_def diff_divide_distrib)
  obtain q where q: "int_truediv (tot - available) tot = Inr q"
    "fbetween 0 (fround (fmul q (Fin 100)) 2) 100"
    using ratio_percent [of "tot - available" tot] assms by auto
  have "of_int (tot - available) / 1024 / (of_int tot / 1024) = (of_int (tot - available) / of_int tot :: rat)"
    using assms(3) by (simp add: divide_simps del: of_int_diff)
  then have "fdiv (Fin (of_int (tot - available) / 1024)) (Fin (of_int tot / 1024)) = Inr q"
    using q(1) assms(3) by (auto simp: fdiv_def int_truediv_def simp del: of_int_diff
        split: pyfloat.splits if_splits)
  with q(2) show ?thesis
    by (simp add: put_memory_def t fdiv_def [of _ "Fin 1024"] d u dict_simps)
qed

section \<open>Failures\<close>

lemma rmapM_error: "x \<in> set xs \<Longrightarrow> f x = Inl e \<Longrightarrow> \<exists>y e'. y \<in> set xs \<and> f y = Inl e' \<and> rmapM f xs = Inl e'"
proof (induction xs)
  case (Cons a xs)
  show ?case
  proof (cases "f a")
    case (Inr y)
    with Cons have "\<exists>y e'. y \<in> set xs \<and> f y = Inl e' \<and> rmapM f xs = Inl e'" by auto
    with Inr show ?thesis by auto
  qed auto
qed simp

lemma stat_line_malformed:
  assumes "startswith line ''cpu''" "column \<in> set (tl (split_ws line))" "\<not> returns (py_int_of_str column)"
  shows "\<exists>msg. stat_line line acc = Inl (ValueError msg)"
proof -
  obtain e where "py_int_of_str column = Inl e" using assms(3) by (cases "py_int_of_str column") auto
  with assms(2) obtain c e' where c: "py_int_of_str c = Inl e'" "rmapM py_int_of_str (tl (split_ws line)) = Inl e'"
    using rmapM_error by metis
  then obtain msg where "e' = ValueError msg" using py_int_of_str_error by blast
  with c assms(1,2) show ?thesis by (cases "split_ws line") (auto simp: stat_line_def)
qed

lemma stat_line_error: "stat_line line acc = Inl e \<Longrightarrow> \<exists>msg. e = ValueError msg"
proof -
  have "rmapM py_int_of_str xs = Inl e \<Longrightarrow> \<exists>msg. e = ValueError msg" for xs
    by (induction xs) (auto simp: res_simps dest: py_int_of_str_error)
  then show "stat_line line acc = Inl e \<Longrightarrow> ?thesis"
    by (auto simp: stat_line_def res_simps split: list.splits if_splits)
qed

lemma stat_lines_malformed:
  assumes "line \<in> set ls" "startswith line ''cpu''" "column \<in> set (tl (split_ws line))"
    "\<not> returns (py_int_of_str column)"
  shows "\<exists>msg. rfold stat_line ls acc = Inl (ValueError msg)"
  using assms(1)
proof (induction ls arbitrary: acc)
  case (Cons l ls)
  show ?case
  proof (cases "stat_line l acc")
    case (Inl e)
    then show ?thesis using stat_line_error [OF Inl] by auto
  next
    case (Inr acc')
    with Cons.prems stat_line_malformed [OF assms(2-4), of acc] have "line \<in> set ls" by auto
    with Cons.IH Inr show ?thesis by simp
  qed
qed simp

text \<open>(C24) One column of one \<open>cpu\<close> line of \<open>/proc/stat\<close> that is not an integer raises a ValueError
  out of the whole collection: power and temperatures already read are lost, the CPU times stay
  those of the last good collection, and of the state only the energy readings have advanced.\<close>

theorem malformed_stat_loses_collection:
  assumes "fs_read fs proc_stat = Inr content" "line \<in> set (splitlines content)"
    and "startswith line ''cpu''" "column \<in> set (tl (split_ws line))"
    and "\<not> returns (py_int_of_str column)"
  shows "\<exists>msg. edge_get_metrics fs now s = (Inl (ValueError msg), snd (collect_rapl fs now s []))"
proof -
  obtain msg where "rfold stat_line (splitlines content) [] = Inl (ValueError msg)"
    using stat_lines_malformed [OF assms(2-5)] by blast
  then show ?thesis
    using assms(1) by (simp add: edge_get_metrics_def collect_cpu_usage_def split_def Let_def)
qed

section \<open>Witnesses\<close>

abbreviation (input) sample_files :: "string \<Rightarrow> filesystem" where
  "sample_files s \<equiv> \<lparr> fs_exists = \<lambda>p. Inr True, fs_is_dir = \<lambda>p. Inr True, fs_iterdir = \<lambda>p. Inr [],
     fs_read = \<lambda>p. Inr s \<rparr>"

abbreviation (input) sample_domain :: rapl_domain where
  "sample_domain \<equiv> \<lparr> dom_name = ''core'', energy_file = [''energy_uj''], max_range = 10 \<rparr>"

lemma sample_reads: "read_int (sample_files ''3'') p = Inr 3" "read_int (sample_files ''8'') p = Inr 8"
  "rapl_watts 5 (Fin 2) = Inr (fl (5 / 2000000))" "fsub (Fin 3) (Fin 1) = Fin 2"
  by code_simp+

lemma rapl_power_across_wrap_witness:
  "rapl_read (sample_files ''3'') (Fin 3) ''d'' sample_domain ([], [(''d'', 8, Fin 1)]) =
    Inr ([(rapl_key ''core'', PFloat (fround (fl (5 / 2000000)) 3))], [(''d'', 3, Fin 3)])"
  using rapl_power_across_wrap [of "sample_files ''3''" sample_domain 8 5 "[(''d'', 8, Fin 1)]" "''d''"
      "Fin 1" "Fin 3" "fl (5 / 2000000)" "[]"]
  by (simp add: sample_reads dict_simps flt_def)

lemma rapl_power_nonnegative_witness:
  "\<exists>w. PFloat (fround (fl (5 / 2000000)) 3) = PFloat w \<and> \<not> flt w (Fin 0)"
proof -
  have "dget (fst (collect_rapl (sample_files ''3'') (Fin 3) \<lparr> cpu_count = 1,
      rapl_domains = [(''d'', sample_domain)], temp_inputs = [], prev_rapl = [(''d'', 8, Fin 1)],
      prev_cpu_times = [] \<rparr> [])) (rapl_key ''core'') = Some (PFloat (fround (fl (5 / 2000000)) 3))"
    by (simp add: collect_rapl_def attempt_def rapl_read_def sample_reads dict_simps flt_def energy_delta_def)
  then show ?thesis
    by (rule rapl_power_nonnegative [rotated 4])
      (auto simp: sample_reads dict_simps wf_dict_def split: if_splits)
qed

lemma first_collection_has_no_power_witness:
  "fst (collect_rapl (sample_files ''3'') (Fin 1)
    \<lparr> cpu_count = 1, rapl_domains = [(''d'', sample_domain)], temp_inputs = [], prev_rapl = [],
      prev_cpu_times = [] \<rparr> []) = []"
  using first_collection_has_no_power [of "\<lparr> cpu_count = 1, rapl_domains = [(''d'', sample_domain)],
      temp_inputs = [], prev_rapl = [], prev_cpu_times = [] \<rparr>" "sample_files ''3''" "Fin 1" "[]"]
  by (simp add: wf_dict_def)

lemma cpu_usage_bounds_witness:
  "\<exists>x. usage_step [(''cpu'', 4, 10)] (''cpu'', 5, 14) [] =
      Inr [(''server_cpu_avg_usage_percent'', PFloat x)] \<and> fbetween 0 x 100"
  using cpu_usage_bounds [of "[(''cpu'', 4, 10)]" "''cpu''" 4 10 14 5 "[]"]
  by (simp add: dict_simps cpu_usage_key_def)

lemma memory_percent_bounds_witness:
  "\<exists>m' p. put_memory 4096 1024 [] = Inr m'
    \<and> dget m' ''server_ram_used_percent'' = Some (PFloat p) \<and> fbetween 0 p 100"
  using memory_percent_bounds [of 1024 4096 "[]"] by auto

lemma malformed_stat_loses_collection_witness:
  "\<exists>msg. edge_get_metrics (sample_files ''cpu 1 x'') (Fin 1)
    \<lparr> cpu_count = 0, rapl_domains = [], temp_inputs = [], prev_rapl = [], prev_cpu_times = [] \<rparr> =
    (Inl (ValueError msg),
     \<lparr> cpu_count = 0, rapl_domains = [], temp_inputs = [], prev_rapl = [], prev_cpu_times = [] \<rparr>)"
proof -
  have "''cpu 1 x'' \<in> set (splitlines ''cpu 1 x'')" "startswith ''cpu 1 x'' ''cpu''"
    "''x'' \<in> set (tl (split_ws ''cpu 1 x''))" "\<not> returns (py_int_of_str ''x'')"
    by code_simp+
  then show ?thesis
    using malformed_stat_loses_collection [of "sample_files ''cpu 1 x''" "''cpu 1 x''" "''cpu 1 x''" "''x''" "Fin 1"
      "\<lparr> cpu_count = 0, rapl_domains = [], temp_inputs = [], prev_rapl = [], prev_cpu_times = [] \<rparr>"]
    by (simp add: collect_rapl_def)
qed

end
