(* ===== verification/CollectorsProps.thy ===== *)
theory CollectorsProps
  imports Collectors EdgeServerProps
begin

text \<open>
  The collectors as the exporter uses them: every collector but the Shelly client returns a
  dictionary of numbers with distinct names, whatever fails; a started tegrastats process is
  cleaned up on every path; the factory and the stub.
\<close>

section \<open>Sources of metrics\<close>

interpretation jetson: metric_source "\<lambda>(model, as_root, p, cached). fst (jetson_get_metrics model as_root p cached)"
  "''jetson_''"
proof
  fix a m
  assume *: "(\<lambda>(model, as_root, p, cached). fst (jetson_get_metrics model as_root p cached)) a = Inr m"
  obtain model as_root p cached where a: "a = (model, as_root, p, cached)" by (cases a)
  from * obtain line where "parse_all_metrics model line = Inr m"
    by (auto simp: a jetson_get_metrics_def read_and_parse_def res_simps Let_def
        split: launch.splits if_splits)
  then have "all_entries (jetson_entry line) m" by (rule device.parse_entries)
  then show "all_entries (source_entry ''jetson_'') m"
    by (auto simp: all_entries_def jetson_entry_def source_entry_def)
qed

lemma stub_get_metrics_keys: "stub_get_metrics sine wall s = Inr m \<Longrightarrow> dkeys m = map fst METRICS"
  by (auto simp: stub_get_metrics_def res_simps dkeys_def)

lemma METRICS_distinct: "distinct (map fst METRICS)"
  by (simp add: METRICS_def)

interpretation stub: metric_source "\<lambda>(sine, wall, s). stub_get_metrics sine wall s" "[]"
proof
  fix a m
  assume *: "(\<lambda>(sine, wall, s). stub_get_metrics sine wall s) a = Inr m"
  obtain sine wall s where a: "a = (sine, wall, s)" by (cases a)
  have "wf_dict m" using stub_get_metrics_keys [of sine wall s m] * METRICS_distinct
    by (simp add: a wf_dict_def)
  then show "all_entries (source_entry []) m" using *
    by (auto simp: a all_entries_def source_entry_def stub_get_metrics_def res_simps)
qed

definition number_dict :: "pyval \<Rightarrow> bool" where
  "number_dict v = (case v of PDict m \<Rightarrow> wf_dict m \<and> list_all (\<lambda>(k, x). is_number x) m | _ \<Rightarrow> False)"


lemma number_dict_source: "all_entries (source_entry p) m \<Longrightarrow> number_dict (PDict m)"
  by (auto simp: number_dict_def all_entries_def source_entry_def list_all_iff)

lemma number_dict_Nil [simp]: "number_dict (PDict [])"
  by (simp add: number_dict_def)

definition same_class :: "collector \<Rightarrow> collector \<Rightarrow> bool" where
  "same_class c d = (case c of
      EdgeServerCollector s \<Rightarrow> (case d of
        EdgeServerCollector s' \<Rightarrow> rapl_domains s' = rapl_domains s \<and> temp_inputs s' = temp_inputs s
          \<and> cpu_count s' = cpu_count s
      | _ \<Rightarrow> False)
    | _ \<Rightarrow> d = c)"

text \<open>(C25) Whatever fails on the device, \<open>safe_get_metrics\<close> of every collector but the Shelly client
  returns a dictionary with distinct names whose values are numbers, and a collector of the same
  class.\<close>

theorem safe_get_metrics_numbers:
  assumes "safe_get_metrics w c = (v, c')" "\<forall>url. c \<noteq> ShellyCollector url"
  shows "number_dict v \<and> same_class c c'"
proof (cases c)
  case (JetsonCollector model)
  then show ?thesis using assms jetson.namespace [of "(model, is_root w, tegrastats w, [])"]
    by (cases "fst (jetson_get_metrics model (is_root w) (tegrastats w) [])")
      (auto simp: safe_get_metrics_def collector_get_metrics_def same_class_def number_dict_source)
next
  case (EdgeServerCollector s)
  obtain r s' where r: "edge_get_metrics (files w) (monotonic w) s = (r, s')" by fastforce
  have "rapl_domains s' = rapl_domains s \<and> temp_inputs s' = temp_inputs s \<and> cpu_count s' = cpu_count s"
    using r by (auto simp: edge_get_metrics_def collect_rapl_def collect_cpu_usage_def res_simps Let_def
        split: prod.splits sum.splits)
  then show ?thesis using assms edge.namespace [of "(files w, monotonic w, s)"] EdgeServerCollector
    by (cases r) (auto simp: r safe_get_metrics_def collector_get_metrics_def same_class_def number_dict_source)
next
  case (StubCollector s)
  then show ?thesis using assms stub.namespace [of "(math_sin w, wall_time w, s)"]
    by (cases "stub_get_metrics (math_sin w) (wall_time w) s")
      (auto simp: safe_get_metrics_def collector_get_metrics_def same_class_def number_dict_source)
qed (use assms in \<open>auto simp: safe_get_metrics_def collector_get_metrics_def same_class_def
  raspberry_pi_get_metrics_def orange_pi_get_metrics_def lattepanda_get_metrics_def\<close>)

section \<open>The tegrastats process\<close>

text \<open>What the operations do to the process and to the two pipes the collector holds: the process
  runs until a signal reaches it, and stays in the process table until it is waited for. An
  operation that raises does nothing; waiting a second does nothing to a process that does not exit
  in time.\<close>

datatype life = NotStarted | Running | Signalled | Killed | Reaped

record process_state =
  stdout_open :: bool
  stderr_open :: bool
  life :: life

fun process_step :: "tegra_process \<Rightarrow> pevent \<Rightarrow> process_state \<Rightarrow> process_state" where
  "process_step p (Spawn cmd) s = \<lparr> stdout_open = True, stderr_open = True, life = Running \<rparr>"
| "process_step p CloseStdout s = (if op_raises p CloseStdout then s else s\<lparr>stdout_open := False\<rparr>)"
| "process_step p CloseStderr s = (if op_raises p CloseStderr then s else s\<lparr>stderr_open := False\<rparr>)"
| "process_step p Terminate s = (if op_raises p Terminate then s else s\<lparr>life := Signalled\<rparr>)"
| "process_step p WaitSecond s =
     (if op_raises p WaitSecond \<or> \<not> exits_in_time p then s else s\<lparr>life := Reaped\<rparr>)"
| "process_step p Kill s = (if op_raises p Kill then s else s\<lparr>life := Killed\<rparr>)"
| "process_step p WaitExit s = (if op_raises p WaitExit then s else s\<lparr>life := Reaped\<rparr>)"

definition process_after :: "tegra_process \<Rightarrow> pevent list \<Rightarrow> process_state" where
  "process_after p es = fold (process_step p) es \<lparr> stdout_open = False, stderr_open = False, life = NotStarted \<rparr>"

text \<open>(C26) What is left of a started tegrastats when the collection is over, whatever its first line
  holds and whether or not it parses: a process that is not reaped, or a pipe that is open, comes
  from an operation of the cleanup that raised. One raising in closing a pipe leaves the process
  running.\<close>

theorem tegrastats_process_cleanup:
  assumes "launched p = PopenStarts line" "jetson_get_metrics model as_root p cached = (r, cached', events)"
  shows "process_after p events = \<lparr> stdout_open = op_raises p CloseStdout,
      stderr_open = (op_raises p CloseStdout \<or> op_raises p CloseStderr),
      life = (if op_raises p CloseStdout \<or> op_raises p CloseStderr \<or> op_raises p Terminate then Running
        else if op_raises p WaitSecond then Signalled
        else if exits_in_time p then Reaped
        else if op_raises p Kill then Signalled
        else if op_raises p WaitExit then Killed
        else Reaped) \<rparr>"
  using assms by (auto simp: jetson_get_metrics_def cleanup_def process_after_def Let_def split: if_splits)

text \<open>A pipe whose closing raises leaves the process running.\<close>

theorem failing_close_leaves_process_running:
  assumes "launched p = PopenStarts line" "jetson_get_metrics model as_root p cached = (r, cached', events)"
    and "op_raises p CloseStderr"
  shows "life (process_after p events) = Running \<and> Terminate \<notin> set events"
  using assms by (auto simp: jetson_get_metrics_def cleanup_def process_after_def Let_def split: if_splits)

text \<open>(C27) The cached metric names change only when a collection succeeds, and then are its names in
  order, each once.\<close>

theorem jetson_cache_after_success:
  assumes "jetson_get_metrics model as_root p cached = (r, cached', events)"
  shows "case r of Inl e \<Rightarrow> cached' = cached
    | Inr m \<Rightarrow> sorted cached' \<and> distinct cached' \<and> set cached' = set (dkeys m)"
proof (cases r)
  case (Inr m)
  then have "wf_dict m" using assms jetson.wf [of "(model, as_root, p, cached)" m] by simp
  then show ?thesis using assms Inr
    by (auto simp: jetson_get_metrics_def wf_dict_def Let_def split: launch.splits)
qed (use assms in \<open>auto simp: jetson_get_metrics_def Let_def split: launch.splits\<close>)

section \<open>The factory\<close>

lemma lower_c_idem [simp]: "lower_c (lower_c c) = lower_c c"
proof -
  have "ord_c (char_of (ord_c c + 32)) = ord_c c + 32" if "65 \<le> ord_c c" "ord_c c \<le> 222"
    using that by (simp add: ord_c_def take_bit_eq_mod)
  then show ?thesis by (auto simp: lower_c_def Let_def)
qed

lemma lower_idem [simp]: "lower (lower s) = lower s"
  by (simp add: lower_def)

definition device_types :: "string list" where
  "device_types = [''jetson_orin'', ''jetson_orin_nano'', ''orin_nano'', ''jetson_xavier'', ''jetson_nano'',
     ''jetson'', ''raspberry_pi'', ''orange_pi'', ''lattepanda'', ''edge_server'', ''shelly'', ''stub'']"

text \<open>(C28) The factory ignores the case of the device type and raises ValueError on every type
  but the twelve it knows.\<close>

theorem factory_types:
  "get_collector w (PStr s) config = get_collector w (PStr (lower s)) config
    \<and> (lower s \<in> set device_types \<or> get_collector w (PStr s) config = Inl (unsupported (lower s)))"
  by (simp add: get_collector_def device_types_def Let_def)

section \<open>The Shelly client\<close>

text \<open>(C29) The Shelly client never raises, and returns metrics exactly when the server answered with
  neither a 4xx nor a 5xx status, with a JSON object whose \<open>metrics\<close> is not empty: those metrics.\<close>

theorem shelly_client_metrics:
  "truthy (shelly_get_metrics r) \<longleftrightarrow>
    (\<exists>status d v. r = HttpResponse status (Some (PDict d)) \<and> http_ok status
      \<and> dget d ''metrics'' = Some v \<and> truthy v \<and> shelly_get_metrics r = v)"
proof
  assume t: "truthy (shelly_get_metrics r)"
  have [simp]: "\<not> truthy (PDict [])" by (simp add: truthy_def)
  from t obtain data where data: "fetch_json r = Inr data"
    by (auto simp: shelly_get_metrics_def split: sum.splits)
  with t obtain d where d: "data = PDict d"
    by (auto simp: shelly_get_metrics_def py_get_def split: pyval.splits)
  with t data obtain v where "dget d ''metrics'' = Some v" "truthy v" "shelly_get_metrics r = v"
    by (auto simp: shelly_get_metrics_def py_get_def dget_or_def split: option.splits if_splits)
  with data d show "\<exists>status d v. r = HttpResponse status (Some (PDict d)) \<and> http_ok status
      \<and> dget d ''metrics'' = Some v \<and> truthy v \<and> shelly_get_metrics r = v"
    by (auto simp: fetch_json_Inr_iff)
next
  assume "\<exists>status d v. r = HttpResponse status (Some (PDict d)) \<and> http_ok status
      \<and> dget d ''metrics'' = Some v \<and> truthy v \<and> shelly_get_metrics r = v"
  then show "truthy (shelly_get_metrics r)" by auto
qed

section \<open>The stub\<close>

lemma METRICS_range: "(k, v) \<in> set METRICS \<Longrightarrow> fbetween 0 v 62801"
proof -
  have "list_all (\<lambda>(k, v). fbetween 0 v 62801) METRICS" by code_simp
  then show "(k, v) \<in> set METRICS \<Longrightarrow> ?thesis" by (auto simp: list_all_iff)
qed

lemma stub_value_between:
  assumes "fbetween 0 v 62801" "- 1 \<le> x" "x \<le> 1"
  shows "fbetween 0 (fround (fmul v (fadd (Fin 1) (Fin x))) 4) 125602"
proof -
  obtain a where a: "v = Fin a" "0 \<le> a" "a \<le> 62801" using assms(1) by (auto simp: fbetween_iff)
  have "fbetween (of_int 0) (fl (1 + x)) (of_int 2)" using assms(2,3) by (intro fl_between_int) simp_all
  then obtain b where b: "fl (1 + x) = Fin b" "0 \<le> b" "b \<le> 2" by (auto simp: fbetween_iff)
  have "a * b \<le> 62801 * 2" using a b by (intro mult_mono) simp_all
  then have "fbetween (of_int 0) (fl (a * b)) (of_int 125602)" using a b by (intro fl_between_int) simp_all
  then have "fbetween (of_int 0) (fround (fl (a * b)) 4) (of_int 125602)"
    by (rule fround_between_int) simp_all
  then show ?thesis by (simp add: a(1) fadd_def b(1) fmul_def)
qed

text \<open>The angle is finite, so the sine is taken of a number.\<close>

lemma stub_angle_finite:
  assumes "\<bar>w - v\<bar> \<le> 2 ^ 40" "1 \<le> q"
  shows "\<exists>t. fdiv (fmul (fmul (Fin 2) math_pi) (fsub (Fin w) (Fin v))) (Fin q) = Inr (Fin t)"
proof -
  have pi: "fmul (Fin 2) math_pi = Fin (884279719003555 / 140737488355328)" by code_simp
  have "fbetween (of_int (- (2 ^ 40))) (fl (w - v)) (of_int (2 ^ 40))"
    using assms(1) by (intro fl_between_int) simp_all
  then obtain d where d: "fl (w - v) = Fin d" "\<bar>d\<bar> \<le> 2 ^ 40" by (auto simp: fbetween_iff)
  have "\<bar>884279719003555 / 140737488355328 * d\<bar> \<le> 7 * 2 ^ 40"
    unfolding abs_mult using d(2) by (intro mult_mono) simp_all
  then have "fbetween (of_int (- (7 * 2 ^ 40))) (fl (884279719003555 / 140737488355328 * d)) (of_int (7 * 2 ^ 40))"
    by (intro fl_between_int) simp_all
  then obtain x where x: "fl (884279719003555 / 140737488355328 * d) = Fin x" "\<bar>x\<bar> \<le> 7 * 2 ^ 40"
    by (auto simp: fbetween_iff)
  have "\<bar>x / q\<bar> \<le> \<bar>x\<bar> / 1" unfolding abs_divide using assms(2) by (intro divide_left_mono) simp_all
  then have "\<bar>x / q\<bar> \<le> 7 * 2 ^ 40" using x(2) by simp
  then have "- (7 * 2 ^ 40) \<le> x / q" "x / q \<le> 7 * 2 ^ 40" by (simp_all only: abs_le_iff minus_le_iff)
  then have "fbetween (of_int (- (7 * 2 ^ 40))) (fl (x / q)) (of_int (7 * 2 ^ 40))"
    by (intro fl_between_int) simp_all
  then obtain t where t: "fl (x / q) = Fin t" by (auto simp: fbetween_iff)
  have "fsub (Fin w) (Fin v) = Fin d" using d(1) by (simp add: fsub_def fadd_def fminus_def)
  moreover have "fmul (Fin (884279719003555 / 140737488355328)) (Fin d) = Fin x"
    using x(1) by (simp add: fmul_def)
  moreover have "fdiv (Fin x) (Fin q) = Inr (Fin t)" using assms(2) t by (simp add: fdiv_def)
  ultimately show ?thesis by (simp only: pi) blast
qed

lemma stub_wave_between:
  assumes "operand (amplitude s) = Inr (Fin a)" "\<bar>a\<bar> \<le> 1" "operand (period s) = Inr (Fin q)" "1 \<le> q"
    and "stub_start s = Fin v" "\<bar>w - v\<bar> \<le> 2 ^ 40"
    and "\<And>t. \<exists>y. sine (Fin t) = Inr (Fin y) \<and> \<bar>y\<bar> \<le> 1"
  shows "\<exists>x. stub_wave sine (Fin w) s = Inr (Fin x) \<and> - 1 \<le> x \<and> x \<le> 1"
proof -
  obtain t where t: "fdiv (fmul (fmul (Fin 2) math_pi) (fsub (Fin w) (Fin v))) (Fin q) = Inr (Fin t)"
    using stub_angle_finite assms(4,6) by blast
  obtain y where y: "sine (Fin t) = Inr (Fin y)" "\<bar>y\<bar> \<le> 1" using assms(7) by blast
  have "\<bar>y * a\<bar> \<le> 1 * 1" unfolding abs_mult using y(2) assms(2) by (intro mult_mono) simp_all
  then have "fbetween (of_int (- 1)) (fl (y * a)) (of_int 1)" by (intro fl_between_int) simp_all
  then show ?thesis using assms(1,3,5) t y(1) by (auto simp: stub_wave_def fmul_def fbetween_iff)
qed

text \<open>(C30) With an amplitude of at most one and a period of at least one second, within 2^40 seconds
  of its start, the stub exports exactly seventeen metrics with distinct names, each a finite value
  that is not negative, given that the sine of a number lies between -1 and 1.\<close>

theorem stub_values_bounded:
  assumes "operand (amplitude s) = Inr (Fin a)" "\<bar>a\<bar> \<le> 1" "operand (period s) = Inr (Fin q)" "1 \<le> q"
    and "stub_start s = Fin v" "\<bar>w - v\<bar> \<le> 2 ^ 40"
    and "\<And>t. \<exists>y. sine (Fin t) = Inr (Fin y) \<and> \<bar>y\<bar> \<le> 1"
  shows "\<exists>m. stub_get_metrics sine (Fin w) s = Inr m \<and> length m = 17 \<and> distinct (dkeys m)
    \<and> list_all (\<lambda>(k, v). \<exists>y. v = PFloat y \<and> fbetween 0 y 125602) m"
proof -
  obtain x where x: "stub_wave sine (Fin w) s = Inr (Fin x)" "- 1 \<le> x" "x \<le> 1"
    using stub_wave_between [of s a q v w sine] assms by blast
  define m where "m = map (\<lambda>(k, v). (k, PFloat (fround (fmul v (fadd (Fin 1) (Fin x))) 4))) METRICS"
  have m: "stub_get_metrics sine (Fin w) s = Inr m" by (simp add: stub_get_metrics_def x(1) m_def)
  then have "distinct (dkeys m)" using stub_get_metrics_keys METRICS_distinct by metis
  moreover have "length m = 17" by (simp add: m_def METRICS_def)
  moreover have "list_all (\<lambda>(k, v). \<exists>y. v = PFloat y \<and> fbetween 0 y 125602) m"
    using METRICS_range stub_value_between [OF _ x(2,3)] by (auto simp: m_def list_all_iff)
  ultimately show ?thesis using m by blast
qed

section \<open>Witnesses\<close>

abbreviation (input) sample_process :: tegra_process where
  "sample_process \<equiv> \<lparr> launched = PopenStarts (Inr ''A 5mW''), op_raises = \<lambda>e. False, exits_in_time = True \<rparr>"

lemma sample_line: "parse_all_metrics Orin ''A 5mW'' = Inr [(''jetson_power_a_watts'', PFloat (fl (5 / 1000)))]"
  by code_simp

lemma sample_strip: "strip ''A 5mW'' = ''A 5mW''"
  by code_simp

lemma sample_collection: "jetson_get_metrics Orin True sample_process [] =
    (Inr [(''jetson_power_a_watts'', PFloat (fl (5 / 1000)))], [''jetson_power_a_watts''],
     Spawn (tegrastats_command True) # [CloseStdout, CloseStderr, Terminate, WaitSecond])"
  using sample_line by (simp add: jetson_get_metrics_def read_and_parse_def sample_strip cleanup_def)

lemma tegrastats_process_cleanup_witness:
  "process_after sample_process (Spawn (tegrastats_command True) # [CloseStdout, CloseStderr, Terminate, WaitSecond])
    = \<lparr> stdout_open = False, stderr_open = False, life = Reaped \<rparr>"
  using tegrastats_process_cleanup [OF _ sample_collection] by simp

lemma jetson_cache_after_success_witness: "sorted [''jetson_power_a_watts''] \<and> distinct [''jetson_power_a_watts'']"
  using jetson_cache_after_success [OF sample_collection] by simp

abbreviation (input) sample_world :: world where
  "sample_world \<equiv> \<lparr> files = \<lparr> fs_exists = \<lambda>p. Inr False, fs_is_dir = \<lambda>p. Inr False, fs_iterdir = \<lambda>p. Inr [],
       fs_read = \<lambda>p. Inl OSErr \<rparr>, os_cpu_count = 1, monotonic = Fin 1, wall_time = Fin 1, is_root = True,
     tegrastats = sample_process, http_get = \<lambda>u. HttpTimeout, math_sin = \<lambda>x. Inr (Fin 0) \<rparr>"

lemma safe_get_metrics_numbers_witness: "number_dict (fst (safe_get_metrics sample_world (JetsonCollector Orin)))"
proof -
  have "safe_get_metrics sample_world (JetsonCollector Orin)
      = (PDict [(''jetson_power_a_watts'', PFloat (fl (5 / 1000)))], JetsonCollector Orin)"
    using sample_collection by (simp add: safe_get_metrics_def collector_get_metrics_def)
  from safe_get_metrics_numbers [OF this] this show ?thesis by simp
qed

lemma stub_values_bounded_witness:
  "\<exists>m. stub_get_metrics (\<lambda>x. Inr (Fin (1 / 2))) (Fin 7)
      \<lparr> stub_start = Fin 1, amplitude = PFloat (Fin (1 / 4)), period = PInt 60 \<rparr> = Inr m \<and> length m = 17"
proof -
  have "operand (PInt 60) = Inr (Fin 60)" by code_simp
  then show ?thesis
    using stub_values_bounded [of "\<lparr> stub_start = Fin 1, amplitude = PFloat (Fin (1 / 4)), period = PInt 60 \<rparr>"
      "1 / 4" 60 1 7 "\<lambda>x. Inr (Fin (1 / 2))"]
    by (fastforce simp: operand_def intro: exI [of _ "1 / 2"])
qed

end
