(* ===== verification/ShellyServer.thy ===== *)
theory ShellyServer
  imports PyVal
begin

text \<open>
  \<open>shelly_server.py\<close>: the registry of WebSocket connections, the JSON-RPC handler of a
  connection, the extraction of metrics from a \<open>Switch.GetStatus\<close> result, and the HTTP API the
  Shelly client of the exporter reads. The server runs in one event loop, so the code between two
  awaits is one step: a connection opens, a message arrives, the handler of a connection ends, a
  request for the metrics starts to send its frame, the sending succeeds or fails, and a request
  whose frame is sent ends because five seconds passed or because its answer is there. A message is
  given as the JSON value it parses to, or none. A handler that the HTTP library cancels is left out.
\<close>

section \<open>Dictionaries with JSON keys\<close>

text \<open>What a key is compared by: numbers by value across their types, lists and dictionaries
  cannot be keys.\<close>

definition canon :: "pyval \<Rightarrow> pyval option" where
  "canon k = (case k of
      PBool b \<Rightarrow> Some (PFloat (Fin (if b then 1 else 0)))
    | PInt n \<Rightarrow> Some (PFloat (Fin (of_int n)))
    | PList xs \<Rightarrow> None
    | PDict d \<Rightarrow> None
    | _ \<Rightarrow> Some k)"

type_synonym 'w registry = "(pyval \<times> 'w) list"

fun kget :: "'w registry \<Rightarrow> pyval \<Rightarrow> 'w option" where
  "kget [] k = None"
| "kget ((k', w) # r) k = (if canon k' = canon k then Some w else kget r k)"

fun kset :: "'w registry \<Rightarrow> pyval \<Rightarrow> 'w \<Rightarrow> 'w registry" where
  "kset [] k w = [(k, w)]"
| "kset ((k', w') # r) k w = (if canon k' = canon k then (k', w) # r else (k', w') # kset r k w)"

fun kdel :: "'w registry \<Rightarrow> pyval \<Rightarrow> 'w registry" where
  "kdel [] k = []"
| "kdel ((k', w) # r) k = (if canon k' = canon k then r else (k', w) # kdel r k)"

section \<open>The connection registry\<close>

definition register :: "'w registry \<Rightarrow> pyval \<Rightarrow> 'w \<Rightarrow> 'w registry res" where
  "register r d w = (if canon d = None then Inl TypeErr else Inr (kset r d w))"

definition unregister :: "'w registry \<Rightarrow> pyval \<Rightarrow> 'w registry res" where
  "unregister r d = (if canon d = None then Inl TypeErr else Inr (kdel r d))"

definition get_connection :: "'w registry \<Rightarrow> pyval \<Rightarrow> 'w option res" where
  "get_connection r d = (if canon d = None then Inl TypeErr else Inr (kget r d))"

definition get_all_devices :: "'w registry \<Rightarrow> pyval list" where
  "get_all_devices r = map fst r"

section \<open>State\<close>

text \<open>The future of a request: not done, or its result.\<close>

datatype future = Waiting | Done pyval

text \<open>The local variables of \<open>handle_connection\<close>.\<close>

record conn =
  device_id :: pyval
  remote_ip :: string

text \<open>A request to \<open>/metrics\<close> in progress: the device it asks, and the await it is in:
  \<open>websocket.send\<close>, or the wait for the future with its limit of five seconds.\<close>

datatype phase = Sending | Awaiting

record task =
  asked :: pyval
  phase :: phase

text \<open>The connections whose handler runs, by the identity of their WebSocket object, and the requests
  in progress. A socket may be closed while its handler still runs; sending on it then fails.\<close>

record server =
  connections :: "nat registry"
  pending_requests :: "future dict"
  conns :: "nat \<Rightarrow> conn option"
  tasks :: "task dict"

definition new_server :: server where
  "new_server = \<lparr> connections = [], pending_requests = [], conns = \<lambda>w. None, tasks = [] \<rparr>"

section \<open>Messages\<close>

definition parse_rpc_message :: "pyval option \<Rightarrow> pyval" where
  "parse_rpc_message json = (case json of None \<Rightarrow> PNone | Some v \<Rightarrow> v)"

definition extract_device_id :: "pyval \<Rightarrow> string \<Rightarrow> pyval res" where
  "extract_device_id data ip = rbind (py_in ''src'' data) (\<lambda>has.
     if has then py_item data ''src''
     else Inr (PStr (''shelly_'' @ replace ip ''.'' ''_'')))"

text \<open>\<open>dispatch_rpc_response\<close>: the pending keys are strings, so only a string can be one.\<close>

definition dispatch_rpc_response :: "pyval \<Rightarrow> future dict \<Rightarrow> (bool \<times> future dict) res" where
  "dispatch_rpc_response message pending = rbind (py_in ''id'' message) (\<lambda>has.
     if \<not> has then Inr (False, pending)
     else rbind (py_item message ''id'') (\<lambda>i.
       if canon i = None then Inl TypeErr
       else case i of
         PStr rid \<Rightarrow> (case dget pending rid of
             None \<Rightarrow> Inr (False, pending)
           | Some Waiting \<Rightarrow> Inr (True, dset pending rid (Done message))
           | Some (Done m) \<Rightarrow> Inr (True, pending))
       | _ \<Rightarrow> Inr (False, pending)))"

definition dispatch :: "pyval \<Rightarrow> server \<Rightarrow> server" where
  "dispatch data s = (case dispatch_rpc_response data (pending_requests s) of
      Inl e \<Rightarrow> s
    | Inr (b, pending) \<Rightarrow> s\<lparr>pending_requests := pending\<rparr>)"

text \<open>The body of the receive loop for one message. The device is identified on the first message
  that gives a true value; an exception ends the work on this message and keeps what was set.\<close>

definition handle_message :: "nat \<Rightarrow> conn \<Rightarrow> pyval option \<Rightarrow> server \<Rightarrow> server" where
  "handle_message w c json s = (let data = parse_rpc_message json in
     if \<not> truthy data then s
     else if truthy (device_id c) then dispatch data s
     else case extract_device_id data (remote_ip c) of
       Inl e \<Rightarrow> s
     | Inr d \<Rightarrow>
         (let s1 = s\<lparr>conns := (conns s)(w := Some (c\<lparr>device_id := d\<rparr>))\<rparr> in
          if \<not> truthy d then dispatch data s1
          else case register (connections s) d w of
            Inl e \<Rightarrow> s1
          | Inr r \<Rightarrow> dispatch data (s1\<lparr>connections := r\<rparr>)))"

text \<open>The \<open>finally\<close> block of \<open>handle_connection\<close>, with which the handler ends.\<close>

definition handle_close :: "nat \<Rightarrow> conn \<Rightarrow> server \<Rightarrow> server" where
  "handle_close w c s = (let s1 = s\<lparr>conns := (conns s)(w := None)\<rparr> in
     if \<not> truthy (device_id c) then s1
     else case unregister (connections s) (device_id c) of
       Inl e \<Rightarrow> s1
     | Inr r \<Rightarrow> s1\<lparr>connections := r\<rparr>)"

section \<open>Metrics of a Switch.GetStatus result\<close>

text \<open>The extraction stops at the first exception and returns what it has: an action on the
  metrics, with the exception that ended it, if any.\<close>

type_synonym extraction = "metrics \<Rightarrow> metrics \<times> exn option"

definition skip :: extraction where
  "skip m = (m, None)"

definition put :: "string \<Rightarrow> pyval res \<Rightarrow> extraction" where
  "put k r m = (case r of Inl e \<Rightarrow> (m, Some e) | Inr v \<Rightarrow> (dset m k v, None))"

definition after :: "extraction \<Rightarrow> extraction \<Rightarrow> extraction" where
  "after f g m = (case f m of (m', None) \<Rightarrow> g m' | (m', Some e) \<Rightarrow> (m', Some e))"

definition sequence :: "extraction list \<Rightarrow> extraction" where
  "sequence fs = foldr after fs skip"

definition with_value :: "'a res \<Rightarrow> ('a \<Rightarrow> extraction) \<Rightarrow> extraction" where
  "with_value r f m = (case r of Inl e \<Rightarrow> (m, Some e) | Inr x \<Rightarrow> f x m)"

text \<open>\<open>if name in container: ... container[name] ...\<close>.\<close>

definition if_present :: "pyval \<Rightarrow> string \<Rightarrow> (pyval \<Rightarrow> extraction) \<Rightarrow> extraction" where
  "if_present c name f = with_value (py_in name c) (\<lambda>has.
     if has then with_value (py_item c name) f else skip)"

definition float_of :: "pyval \<Rightarrow> pyval res" where
  "float_of v = rmap PFloat (py_float v)"

definition float_field :: "pyval \<Rightarrow> string \<Rightarrow> string \<Rightarrow> extraction" where
  "float_field c name key = if_present c name (\<lambda>v. put key (float_of v))"

definition minute_key :: "string \<Rightarrow> nat \<Rightarrow> string" where
  "minute_key prefix i = prefix @ str_nat i @ ''_mwh''"

definition minutes :: "pyval \<Rightarrow> string \<Rightarrow> extraction" where
  "minutes aenergy prefix = if_present aenergy ''by_minute'' (\<lambda>v. case v of
       PList xs \<Rightarrow> sequence (map (\<lambda>(i, x). put (minute_key prefix i) (float_of x)) (enum (take 3 xs)))
     | _ \<Rightarrow> skip)"

definition energy_field :: "pyval \<Rightarrow> string \<Rightarrow> string \<Rightarrow> string \<Rightarrow> string \<Rightarrow> extraction" where
  "energy_field result name total_key minute_prefix ts_key = if_present result name (\<lambda>e.
     if is_dict e then sequence
       [float_field e ''total'' total_key, minutes e minute_prefix,
        if_present e ''minute_ts'' (\<lambda>v. put ts_key (rmap PInt (py_int v)))]
     else skip)"

definition temperature_field :: "pyval \<Rightarrow> string \<Rightarrow> string \<Rightarrow> extraction" where
  "temperature_field temp name key = if_present temp name (\<lambda>v.
     if v = PNone then skip else put key (float_of v))"

definition temperatures :: "pyval \<Rightarrow> extraction" where
  "temperatures result = if_present result ''temperature'' (\<lambda>temp.
     if is_dict temp then sequence
       [temperature_field temp ''tC'' ''shelly_temperature_celsius'',
        temperature_field temp ''tF'' ''shelly_temperature_fahrenheit'']
     else skip)"

definition error_types :: "string list" where
  "error_types = [''overtemp'', ''overpower'', ''overvoltage'', ''undervoltage'']"

definition flag :: "bool \<Rightarrow> pyval" where
  "flag b = PInt (if b then 1 else 0)"

definition errors_field :: "pyval \<Rightarrow> extraction" where
  "errors_field result = if_present result ''errors'' (\<lambda>v. case v of
       PList xs \<Rightarrow> sequence (put ''shelly_errors_count'' (Inr (PInt (int (length xs))))
         # map (\<lambda>t. put (''shelly_error_'' @ t) (rmap flag (py_in t v))) error_types)
     | _ \<Rightarrow> skip)"

definition extraction_steps :: "pyval \<Rightarrow> extraction list" where
  "extraction_steps result =
    [if_present result ''output'' (\<lambda>v. put ''shelly_power_switch_output'' (Inr (flag (truthy v)))),
     float_field result ''apower'' ''shelly_power_total_watts'',
     float_field result ''voltage'' ''shelly_power_voltage_volts'',
     float_field result ''current'' ''shelly_power_current_amps'',
     float_field result ''pf'' ''shelly_power_factor'',
     float_field result ''freq'' ''shelly_power_frequency_hz'',
     energy_field result ''aenergy'' ''shelly_energy_total_wh'' ''shelly_energy_minute_''
       ''shelly_energy_minute_timestamp'',
     energy_field result ''ret_aenergy'' ''shelly_energy_returned_total_wh''
       ''shelly_energy_returned_minute_'' ''shelly_energy_returned_minute_timestamp'',
     temperatures result,
     errors_field result]"

definition extract_metrics_from_rpc_result :: "pyval \<Rightarrow> metrics" where
  "extract_metrics_from_rpc_result result = fst (sequence (extraction_steps result) [])"

section \<open>The HTTP API\<close>

text \<open>What a step gives to the outside: a frame sent on a WebSocket, an HTTP response.\<close>

datatype effect = Send nat pyval | Respond nat pyval

text \<open>\<open>str(e)\<close>, of the exceptions that carry a message.\<close>

definition exn_text :: "exn \<Rightarrow> string" where
  "exn_text e = (case e of ValueError s \<Rightarrow> s | KeyErr s \<Rightarrow> s | RuntimeErr s \<Rightarrow> s
     | NotImplementedErr s \<Rightarrow> s | GenericErr s \<Rightarrow> s | _ \<Rightarrow> [])"

definition error_body :: "string \<Rightarrow> pyval" where
  "error_body s = PDict [(''error'', PStr s)]"

definition rpc_request :: "string \<Rightarrow> pyval" where
  "rpc_request rid = PDict [(''id'', PStr rid), (''method'', PStr ''Switch.GetStatus''),
     (''params'', PDict [(''id'', PInt 0)])]"

text \<open>\<open>handle_metrics\<close> up to the first await inside \<open>send_rpc_request\<close>: the future is pending and
  the request goes to the connection of the first device.\<close>

definition start_metrics :: "string \<Rightarrow> server \<Rightarrow> server \<times> effect" where
  "start_metrics rid s = (case get_all_devices (connections s) of
      [] \<Rightarrow> (s, Respond 404 (error_body ''No Shelly device connected''))
    | d # _ \<Rightarrow> (case get_connection (connections s) d of
        Inl e \<Rightarrow> (s, Respond 500 (error_body (exn_text e)))
      | Inr None \<Rightarrow> (s, Respond 502 (error_body ''Device connection lost''))
      | Inr (Some w) \<Rightarrow>
          (s\<lparr>pending_requests := dset (pending_requests s) rid Waiting,
             tasks := dset (tasks s) rid \<lparr> asked = d, phase = Sending \<rparr>\<rparr>,
           Send w (rpc_request rid))))"

text \<open>How \<open>send_rpc_request\<close> ends: its handler turns a timeout into a plain exception.\<close>

definition rpc_failure :: "exn \<Rightarrow> exn" where
  "rpc_failure e = (if e = TimeoutErr then GenericErr ''RPC request timeout'' else e)"

text \<open>The rest of \<open>handle_metrics\<close>, from the outcome of the request.\<close>

definition metrics_response :: "pyval \<Rightarrow> pyfloat \<Rightarrow> pyval res \<Rightarrow> effect" where
  "metrics_response d now r =
     (case rbind r (\<lambda>response. rbind (py_in ''result'' response) (\<lambda>has.
        if has then py_item response ''result'' else Inl (GenericErr ''Invalid RPC response''))) of
        Inl e \<Rightarrow> if e = TimeoutErr then Respond 504 (error_body ''RPC request timeout'')
          else Respond 500 (error_body (exn_text e))
      | Inr result \<Rightarrow> Respond 200 (PDict [(''device_id'', d),
          (''metrics'', PDict (extract_metrics_from_rpc_result result)), (''timestamp'', PFloat now)]))"

text \<open>The \<open>finally\<close> of \<open>send_rpc_request\<close>, and the response of the request that waited.\<close>

definition finish_metrics :: "string \<Rightarrow> pyfloat \<Rightarrow> pyval res \<Rightarrow> server \<Rightarrow> server \<times> effect" where
  "finish_metrics rid now r s =
     (s\<lparr>pending_requests := ddel (pending_requests s) rid, tasks := ddel (tasks s) rid\<rparr>,
      metrics_response (case dget (tasks s) rid of None \<Rightarrow> PNone | Some t \<Rightarrow> asked t) now r)"

definition handle_devices :: "server \<Rightarrow> effect" where
  "handle_devices s = (let devices = get_all_devices (connections s) in
     Respond 200 (PDict [(''devices'', PList devices), (''count'', PInt (int (length devices)))]))"

section \<open>The server as a machine\<close>

datatype event =
    Connect nat string
  | Message nat "pyval option"
  | Close nat
  | GetDevices
  | GetMetrics string
  | SendDone string
  | SendFails string exn
  | RpcTimeout string
  | RpcAnswer string pyfloat

text \<open>When an event can happen: WebSocket objects and request ids are fresh, only a frame being sent
  can be sent or fail, and the limit and the answer end a request whose frame is sent.\<close>

definition in_phase :: "server \<Rightarrow> string \<Rightarrow> phase \<Rightarrow> bool" where
  "in_phase s rid ph = (case dget (tasks s) rid of None \<Rightarrow> False | Some t \<Rightarrow> phase t = ph)"

definition enabled :: "event \<Rightarrow> server \<Rightarrow> bool" where
  "enabled ev s = (case ev of
      Connect w ip \<Rightarrow> conns s w = None
    | Message w json \<Rightarrow> conns s w \<noteq> None
    | Close w \<Rightarrow> conns s w \<noteq> None
    | GetDevices \<Rightarrow> True
    | GetMetrics rid \<Rightarrow> \<not> dhas (tasks s) rid
    | SendDone rid \<Rightarrow> in_phase s rid Sending
    | SendFails rid e \<Rightarrow> in_phase s rid Sending
    | RpcTimeout rid \<Rightarrow> in_phase s rid Awaiting \<and> dget (pending_requests s) rid = Some Waiting
    | RpcAnswer rid now \<Rightarrow> in_phase s rid Awaiting
        \<and> (case dget (pending_requests s) rid of Some (Done m) \<Rightarrow> True | _ \<Rightarrow> False))"

definition server_step :: "event \<Rightarrow> server \<Rightarrow> server \<times> effect option" where
  "server_step ev s = (case ev of
      Connect w ip \<Rightarrow> (s\<lparr>conns := (conns s)(w := Some \<lparr> device_id = PNone, remote_ip = ip \<rparr>)\<rparr>, None)
    | Message w json \<Rightarrow> (case conns s w of None \<Rightarrow> (s, None) | Some c \<Rightarrow> (handle_message w c json s, None))
    | Close w \<Rightarrow> (case conns s w of None \<Rightarrow> (s, None) | Some c \<Rightarrow> (handle_close w c s, None))
    | GetDevices \<Rightarrow> (s, Some (handle_devices s))
    | GetMetrics rid \<Rightarrow> map_prod id Some (start_metrics rid s)
    | SendDone rid \<Rightarrow> (case dget (tasks s) rid of
        None \<Rightarrow> (s, None)
      | Some t \<Rightarrow> (s\<lparr>tasks := dset (tasks s) rid (t\<lparr>phase := Awaiting\<rparr>)\<rparr>, None))
    | SendFails rid e \<Rightarrow> map_prod id Some (finish_metrics rid (Fin 0) (Inl (rpc_failure e)) s)
    | RpcTimeout rid \<Rightarrow> map_prod id Some (finish_metrics rid (Fin 0) (Inl (rpc_failure TimeoutErr)) s)
    | RpcAnswer rid now \<Rightarrow> (case dget (pending_requests s) rid of
        Some (Done m) \<Rightarrow> map_prod id Some (finish_metrics rid now (Inr m) s)
      | _ \<Rightarrow> (s, None)))"

inductive reachable :: "server \<Rightarrow> bool" where
  start: "reachable new_server"
| step: "reachable s \<Longrightarrow> enabled ev s \<Longrightarrow> reachable (fst (server_step ev s))"

text \<open>A run over a list of events, for concrete executions.\<close>

fun run :: "event list \<Rightarrow> server \<Rightarrow> server" where
  "run [] s = s"
| "run (e # es) s = run es (fst (server_step e s))"

fun all_enabled :: "event list \<Rightarrow> server \<Rightarrow> bool" where
  "all_enabled [] s = True"
| "all_enabled (e # es) s = (enabled e s \<and> all_enabled es (fst (server_step e s)))"

section \<open>Starting the servers\<close>

text \<open>The ports come from the environment; \<open>_run_both\<close> waits for both servers, each of which
  ends only when it could not start.\<close>

definition shelly_ports :: "(string \<Rightarrow> string option) \<Rightarrow> (int \<times> int) res" where
  "shelly_ports env =
     rbind (py_int_of_str (case env ''SHELLY_WS_PORT'' of None \<Rightarrow> ''8765'' | Some s \<Rightarrow> s)) (\<lambda>ws.
     rmap (\<lambda>http. (ws, http))
       (py_int_of_str (case env ''SHELLY_HTTP_PORT'' of None \<Rightarrow> ''8766'' | Some s \<Rightarrow> s)))"

text \<open>Which servers run after startup, given which could start; the process ends when none does.\<close>

definition run_both :: "bool \<Rightarrow> bool \<Rightarrow> bool \<times> bool \<times> bool" where
  "run_both ws_starts http_starts = (ws_starts, http_starts, ws_starts \<or> http_starts)"

end
