(* ===== verification/ShellyServerProps.thy ===== *)
theory ShellyServerProps
  imports ShellyServer MetricSource
begin

text \<open>
  The Shelly server: its registry as a keyed store, the invariants of the reachable states (a
  registered connection is open and is the device's, no future outlives its request, an answer
  belongs to its request), what the HTTP API can respond, and what the extraction exports.
\<close>

section \<open>Keyed stores\<close>

text \<open>The contract of a mutable dictionary whose keys are compared by an equivalence.\<close>

locale keyed_store =
  fixes get :: "'s \<Rightarrow> 'k \<Rightarrow> 'w option" and upd :: "'s \<Rightarrow> 'k \<Rightarrow> 'w \<Rightarrow> 's" and del :: "'s \<Rightarrow> 'k \<Rightarrow> 's"
    and same :: "'k \<Rightarrow> 'k \<Rightarrow> bool" and wf :: "'s \<Rightarrow> bool"
  assumes get_upd: "wf s \<Longrightarrow> get (upd s k w) k' = (if same k k' then Some w else get s k')"
    and get_del: "wf s \<Longrightarrow> get (del s k) k' = (if same k k' then None else get s k')"
    and wf_upd: "wf s \<Longrightarrow> wf (upd s k w)"
    and wf_del: "wf s \<Longrightarrow> wf (del s k)"
    and same_refl: "same k k"
begin

lemma last_update_wins: "wf s \<Longrightarrow> get (upd (upd s k v) k w) k = Some w"
  by (simp add: get_upd wf_upd same_refl)

text \<open>Deleting by key deletes whatever was stored last, not what the deleter stored.\<close>

lemma stale_delete: "wf s \<Longrightarrow> get (del (upd (upd s k v) k w) k) k = None"
  by (simp add: get_del wf_upd same_refl)

lemma delete_keeps: "wf s \<Longrightarrow> \<not> same k k' \<Longrightarrow> get (del s k) k' = get s k'"
  by (simp add: get_del)

end

interpretation dict: keyed_store dget dset ddel "(=)" wf_dict
  by unfold_locales (auto simp: dict_simps dget_ddel wf_dict_dset wf_dict_ddel)

definition ckeys :: "'w registry \<Rightarrow> pyval option list" where
  "ckeys r = map (\<lambda>(k, w). canon k) r"

definition wf_registry :: "'w registry \<Rightarrow> bool" where
  "wf_registry r = distinct (ckeys r)"

lemma ckeys_simps [simp]: "ckeys [] = []" "ckeys ((k, w) # r) = canon k # ckeys r"
  by (simp_all add: ckeys_def)

lemma in_ckeys: "(k, w) \<in> set r \<Longrightarrow> canon k \<in> set (ckeys r)"
  by (force simp: ckeys_def)

lemma set_ckeys_kset: "set (ckeys (kset r k w)) = insert (canon k) (set (ckeys r))"
  by (induction r k w rule: kset.induct) auto

lemma wf_kset: "wf_registry r \<Longrightarrow> wf_registry (kset r k w)"
  unfolding wf_registry_def by (induction r k w rule: kset.induct) (auto simp: set_ckeys_kset)

lemma set_ckeys_kdel: "set (ckeys (kdel r k)) \<subseteq> set (ckeys r)"
  by (induction r k rule: kdel.induct) auto

lemma wf_kdel: "wf_registry r \<Longrightarrow> wf_registry (kdel r k)"
  unfolding wf_registry_def by (induction r k rule: kdel.induct) (use set_ckeys_kdel in auto)

lemma kget_None_iff: "kget r k = None \<longleftrightarrow> canon k \<notin> set (ckeys r)"
  by (induction r k rule: kget.induct) auto

lemma kget_kset: "kget (kset r k w) k' = (if canon k = canon k' then Some w else kget r k')"
  by (induction r k w rule: kset.induct) auto

lemma kget_kdel:
  "wf_registry r \<Longrightarrow> kget (kdel r k) k' = (if canon k = canon k' then None else kget r k')"
proof (induction r k rule: kdel.induct)
  case (2 a w r k)
  then have "wf_registry r" "canon a \<notin> set (ckeys r)"
    by (auto simp: wf_registry_def)
  with 2 show ?case using kget_None_iff [of r k'] by auto
qed simp

interpretation registry: keyed_store kget kset kdel "\<lambda>k k'. canon k = canon k'" wf_registry
  by unfold_locales (simp_all add: kget_kset kget_kdel wf_kset wf_kdel)

lemma in_kset:
  "wf_registry r \<Longrightarrow> (k, v) \<in> set (kset r d w)
    \<Longrightarrow> (k, v) \<in> set r \<and> canon k \<noteq> canon d \<or> v = w \<and> canon k = canon d"
  unfolding wf_registry_def
  by (induction r d w rule: kset.induct) (auto dest: in_ckeys split: if_splits)

lemma in_kdel: "wf_registry r \<Longrightarrow> (k, v) \<in> set (kdel r d) \<Longrightarrow> (k, v) \<in> set r \<and> canon k \<noteq> canon d"
  unfolding wf_registry_def
  by (induction r d rule: kdel.induct) (auto dest: in_ckeys split: if_splits)

section \<open>Invariants of the reachable states\<close>

definition registered_live :: "server \<Rightarrow> bool" where
  "registered_live s = (wf_registry (connections s) \<and>
     (\<forall>(k, w) \<in> set (connections s). canon k \<noteq> None \<and> (\<exists>c. conns s w = Some c
        \<and> truthy (device_id c) \<and> canon (device_id c) = canon k)))"

definition requests_tracked :: "server \<Rightarrow> bool" where
  "requests_tracked s = (wf_dict (pending_requests s) \<and> wf_dict (tasks s)
     \<and> set (dkeys (pending_requests s)) = set (dkeys (tasks s)))"

definition answers_match :: "server \<Rightarrow> bool" where
  "answers_match s = (\<forall>rid m. dget (pending_requests s) rid = Some (Done m)
     \<longrightarrow> py_item m ''id'' = Inr (PStr rid))"

lemma dispatch_fields [simp]:
  "connections (dispatch data s) = connections s" "conns (dispatch data s) = conns s"
  "tasks (dispatch data s) = tasks s"
  by (auto simp: dispatch_def split: sum.split)

lemma dispatch_pending:
  assumes "dispatch_rpc_response data pending = Inr (b, pending')"
  shows "pending' = pending \<or> (\<exists>rid. dget pending rid = Some Waiting
    \<and> pending' = dset pending rid (Done data) \<and> py_item data ''id'' = Inr (PStr rid))"
proof (cases "py_item data ''id''")
  case (Inr i)
  show ?thesis
  proof (cases i)
    case (PStr rid)
    then show ?thesis using assms Inr
      by (auto simp: dispatch_rpc_response_def res_simps split: if_splits option.splits future.splits)
  qed (use assms Inr in \<open>auto simp: dispatch_rpc_response_def res_simps split: if_splits\<close>)
qed (use assms in \<open>auto simp: dispatch_rpc_response_def res_simps split: if_splits\<close>)

lemma dispatch_cases:
  obtains "dispatch data s = s"
  | rid where "dget (pending_requests s) rid = Some Waiting"
      "dispatch data s = s\<lparr>pending_requests := dset (pending_requests s) rid (Done data)\<rparr>"
      "py_item data ''id'' = Inr (PStr rid)"
proof (cases "dispatch_rpc_response data (pending_requests s)")
  case (Inr r)
  then show ?thesis using that dispatch_pending [of data "pending_requests s" "fst r" "snd r"]
    by (cases r) (auto simp: dispatch_def)
qed (use that in \<open>auto simp: dispatch_def\<close>)

definition server_inv :: "server \<Rightarrow> bool" where
  "server_inv s = (registered_live s \<and> requests_tracked s \<and> answers_match s)"

lemma dispatch_inv: "server_inv s \<Longrightarrow> server_inv (dispatch data s)"
proof (cases rule: dispatch_cases [of data s])
  case (2 rid)
  assume inv: "server_inv s"
  from 2(1) have "rid \<in> set (dkeys (pending_requests s))" using dget_None_iff by (metis option.distinct(1))
  with inv 2 show ?thesis
    by (auto simp: server_inv_def registered_live_def requests_tracked_def answers_match_def
        wf_dict_dset dict_simps)
qed simp

lemma server_inv_conns:
  assumes "server_inv s" "\<And>k w c. (k, w) \<in> set r \<Longrightarrow> canon k \<noteq> None \<and> (\<exists>c. cs w = Some c
    \<and> truthy (device_id c) \<and> canon (device_id c) = canon k)" "wf_registry r"
  shows "server_inv (s\<lparr>conns := cs, connections := r\<rparr>)"
  using assms by (auto simp: server_inv_def registered_live_def requests_tracked_def answers_match_def)

lemma handle_message_cases:
  obtains (nothing) "handle_message w c json s = s"
  | (dispatched) "handle_message w c json s = dispatch (parse_rpc_message json) s"
  | (identified) d s1 where "\<not> truthy (device_id c)" "s1 = s\<lparr>conns := (conns s)(w := Some (c\<lparr>device_id := d\<rparr>))\<rparr>"
      "handle_message w c json s = s1 \<or> handle_message w c json s = dispatch (parse_rpc_message json) s1"
  | (registered) d where "\<not> truthy (device_id c)" "canon d \<noteq> None" "truthy d"
      "handle_message w c json s = dispatch (parse_rpc_message json)
        (s\<lparr>conns := (conns s)(w := Some (c\<lparr>device_id := d\<rparr>)), connections := kset (connections s) d w\<rparr>)"
proof (cases "truthy (parse_rpc_message json) \<and> \<not> truthy (device_id c)")
  case True
  show ?thesis
  proof (cases "extract_device_id (parse_rpc_message json) (remote_ip c)")
    case (Inl e)
    show ?thesis by (rule nothing) (use True Inl in \<open>simp add: handle_message_def\<close>)
  next
    case (Inr d)
    show ?thesis
    proof (cases "truthy d \<and> canon d \<noteq> None")
      case reg: True
      show ?thesis by (rule registered [of d])
        (use True Inr reg in \<open>auto simp: handle_message_def register_def Let_def\<close>)
    next
      case False
      show ?thesis by (rule identified [OF _ refl, of d])
        (use True Inr False in \<open>auto simp: handle_message_def register_def Let_def\<close>)
    qed
  qed
next
  case False
  show ?thesis
  proof (cases "truthy (parse_rpc_message json)")
    case True
    show ?thesis by (rule dispatched) (use True False in \<open>simp add: handle_message_def\<close>)
  next
    case no: False
    show ?thesis by (rule nothing) (use no in \<open>simp add: handle_message_def\<close>)
  qed
qed

lemma handle_message_inv:
  assumes inv: "server_inv s" and c: "conns s w = Some c"
  shows "server_inv (handle_message w c json s)"
proof -
  have live: "registered_live s" using inv by (simp add: server_inv_def)
  have wf: "wf_registry (connections s)" using live by (simp add: registered_live_def)
  have fresh: "w' \<noteq> w" if "(k, w') \<in> set (connections s)" "\<not> truthy (device_id c)" for k w'
    using live that c by (fastforce simp: registered_live_def)
  show ?thesis
  proof (cases rule: handle_message_cases [of w c json s])
    case nothing
    with inv show ?thesis by simp
  next
    case dispatched
    with inv dispatch_inv show ?thesis by simp
  next
    case (identified d s1)
    have "server_inv s1" unfolding identified(2)
      using server_inv_conns [OF inv, of "connections s" "(conns s)(w := Some (c\<lparr>device_id := d\<rparr>))"]
        live fresh identified(1)
      by (fastforce simp: registered_live_def)
    with identified(3) dispatch_inv show ?thesis by auto
  next
    case (registered d)
    let ?cs = "(conns s)(w := Some (c\<lparr>device_id := d\<rparr>))"
    have "server_inv (s\<lparr>conns := ?cs, connections := kset (connections s) d w\<rparr>)"
    proof (rule server_inv_conns [OF inv])
      show "wf_registry (kset (connections s) d w)" using live by (simp add: registered_live_def wf_kset)
      fix k w' assume "(k, w') \<in> set (kset (connections s) d w)"
      then consider "(k, w') \<in> set (connections s)" | "w' = w" "canon k = canon d"
        using in_kset [OF wf] by blast
      then show "canon k \<noteq> None \<and> (\<exists>c. ?cs w' = Some c \<and> truthy (device_id c) \<and> canon (device_id c) = canon k)"
      proof cases
        case 1
        with fresh live registered(1) show ?thesis by (fastforce simp: registered_live_def)
      qed (use registered in simp)
    qed
    with registered(4) dispatch_inv show ?thesis by simp
  qed
qed

lemma handle_close_inv:
  assumes inv: "server_inv s" and c: "conns s w = Some c"
  shows "server_inv (handle_close w c s)"
proof -
  let ?cs = "(conns s)(w := None)"
  have live: "registered_live s" using inv by (simp add: server_inv_def)
  have wf: "wf_registry (connections s)" using live by (simp add: registered_live_def)
  have entry: "canon k \<noteq> None \<and> (\<exists>c. conns s w' = Some c \<and> truthy (device_id c) \<and> canon (device_id c) = canon k)"
    if "(k, w') \<in> set (connections s)" for k w'
    using live that by (auto simp: registered_live_def)
  show ?thesis
  proof (cases "truthy (device_id c) \<and> canon (device_id c) \<noteq> None")
    case True
    then have "handle_close w c s = s\<lparr>conns := ?cs, connections := kdel (connections s) (device_id c)\<rparr>"
      by (auto simp: handle_close_def unregister_def Let_def)
    moreover have "server_inv (s\<lparr>conns := ?cs, connections := kdel (connections s) (device_id c)\<rparr>)"
    proof (rule server_inv_conns [OF inv])
      show "wf_registry (kdel (connections s) (device_id c))"
        using live by (simp add: registered_live_def wf_kdel)
      fix k w' assume "(k, w') \<in> set (kdel (connections s) (device_id c))"
      then have "(k, w') \<in> set (connections s)" "canon k \<noteq> canon (device_id c)"
        using in_kdel [OF wf] by blast+
      with entry c show "canon k \<noteq> None \<and> (\<exists>c. ?cs w' = Some c \<and> truthy (device_id c) \<and> canon (device_id c) = canon k)"
        by fastforce
    qed
    ultimately show ?thesis by simp
  next
    case False
    then have "handle_close w c s = s\<lparr>conns := ?cs\<rparr>"
      by (auto simp: handle_close_def unregister_def Let_def)
    moreover have "server_inv (s\<lparr>conns := ?cs, connections := connections s\<rparr>)"
    proof (rule server_inv_conns [OF inv])
      show "wf_registry (connections s)" using live by (simp add: registered_live_def)
      fix k w' assume "(k, w') \<in> set (connections s)"
      with entry c False show "canon k \<noteq> None \<and> (\<exists>c. ?cs w' = Some c \<and> truthy (device_id c) \<and> canon (device_id c) = canon k)"
        by fastforce
    qed
    ultimately show ?thesis by simp
  qed
qed

lemma finish_inv: "server_inv s \<Longrightarrow> server_inv (fst (finish_metrics rid now r s))"
  by (auto simp: finish_metrics_def server_inv_def registered_live_def requests_tracked_def
      answers_match_def wf_dict_ddel set_dkeys_ddel dget_ddel split: if_splits)

lemma start_inv: "server_inv s \<Longrightarrow> \<not> dhas (tasks s) rid \<Longrightarrow> server_inv (fst (start_metrics rid s))"
  by (auto simp: start_metrics_def server_inv_def registered_live_def requests_tracked_def
      answers_match_def wf_dict_dset dict_simps split: list.split sum.split option.split)

lemma server_step_inv:
  assumes inv: "server_inv s" and en: "enabled ev s"
  shows "server_inv (fst (server_step ev s))"
proof (cases ev)
  case (Connect w ip)
  then have "\<forall>(k, w') \<in> set (connections s). w' \<noteq> w"
    using inv en by (fastforce simp: enabled_def server_inv_def registered_live_def)
  with Connect inv show ?thesis
    using server_inv_conns [OF inv, of "connections s" "(conns s)(w := Some \<lparr> device_id = PNone, remote_ip = ip \<rparr>)"]
    by (fastforce simp: server_step_def server_inv_def registered_live_def)
next
  case (Message w json)
  then show ?thesis using inv handle_message_inv by (auto simp: server_step_def split: option.split)
next
  case (Close w)
  then show ?thesis using inv handle_close_inv by (auto simp: server_step_def split: option.split)
next
  case (GetMetrics rid)
  then show ?thesis using inv en start_inv by (simp add: server_step_def enabled_def)
next
  case (RpcAnswer rid now)
  then show ?thesis using inv finish_inv
    by (auto simp: server_step_def split: option.split future.split)
next
  case (SendDone rid)
  have "server_inv (s\<lparr>tasks := dset (tasks s) rid t\<rparr>)" if "dget (tasks s) rid \<noteq> None" for t
    using inv that dget_None_iff [of "tasks s" rid]
    by (auto simp: server_inv_def registered_live_def requests_tracked_def answers_match_def
        wf_dict_dset dict_simps)
  with SendDone inv show ?thesis by (auto simp: server_step_def split: option.split)
qed (use inv finish_inv in \<open>simp_all add: server_step_def\<close>)

lemma reachable_inv: "reachable s \<Longrightarrow> server_inv s"
proof (induction rule: reachable.induct)
  case start
  show ?case by (simp add: server_inv_def registered_live_def requests_tracked_def answers_match_def
        new_server_def wf_registry_def)
qed (rule server_step_inv)

text \<open>(C9) In every reachable state each registered device has a connection whose handler runs and that identified
  itself as that device, and no device is registered twice: \<open>/metrics\<close> never asks a connection
  whose handler has ended.\<close>

theorem registered_connections_live:
  assumes "reachable s"
  shows "registered_live s"
  using reachable_inv [OF assms] by (simp add: server_inv_def)

text \<open>(C36) In every reachable state the pending futures are exactly those of the requests in
  progress, so none leaks, and a future that is done holds a message whose id is the request's.\<close>

theorem futures_belong_to_requests:
  assumes "reachable s"
  shows "set (dkeys (pending_requests s)) = set (dkeys (tasks s))
    \<and> (\<forall>rid m. dget (pending_requests s) rid = Some (Done m) \<longrightarrow> py_item m ''id'' = Inr (PStr rid))"
  using reachable_inv [OF assms] by (simp add: server_inv_def requests_tracked_def answers_match_def)

section \<open>The HTTP API\<close>

lemma metrics_response_status:
  assumes "metrics_response d now r = Respond st body" "r \<noteq> Inl TimeoutErr"
  shows "st \<in> {200, 500}"
proof -
  have "rbind r (\<lambda>response. rbind (py_in ''result'' response) (\<lambda>has.
        if has then py_item response ''result'' else Inl (GenericErr ''Invalid RPC response''))) \<noteq> Inl TimeoutErr"
    using assms(2) by (auto simp: res_simps py_in_def py_item_def split: pyval.splits option.splits if_splits)
  then show ?thesis using assms(1) by (auto simp: metrics_response_def split: sum.splits if_splits)
qed

text \<open>(C10) Every response of the API has the status 200, 404 or 500: in the reachable states the
  branches for a lost connection (502) and for a timeout (504) are never taken.\<close>

theorem response_statuses:
  assumes "reachable s" "enabled ev s" "server_step ev s = (s', Some (Respond st body))"
  shows "st \<in> {200, 404, 500}"
proof (cases ev)
  case (GetMetrics rid)
  have live: "registered_live s" using reachable_inv [OF assms(1)] by (simp add: server_inv_def)
  have "kget (connections s) d \<noteq> None \<and> canon d \<noteq> None" if "get_all_devices (connections s) = d # ds" for d ds
    using live that by (cases "connections s") (auto simp: get_all_devices_def registered_live_def)
  then show ?thesis using assms(3) GetMetrics
    by (auto simp: server_step_def start_metrics_def get_connection_def split: list.splits option.splits if_splits)
next
  case (RpcAnswer rid now)
  then show ?thesis using assms(3) metrics_response_status
    by (force simp: server_step_def finish_metrics_def split: option.splits future.splits)
next
  case (SendFails rid e)
  then have "metrics_response (case dget (tasks s) rid of None \<Rightarrow> PNone | Some t \<Rightarrow> asked t) (Fin 0) (Inl (rpc_failure e)) = Respond st body"
    using assms(3) by (simp add: server_step_def finish_metrics_def)
  moreover have "rpc_failure e \<noteq> TimeoutErr" by (simp add: rpc_failure_def)
  ultimately show ?thesis using metrics_response_status by blast
next
  case (RpcTimeout rid)
  then have "metrics_response (case dget (tasks s) rid of None \<Rightarrow> PNone | Some t \<Rightarrow> asked t) (Fin 0) (Inl (rpc_failure TimeoutErr)) = Respond st body"
    using assms(3) by (simp add: server_step_def finish_metrics_def)
  moreover have "rpc_failure TimeoutErr \<noteq> TimeoutErr" by (simp add: rpc_failure_def)
  ultimately show ?thesis using metrics_response_status by blast
qed (use assms(3) in \<open>auto simp: server_step_def handle_devices_def Let_def split: option.splits\<close>)

lemma finish_metrics_ends:
  assumes "wf_dict (tasks s)" "wf_dict (pending_requests s)"
  shows "(\<exists>st body. snd (finish_metrics rid now r s) = Respond st body)
    \<and> \<not> dhas (tasks (fst (finish_metrics rid now r s))) rid
    \<and> \<not> dhas (pending_requests (fst (finish_metrics rid now r s))) rid"
  using assms
  by (auto simp: finish_metrics_def metrics_response_def dhas_def dget_ddel split: sum.split)

text \<open>A message with the id of a waiting request, on an identified connection, is its answer.\<close>

lemma answer_dispatched:
  assumes "conns s w = Some c" "truthy (device_id c)" "dget m ''id'' = Some (PStr rid)"
    and "dget (pending_requests s) rid = Some Waiting"
  shows "fst (server_step (Message w (Some (PDict m))) s)
    = s\<lparr>pending_requests := dset (pending_requests s) rid (Done (PDict m))\<rparr>"
proof -
  have "truthy (PDict m)" using assms(3) by (cases m) (auto simp: truthy_def)
  moreover have "canon (PStr rid) = Some (PStr rid)" by (simp add: canon_def)
  ultimately show ?thesis using assms
    by (simp add: server_step_def handle_message_def parse_rpc_message_def dispatch_def
        dispatch_rpc_response_def py_in_def py_item_def dhas_def)
qed

text \<open>(C37) Once its frame is sent, a request can always end, by its answer or by the limit of five
  seconds, and leaves neither a task nor a future behind. When an identified connection delivers a
  message with its id before that, the limit can no longer end it and it responds with the metrics
  of that message.\<close>

theorem requests_can_end:
  assumes "reachable s" "dget (tasks s) rid = Some t" "phase t = Awaiting"
  shows "(\<exists>ev \<in> {RpcTimeout rid, RpcAnswer rid now}. enabled ev s
      \<and> (\<exists>st body. snd (server_step ev s) = Some (Respond st body))
      \<and> \<not> dhas (tasks (fst (server_step ev s))) rid
      \<and> \<not> dhas (pending_requests (fst (server_step ev s))) rid)
    \<and> (\<forall>w c m result. conns s w = Some c \<and> truthy (device_id c)
        \<and> dget (pending_requests s) rid = Some Waiting
        \<and> dget m ''id'' = Some (PStr rid) \<and> dget m ''result'' = Some result \<longrightarrow>
      (let s' = fst (server_step (Message w (Some (PDict m))) s) in
        \<not> enabled (RpcTimeout rid) s' \<and> enabled (RpcAnswer rid now) s'
        \<and> snd (server_step (RpcAnswer rid now) s') = Some (Respond 200 (PDict [(''device_id'', asked t),
            (''metrics'', PDict (extract_metrics_from_rpc_result result)), (''timestamp'', PFloat now)]))))"
    (is "?ends \<and> ?answered")
proof
  have wf: "wf_dict (tasks s)" "wf_dict (pending_requests s)" and "rid \<in> set (dkeys (pending_requests s))"
    using reachable_inv [OF assms(1)] assms(2)
    by (auto simp: server_inv_def requests_tracked_def simp flip: dhas_iff) (simp add: dhas_def)
  then obtain f where f: "dget (pending_requests s) rid = Some f" using dget_None_iff by (metis not_None_eq)
  show ?ends
  proof (cases f)
    case Waiting
    then show ?thesis using f assms(2,3) finish_metrics_ends [OF wf]
      by (intro bexI [of _ "RpcTimeout rid"]) (auto simp: enabled_def in_phase_def server_step_def)
  next
    case (Done m)
    then show ?thesis using f assms(2,3) finish_metrics_ends [OF wf]
      by (intro bexI [of _ "RpcAnswer rid now"]) (auto simp: enabled_def in_phase_def server_step_def)
  qed
  show ?answered
    using assms(2,3) answer_dispatched
    by (auto simp: enabled_def in_phase_def Let_def dict_simps server_step_def [of "RpcAnswer rid now"]
        finish_metrics_def metrics_response_def py_in_def py_item_def dhas_def)
qed

section \<open>Reconnecting\<close>

lemma later_messages_keep_connections:
  "conns s w = Some c \<Longrightarrow> truthy (device_id c) \<Longrightarrow>
    connections (handle_message w c json s) = connections s \<and> conns (handle_message w c json s) = conns s"
  by (simp add: handle_message_def Let_def)

text \<open>(C38) When a device reconnects before its old connection is seen to close, the closing of the old
  connection removes the registration of the new one, and no further message of the new connection
  registers it again: the device stays unknown to \<open>/metrics\<close> until it connects once more.\<close>

theorem stale_close_unregisters:
  assumes "conns s w\<^sub>1 = Some c\<^sub>1" "conns s w\<^sub>2 = Some c\<^sub>2" "w\<^sub>1 \<noteq> w\<^sub>2"
    and "truthy (device_id c\<^sub>1)" "truthy (device_id c\<^sub>2)" "canon (device_id c\<^sub>1) = canon (device_id c\<^sub>2)"
    and "wf_registry (connections s)" "canon (device_id c\<^sub>2) \<noteq> None"
  shows "kget (connections (run (Close w\<^sub>1 # map (Message w\<^sub>2) msgs) s)) (device_id c\<^sub>2) = None"
proof -
  let ?t = "fst (server_step (Close w\<^sub>1) s)"
  have t: "conns ?t w\<^sub>2 = Some c\<^sub>2" "kget (connections ?t) (device_id c\<^sub>2) = None"
    using assms by (auto simp: server_step_def handle_close_def unregister_def kget_kdel Let_def)
  have "conns (run (map (Message w\<^sub>2) msgs) u) w\<^sub>2 = Some c\<^sub>2
      \<and> connections (run (map (Message w\<^sub>2) msgs) u) = connections u" if "conns u w\<^sub>2 = Some c\<^sub>2" for u
    using that
  proof (induction msgs arbitrary: u)
    case (Cons m ms)
    have "conns (fst (server_step (Message w\<^sub>2 m) u)) w\<^sub>2 = Some c\<^sub>2"
      "connections (fst (server_step (Message w\<^sub>2 m) u)) = connections u"
      using later_messages_keep_connections [OF Cons.prems assms(5)] Cons.prems by (simp_all add: server_step_def)
    with Cons.IH show ?case by simp
  qed simp
  with t show ?thesis by simp
qed

section \<open>What the extraction exports\<close>

definition shelly_update :: "(string \<Rightarrow> bool) \<Rightarrow> metrics \<Rightarrow> metrics \<Rightarrow> bool" where
  "shelly_update K m m' = ((all_entries (source_entry ''shelly_'') m \<longrightarrow> all_entries (source_entry ''shelly_'') m')
     \<and> (\<forall>k. \<not> K k \<longrightarrow> dget m' k = dget m k))"

lemma shelly_update_refl [simp]: "shelly_update K m m"
  by (simp add: shelly_update_def)

lemma shelly_update_trans: "shelly_update K m n \<Longrightarrow> shelly_update K n p \<Longrightarrow> shelly_update K m p"
  by (simp add: shelly_update_def)

definition extracts :: "(string \<Rightarrow> bool) \<Rightarrow> extraction \<Rightarrow> bool" where
  "extracts K f = (\<forall>m. shelly_update K m (fst (f m)))"

lemma extracts_skip: "extracts K skip"
  by (simp add: extracts_def skip_def)

lemma extracts_put:
  assumes "K k" "startswith k ''shelly_''" "\<And>v. r = Inr v \<Longrightarrow> is_number v"
  shows "extracts K (put k r)"
proof (cases r)
  case (Inr v)
  with assms have "source_entry ''shelly_'' k v" by (simp add: source_entry_def)
  then have "all_entries (source_entry ''shelly_'') m \<Longrightarrow> all_entries (source_entry ''shelly_'') (dset m k v)" for m
    by (rule all_entries_dset [rotated])
  with assms(1) Inr show ?thesis by (auto simp: extracts_def put_def dict_simps shelly_update_def)
qed (simp add: extracts_def put_def)

lemma extracts_after: "extracts K f \<Longrightarrow> extracts K g \<Longrightarrow> extracts K (after f g)"
  by (auto simp: extracts_def after_def split: prod.split option.split)
    (metis fst_conv shelly_update_trans)+

lemma extracts_sequence: "list_all (extracts K) fs \<Longrightarrow> extracts K (sequence fs)"
  unfolding sequence_def by (induction fs) (auto intro: extracts_skip extracts_after)

lemma extracts_with_value:
  assumes "\<And>x. extracts K (f x)" shows "extracts K (with_value r f)"
proof (cases r)
  case (Inl e)
  then show ?thesis by (simp add: extracts_def with_value_def)
next
  case (Inr x)
  then show ?thesis using assms [of x] by (simp add: extracts_def with_value_def)
qed

lemma extracts_if: "extracts K f \<Longrightarrow> extracts K g \<Longrightarrow> extracts K (if b then f else g)"
  by simp

lemma extracts_present: "(\<And>v. extracts K (f v)) \<Longrightarrow> extracts K (if_present c n f)"
  unfolding if_present_def by (intro extracts_with_value extracts_if extracts_skip)

lemma float_of_number: "float_of v = Inr x \<Longrightarrow> is_number x"
  by (auto simp: float_of_def res_simps)

lemma extracts_float_field: "K key \<Longrightarrow> startswith key ''shelly_'' \<Longrightarrow> extracts K (float_field c n key)"
  unfolding float_field_def by (intro extracts_present extracts_put float_of_number)

lemma extracts_minutes:
  assumes "\<And>i. K (minute_key prefix i)" "startswith prefix ''shelly_''"
  shows "extracts K (minutes c prefix)"
proof -
  have k: "startswith (minute_key prefix i) ''shelly_''" for i
    using assms(2) by (auto simp: minute_key_def startswith_iff)
  have "extracts K (sequence (map (\<lambda>(i, x). put (minute_key prefix i) (float_of x)) ys))" for ys
    by (rule extracts_sequence) (auto simp: list_all_iff intro!: extracts_put assms k float_of_number)
  then have "extracts K (case v of
      PList xs \<Rightarrow> sequence (map (\<lambda>(i, x). put (minute_key prefix i) (float_of x)) (enum (take 3 xs)))
    | _ \<Rightarrow> skip)" for v
    by (cases v) (simp_all add: extracts_skip)
  then show ?thesis unfolding minutes_def by (rule extracts_present)
qed

lemma extracts_energy:
  assumes "K tot" "K ts" "\<And>i. K (minute_key prefix i)" "startswith tot ''shelly_''"
    "startswith ts ''shelly_''" "startswith prefix ''shelly_''"
  shows "extracts K (energy_field c n tot prefix ts)"
proof -
  have "extracts K (sequence [float_field e ''total'' tot, minutes e prefix,
        if_present e ''minute_ts'' (\<lambda>v. put ts (rmap PInt (py_int v)))])" for e
    using assms
    by (auto simp: res_simps intro!: extracts_sequence extracts_float_field extracts_minutes
        extracts_present extracts_put)
  then show ?thesis unfolding energy_field_def by (intro extracts_present extracts_if extracts_skip)
qed

lemma extracts_temperatures:
  assumes "K ''shelly_temperature_celsius''" "K ''shelly_temperature_fahrenheit''"
  shows "extracts K (temperatures c)"
proof -
  have "extracts K (temperature_field t n key)" if "K key" "startswith key ''shelly_''" for t n key
    unfolding temperature_field_def
    by (intro extracts_present extracts_if extracts_skip extracts_put float_of_number that)
  with assms show ?thesis unfolding temperatures_def
    by (intro extracts_present extracts_if extracts_skip extracts_sequence) simp
qed

lemma extracts_errors:
  assumes "K ''shelly_errors_count''" "\<And>t. t \<in> set error_types \<Longrightarrow> K (''shelly_error_'' @ t)"
  shows "extracts K (errors_field c)"
proof -
  have num: "rmap flag r = Inr x \<Longrightarrow> is_number x" for r x by (auto simp: res_simps flag_def)
  have "extracts K (sequence (put ''shelly_errors_count'' (Inr (PInt n))
         # map (\<lambda>t. put (''shelly_error_'' @ t) (rmap flag (py_in t v))) error_types))" for n v
    using assms by (intro extracts_sequence) (auto simp: list_all_iff intro!: extracts_put dest: num)
  then have "extracts K (case v of
      PList xs \<Rightarrow> sequence (put ''shelly_errors_count'' (Inr (PInt (int (length xs))))
         # map (\<lambda>t. put (''shelly_error_'' @ t) (rmap flag (py_in t v))) error_types)
    | _ \<Rightarrow> skip)" for v
    by (cases v) (simp_all add: extracts_skip)
  then show ?thesis unfolding errors_field_def by (rule extracts_present)
qed

lemma extracts_output: "K ''shelly_power_switch_output'' \<Longrightarrow> extracts K
    (if_present c ''output'' (\<lambda>v. put ''shelly_power_switch_output'' (Inr (flag (truthy v)))))"
  by (intro extracts_present extracts_put) (auto simp: flag_def)

lemma extraction_steps_extract: "list_all (extracts (\<lambda>k. True)) (extraction_steps result)"
  unfolding extraction_steps_def
  by (simp add: extracts_output extracts_float_field extracts_energy extracts_temperatures extracts_errors)

text \<open>(C39) Whatever the device answers, the extraction returns: a dictionary with distinct names in
  the \<open>shelly_\<close> namespace and numbers as values, also after an exception in the middle.\<close>

theorem extracted_metrics_valid: "all_entries (source_entry ''shelly_'') (extract_metrics_from_rpc_result result)"
  using extracts_sequence [OF extraction_steps_extract, of result]
  by (simp add: extract_metrics_from_rpc_result_def extracts_def shelly_update_def)

lemma minute_key_other: "minute_key ''shelly_energy_minute_'' i \<noteq> ''shelly_power_total_watts''"
  "minute_key ''shelly_energy_returned_minute_'' i \<noteq> ''shelly_power_total_watts''"
  by (simp_all add: minute_key_def)

text \<open>(C40) The power the plug reports is exported as it is: when the result has an \<open>apower\<close> that is
  a number, the metrics hold that number, whatever the fields after it are.\<close>

theorem reported_power_exported:
  assumes "dget d ''apower'' = Some v" "py_float v = Inr x"
  shows "dget (extract_metrics_from_rpc_result (PDict d)) ''shelly_power_total_watts'' = Some (PFloat x)"
proof -
  define K where "K = (\<lambda>k. k \<noteq> ''shelly_power_total_watts'')"
  let ?steps = "extraction_steps (PDict d)"
  have "list_all (extracts K) (drop 2 ?steps)"
    using minute_key_other unfolding extraction_steps_def
    by (simp add: extracts_float_field extracts_energy extracts_temperatures extracts_errors K_def error_types_def)
  then have rest: "extracts K (sequence (drop 2 ?steps))" by (rule extracts_sequence)
  have steps: "sequence ?steps = after (?steps ! 0) (after (?steps ! 1) (sequence (drop 2 ?steps)))"
    by (simp add: sequence_def extraction_steps_def)
  obtain m where out: "(?steps ! 0) [] = (m, None)"
    by (cases "dget d ''output''") (auto simp: extraction_steps_def if_present_def with_value_def
        py_in_def py_item_def dhas_def put_def skip_def)
  have pow: "(?steps ! 1) m = (dset m ''shelly_power_total_watts'' (PFloat x), None)"
    using assms by (simp add: extraction_steps_def float_field_def if_present_def with_value_def py_in_def
        py_item_def dhas_def put_def float_of_def)
  have "extract_metrics_from_rpc_result (PDict d)
      = fst (sequence (drop 2 ?steps) (dset m ''shelly_power_total_watts'' (PFloat x)))"
    using out pow by (simp add: extract_metrics_from_rpc_result_def steps after_def)
  then show ?thesis using rest by (simp add: extracts_def shelly_update_def K_def dict_simps)
qed

section \<open>Witnesses\<close>

lemma reachable_run: "reachable s \<Longrightarrow> all_enabled es s \<Longrightarrow> reachable (run es s)"
  by (induction es arbitrary: s) (auto intro: reachable.step)

abbreviation (input) hello :: "pyval option" where
  "hello \<equiv> Some (PDict [(''src'', PStr ''plug''), (''method'', PStr ''NotifyStatus'')])"

abbreviation (input) sample_run :: "event list" where
  "sample_run \<equiv> [Connect 1 ''10.0.0.7'', Message 1 hello, GetMetrics ''r'', SendDone ''r'',
     Message 1 (Some (PDict [(''id'', PStr ''r''), (''result'', PDict [(''apower'', PInt 5)])]))]"

lemma sample_run_enabled: "all_enabled sample_run new_server"
  by code_simp

lemmas sample_reachable = reachable_run [OF reachable.start sample_run_enabled]

lemma sample_state: "connections (run sample_run new_server) = [(PStr ''plug'', 1)]"
  "dkeys (tasks (run sample_run new_server)) = [''r'']"
  "dget (pending_requests (run sample_run new_server)) ''r''
    = Some (Done (PDict [(''id'', PStr ''r''), (''result'', PDict [(''apower'', PInt 5)])]))"
  "dget (tasks (run sample_run new_server)) ''r'' = Some \<lparr> asked = PStr ''plug'', phase = Awaiting \<rparr>"
  by code_simp+

lemma registered_connections_live_witness:
  "registered_live (run sample_run new_server) \<and> connections (run sample_run new_server) = [(PStr ''plug'', 1)]"
  using registered_connections_live [OF sample_reachable] sample_state(1) by blast

lemma futures_belong_to_requests_witness: "set (dkeys (pending_requests (run sample_run new_server))) = {''r''}"
  using futures_belong_to_requests [OF sample_reachable] sample_state(2) by (simp only: list.set)

lemma requests_can_end_witness: "\<exists>ev st body. ev \<in> {RpcTimeout ''r'', RpcAnswer ''r'' (Fin 9)}
    \<and> enabled ev (run sample_run new_server)
    \<and> snd (server_step ev (run sample_run new_server)) = Some (Respond st body)"
  using requests_can_end [OF sample_reachable sample_state(4), of "Fin 9"]
  by (simp only: task.simps simp_thms) blast

lemma response_statuses_witness: "\<exists>s' st body. server_step (RpcAnswer ''r'' (Fin 9)) (run sample_run new_server)
    = (s', Some (Respond st body)) \<and> st \<in> {200, 404, 500}"
proof -
  have en: "enabled (RpcAnswer ''r'' (Fin 9)) (run sample_run new_server)"
    using sample_state(3,4)
    by (simp only: enabled_def in_phase_def event.case option.case future.case task.simps simp_thms)
  have "\<exists>s' body. server_step (RpcAnswer ''r'' (Fin 9)) (run sample_run new_server) = (s', Some (Respond 200 body))"
    using sample_state(3)
    by (simp only: server_step_def event.case option.case future.case finish_metrics_def map_prod_simp id_apply)
      (simp add: metrics_response_def py_in_def py_item_def dhas_def dict_simps)
  then show ?thesis using response_statuses [OF sample_reachable en] by blast
qed

abbreviation (input) reconnect_run :: "event list" where
  "reconnect_run \<equiv> [Connect 1 ''10.0.0.7'', Message 1 hello, Connect 2 ''10.0.0.7'', Message 2 hello]"

lemma reconnect_state:
  "conns (run reconnect_run new_server) 1 = Some \<lparr> device_id = PStr ''plug'', remote_ip = ''10.0.0.7'' \<rparr>"
  "conns (run reconnect_run new_server) 2 = Some \<lparr> device_id = PStr ''plug'', remote_ip = ''10.0.0.7'' \<rparr>"
  "connections (run reconnect_run new_server) = [(PStr ''plug'', 2)]"
  "truthy (PStr ''plug'')" "canon (PStr ''plug'') \<noteq> None"
  by code_simp+

lemma stale_close_unregisters_witness:
  "kget (connections (run [Close 1, Message 2 hello] (run reconnect_run new_server))) (PStr ''plug'') = None"
  using stale_close_unregisters [OF reconnect_state(1,2), of "[hello]"] reconnect_state(3,4,5)
  by (simp add: wf_registry_def)

lemma reported_power_exported_witness:
  "dget (extract_metrics_from_rpc_result (PDict [(''apower'', PInt 5), (''voltage'', PNone)]))
    ''shelly_power_total_watts'' = Some (PFloat (Fin 5))"
proof -
  have "py_float (PInt 5) = Inr (Fin 5)" by code_simp
  then show ?thesis by (intro reported_power_exported) (simp_all add: dict_simps)
qed

end
