(* ===== verification/ConfigLoader.thy ===== *)
theory ConfigLoader
  imports Http
begin

text \<open>
  \<open>config_loader.py\<close>: where the exporter's configuration comes from. The outside is the record
  \<open>surroundings\<close>: the environment variables, the answers of the config server by attempt, the file
  \<open>config.yaml\<close> as \<open>yaml.safe_load\<close> reads it, the host name and \<open>json.loads\<close>. \<open>load\<close> gives the
  configuration, none, or an exception, and the actions it made. Saving is a sequence of file
  operations, so that a crash and a concurrent save can fall between any two of them.
\<close>

section \<open>Surroundings\<close>

record surroundings =
  getenv :: "string \<Rightarrow> string option"
  server_answer :: "nat \<Rightarrow> http_result"
  local_yaml :: "pyval res"
  hostname :: string
  json_loads :: "string \<Rightarrow> pyval option"

definition getenv_or :: "surroundings \<Rightarrow> string \<Rightarrow> string \<Rightarrow> string" where
  "getenv_or w k d = (case getenv w k of None \<Rightarrow> d | Some v \<Rightarrow> v)"

definition env_int :: "surroundings \<Rightarrow> string \<Rightarrow> string \<Rightarrow> int res" where
  "env_int w k d = py_int_of_str (getenv_or w k d)"

text \<open>The object: its settings are read once.\<close>

record loader =
  config_server_url :: string
  local_config_path :: string
  request_timeout :: int

definition new_config_loader :: "surroundings \<Rightarrow> loader res" where
  "new_config_loader w = rmap (\<lambda>t. \<lparr> config_server_url = getenv_or w ''CONFIG_SERVER_URL'' ''http://localhost:8080'',
       local_config_path = getenv_or w ''LOCAL_CONFIG_PATH'' ''./config.yaml'', request_timeout = t \<rparr>)
     (env_int w ''CONFIG_TIMEOUT'' ''5'')"

section \<open>Loading\<close>

text \<open>A request to the server, a pause, a background sync of a configuration.\<close>

datatype action = Fetch nat | Sleep int | SyncToServer pyval

definition fetch_from_server :: "surroundings \<Rightarrow> nat \<Rightarrow> fetch" where
  "fetch_from_server w attempt = fetch_json (server_answer w attempt)"

text \<open>What the loop does after an attempt.\<close>

datatype verdict = Return pyval | GiveUp | Retry

definition judge :: "fetch \<Rightarrow> verdict" where
  "judge r = (case r of
      Inr config \<Rightarrow> if truthy config then Return config else Retry
    | Inl (HTTPError status) \<Rightarrow> GiveUp
    | Inl ConnectionError \<Rightarrow> Retry
    | Inl Timeout \<Rightarrow> Retry
    | Inl OtherError \<Rightarrow> GiveUp)"

text \<open>The loop over the attempts, with the attempts left: the server's configuration or none, or
  the exception of a negative pause, and the actions.\<close>

fun fetch_loop :: "surroundings \<Rightarrow> int \<Rightarrow> nat \<Rightarrow> nat \<Rightarrow> pyval option res \<times> action list" where
  "fetch_loop w interval attempt 0 = (Inr None, [])"
| "fetch_loop w interval attempt (Suc left) =
     (case judge (fetch_from_server w attempt) of
        Return config \<Rightarrow> (Inr (Some config), [Fetch attempt])
      | GiveUp \<Rightarrow> (Inr None, [Fetch attempt])
      | Retry \<Rightarrow>
          if left = 0 then (Inr None, [Fetch attempt])
          else if interval < 0 then (Inl (ValueError ''sleep length must be non-negative''), [Fetch attempt])
          else (let (r, acts) = fetch_loop w interval (Suc attempt) left
            in (r, Fetch attempt # Sleep interval # acts)))"

definition load_local_config :: "surroundings \<Rightarrow> pyval res" where
  "load_local_config w = rbind (local_yaml w) (\<lambda>config.
     if truthy config then Inr config else Inl (ValueError ''Local config file is empty''))"

definition generate_default_config :: "surroundings \<Rightarrow> pyval option res" where
  "generate_default_config w =
     rbind (case json_loads w (getenv_or w ''DEVICE_TYPE_MAP'' ''{}'') of
         None \<Rightarrow> Inl (ValueError ''not JSON'') | Some v \<Rightarrow> Inr v) (\<lambda>device_type_map.
     rbind (py_get device_type_map (hostname w) PNone) (\<lambda>mapped.
     let device_type = py_or mapped (case getenv w ''DEVICE_TYPE'' of None \<Rightarrow> PNone | Some s \<Rightarrow> PStr s) in
     if \<not> truthy device_type then Inr None
     else rbind (env_int w ''METRICS_PORT'' ''9102'') (\<lambda>port.
       rmap (\<lambda>reload_port. Some (PDict [(''device_type'', device_type), (''port'', PInt port),
           (''reload_port'', PInt reload_port)]))
         (env_int w ''RELOAD_PORT'' ''9101''))))"

text \<open>The steps after the server: the local file, then the environment.\<close>

definition load_fallback :: "surroundings \<Rightarrow> pyval option res \<times> action list" where
  "load_fallback w = (case load_local_config w of
      Inr config \<Rightarrow> (Inr (Some config), [SyncToServer config])
    | Inl e \<Rightarrow> (case generate_default_config w of
        Inl e' \<Rightarrow> (Inl e', [])
      | Inr None \<Rightarrow> (Inr None, [])
      | Inr (Some config) \<Rightarrow> (Inr (Some config), [SyncToServer config])))"

definition load :: "surroundings \<Rightarrow> pyval option res \<times> action list" where
  "load w = (case rbind (env_int w ''CONFIG_MAX_RETRIES'' ''6'') (\<lambda>n.
       rmap (\<lambda>i. (n, i)) (env_int w ''CONFIG_RETRY_INTERVAL'' ''10'')) of
      Inl e \<Rightarrow> (Inl e, [])
    | Inr (max_retries, interval) \<Rightarrow>
        (case fetch_loop w interval 0 (nat max_retries) of
          (Inl e, acts) \<Rightarrow> (Inl e, acts)
        | (Inr (Some config), acts) \<Rightarrow> (Inr (Some config), acts)
        | (Inr None, acts) \<Rightarrow> (let (r, more) = load_fallback w in (r, acts @ more))))"

section \<open>Syncing\<close>

text \<open>\<open>_sync_worker\<close>: the request it makes, and what it logs; nothing leaves it.\<close>

datatype sync_log = Synced | SyncRefused nat | SyncTimeout | SyncConnectionError | SyncError

definition sync_worker :: "http_result \<Rightarrow> sync_log" where
  "sync_worker r = (case r of
      HttpTimeout \<Rightarrow> SyncTimeout
    | HttpConnectionError \<Rightarrow> SyncConnectionError
    | HttpFailure e \<Rightarrow> SyncError
    | HttpResponse status body \<Rightarrow> if http_ok status then Synced else SyncRefused status)"

section \<open>Saving\<close>

text \<open>
  Files as names of inodes: \<open>open(tmp, 'w')\<close> truncates the file of that name or makes one, a
  write goes to the open file, \<open>os.replace\<close> renames. The text of an inode is the YAML text, or a
  part of it while it is being written.
\<close>

record disk =
  tmp_file :: "nat option"
  local_file :: "nat option"
  texts :: "nat \<Rightarrow> string"
  next_inode :: nat

definition local_text :: "disk \<Rightarrow> string option" where
  "local_text d = map_option (texts d) (local_file d)"

definition open_tmp :: "disk \<Rightarrow> nat \<times> disk" where
  "open_tmp d = (case tmp_file d of
      Some i \<Rightarrow> (i, d\<lparr>texts := (texts d)(i := [])\<rparr>)
    | None \<Rightarrow> (next_inode d, d\<lparr>tmp_file := Some (next_inode d),
        texts := (texts d)(next_inode d := []), next_inode := Suc (next_inode d)\<rparr>))"

definition write_to :: "nat \<Rightarrow> string \<Rightarrow> disk \<Rightarrow> disk" where
  "write_to i t d = d\<lparr>texts := (texts d)(i := t)\<rparr>"

definition replace_tmp :: "disk \<Rightarrow> disk res" where
  "replace_tmp d = (case tmp_file d of
      None \<Rightarrow> Inl OSErr
    | Some i \<Rightarrow> Inr (d\<lparr>tmp_file := None, local_file := Some i\<rparr>))"

definition remove_tmp :: "disk \<Rightarrow> disk" where
  "remove_tmp d = d\<lparr>tmp_file := None\<rparr>"

text \<open>How a save goes: where the buffered dump is flushed on the way, and what fails: opening, the
  dump (after a part of the text), the rename, the removal of the temporary file in the handler.\<close>

record faults =
  open_fails :: bool
  flushes :: "nat list"
  dump_fails :: "nat option"
  replace_fails :: bool
  remove_fails :: bool

text \<open>\<open>save_to_local\<close> for the text \<open>yaml.dump\<close> gives: the states of the disk the save goes through,
  oldest first and without the initial one, and whether it returns true.\<close>

definition save_cleanup :: "faults \<Rightarrow> disk \<Rightarrow> disk list" where
  "save_cleanup f d = (if tmp_file d \<noteq> None \<and> \<not> remove_fails f then [remove_tmp d] else [])"

definition dump_states :: "faults \<Rightarrow> nat \<Rightarrow> string \<Rightarrow> disk \<Rightarrow> disk list" where
  "dump_states f i text d = map (\<lambda>k. write_to i (take k text) d) (flushes f)"

definition save_states :: "faults \<Rightarrow> string \<Rightarrow> disk \<Rightarrow> disk list \<times> bool" where
  "save_states f text d =
     (if open_fails f then (save_cleanup f d, False)
      else let (i, d1) = open_tmp d; ds = d1 # dump_states f i text d1 in
        case dump_fails f of
          Some k \<Rightarrow> (let d2 = write_to i (take k text) d1 in (ds @ d2 # save_cleanup f d2, False))
        | None \<Rightarrow>
            (let d2 = write_to i text d1 in
             case if replace_fails f then Inl OSErr else replace_tmp d2 of
               Inl e \<Rightarrow> (ds @ d2 # save_cleanup f d2, False)
             | Inr d3 \<Rightarrow> (ds @ [d2, d3], True)))"

definition save_to_local :: "faults \<Rightarrow> string \<Rightarrow> disk \<Rightarrow> disk \<times> bool" where
  "save_to_local f text d = (let (ds, ok) = save_states f text d in (last (d # ds), ok))"

text \<open>The same operations of several threads, one at a time: each thread keeps the inode it opened.\<close>

datatype save_op = OpenTmp | WriteText string | ReplaceTmp

definition thread_step :: "nat \<times> save_op \<Rightarrow> disk \<times> (nat \<Rightarrow> nat) \<Rightarrow> disk \<times> (nat \<Rightarrow> nat)" where
  "thread_step op st = (let (d, opened) = st in case op of
      (t, OpenTmp) \<Rightarrow> (let (i, d') = open_tmp d in (d', opened(t := i)))
    | (t, WriteText s) \<Rightarrow> (write_to (opened t) s d, opened)
    | (t, ReplaceTmp) \<Rightarrow> (case replace_tmp d of Inl e \<Rightarrow> (d, opened) | Inr d' \<Rightarrow> (d', opened)))"

end
