(* ===== verification/ConfigLoaderProps.thy ===== *)
theory ConfigLoaderProps
  imports ConfigLoader
begin

text \<open>
  The configuration loader: the order of its sources as a specification that \<open>load\<close> refines, the
  bound on its requests, the atomicity of a save at every point of it, the round trip of a saved
  configuration, and the interleaving of two saves that breaks the atomicity.
\<close>

section \<open>The order of the sources\<close>

text \<open>The specification: the first attempt that decides, decides.\<close>

definition server_config :: "surroundings \<Rightarrow> nat \<Rightarrow> pyval option" where
  "server_config w n = (case find (\<lambda>k. judge (fetch_from_server w k) \<noteq> Retry) [0..<n] of
      None \<Rightarrow> None
    | Some k \<Rightarrow> (case judge (fetch_from_server w k) of Return c \<Rightarrow> Some c | _ \<Rightarrow> None))"

definition load_spec :: "surroundings \<Rightarrow> nat \<Rightarrow> pyval option res" where
  "load_spec w n = (case server_config w n of
      Some c \<Rightarrow> Inr (Some c)
    | None \<Rightarrow> (case load_local_config w of Inr c \<Rightarrow> Inr (Some c) | Inl e \<Rightarrow> generate_default_config w))"

lemma judge_Return: "judge r = Return c \<longleftrightarrow> r = Inr c \<and> truthy c"
  by (auto simp: judge_def split: sum.splits fetch_error.splits)

lemma find_upt: "find P [k..<k + Suc n] = (if P k then Some k else find P [Suc k..<Suc k + n])"
  by (simp add: upt_rec [of k] del: upt_Suc)

lemma fetch_loop_result:
  assumes "0 \<le> interval"
  shows "fst (fetch_loop w interval k n) = Inr (case find (\<lambda>k. judge (fetch_from_server w k) \<noteq> Retry) [k..<k + n] of
      None \<Rightarrow> None
    | Some k \<Rightarrow> (case judge (fetch_from_server w k) of Return c \<Rightarrow> Some c | _ \<Rightarrow> None))"
proof (induction n arbitrary: k)
  case (Suc n)
  show ?case unfolding find_upt using assms Suc [of "Suc k"]
    by (cases "judge (fetch_from_server w k)"; cases "n = 0") (simp_all add: split_def Let_def del: upt_Suc)
qed simp

lemma load_fallback_result:
  "fst (load_fallback w) = (case load_local_config w of Inr c \<Rightarrow> Inr (Some c) | Inl e \<Rightarrow> generate_default_config w)"
  by (auto simp: load_fallback_def split: sum.split option.split)

lemma load_is_spec:
  assumes "env_int w ''CONFIG_MAX_RETRIES'' ''6'' = Inr n" "env_int w ''CONFIG_RETRY_INTERVAL'' ''10'' = Inr i"
    and "0 \<le> i"
  shows "fst (load w) = load_spec w (nat n)"
proof -
  obtain r acts where f: "fetch_loop w i 0 (nat n) = (r, acts)" by fastforce
  then have "r = Inr (server_config w (nat n))"
    using fetch_loop_result [OF assms(3), of w 0 "nat n"] by (simp add: server_config_def)
  then show ?thesis using assms f load_fallback_result [of w]
    by (auto simp: load_def load_spec_def split_def Let_def split: option.split)
qed

text \<open>(C7) With well-formed retry settings \<open>load\<close> is its specification: the configuration of the
  first server answer that is not a connection problem or empty, else the local file's, else the one
  made from the environment.\<close>

theorem load_refines_spec:
  assumes "env_int w ''CONFIG_MAX_RETRIES'' ''6'' = Inr n" "env_int w ''CONFIG_RETRY_INTERVAL'' ''10'' = Inr i"
    and "0 \<le> i"
  shows "fst (load w) = load_spec w (nat n)"
  using assms by (rule load_is_spec)

text \<open>A loaded configuration is never empty, whatever the source.\<close>

theorem loaded_config_true:
  assumes "fst (load w) = Inr (Some c)"
  shows "truthy c"
proof -
  have gen: "generate_default_config w = Inr (Some c) \<Longrightarrow> truthy c" for c
    by (auto simp: generate_default_config_def res_simps Let_def truthy_def split: if_splits)
  have loc: "load_local_config w = Inr c \<Longrightarrow> truthy c" for c
    by (auto simp: load_local_config_def res_simps split: if_splits)
  have srv: "fst (fetch_loop w i k n) = Inr (Some c) \<Longrightarrow> truthy c" for i k n c
    by (induction w i k n rule: fetch_loop.induct)
      (auto simp: judge_Return Let_def split_def split: verdict.splits if_splits)
  show ?thesis using assms gen loc srv
    by (auto simp: load_def load_fallback_def Let_def split_def split: sum.splits option.splits prod.splits)
qed

section \<open>Requests and pauses\<close>

fun requests :: "action list \<Rightarrow> nat list" where
  "requests [] = []"
| "requests (Fetch k # acts) = k # requests acts"
| "requests (_ # acts) = requests acts"

fun pauses :: "action list \<Rightarrow> int list" where
  "pauses [] = []"
| "pauses (Sleep i # acts) = i # pauses acts"
| "pauses (_ # acts) = pauses acts"

lemma requests_append [simp]: "requests (xs @ ys) = requests xs @ requests ys"
  by (induction xs rule: requests.induct) auto

lemma pauses_append [simp]: "pauses (xs @ ys) = pauses xs @ pauses ys"
  by (induction xs rule: pauses.induct) auto

lemma fetch_loop_actions:
  assumes "0 \<le> i"
  shows "\<exists>m \<le> n. requests (snd (fetch_loop w i k n)) = [k..<k + m]
    \<and> pauses (snd (fetch_loop w i k n)) = replicate (m - 1) i
    \<and> (\<forall>j. k \<le> j \<and> Suc j < k + m \<longrightarrow> judge (fetch_from_server w j) = Retry)
    \<and> (m < n \<longrightarrow> 0 < m \<and> judge (fetch_from_server w (k + m - 1)) \<noteq> Retry)"
proof (induction n arbitrary: k)
  case (Suc n)
  consider "judge (fetch_from_server w k) \<noteq> Retry \<or> n = 0"
    | "judge (fetch_from_server w k) = Retry" "n \<noteq> 0" by linarith
  then show ?case
  proof cases
    case 1
    then have "snd (fetch_loop w i k (Suc n)) = [Fetch k]"
      by (cases "judge (fetch_from_server w k)") (auto simp: Let_def)
    then show ?thesis using 1 by (intro exI [of _ 1]) auto
  next
    case 2
    from Suc [of "Suc k"] obtain m where m: "m \<le> n"
      "requests (snd (fetch_loop w i (Suc k) n)) = [Suc k..<Suc k + m]"
      "pauses (snd (fetch_loop w i (Suc k) n)) = replicate (m - 1) i"
      "\<forall>j. Suc k \<le> j \<and> Suc j < Suc k + m \<longrightarrow> judge (fetch_from_server w j) = Retry"
      "m < n \<longrightarrow> 0 < m \<and> judge (fetch_from_server w (Suc k + m - 1)) \<noteq> Retry" by blast
    have "1 \<le> m" using m(1,5) 2(2) by (cases "m < n") auto
    then have "replicate (Suc m - 1) i = i # replicate (m - 1) i"
      by (cases m) simp_all
    moreover have "judge (fetch_from_server w j) = Retry" if "k \<le> j" "Suc j < k + Suc m" for j
      using that 2(1) m(4) by (cases "j = k") auto
    ultimately show ?thesis using 2 m(1-3,5) assms
      by (intro exI [of _ "Suc m"]) (auto simp: Let_def split_def upt_rec [of k])
  qed
qed auto

text \<open>The answers after which the loader may ask again, read off the HTTP result.\<close>

definition asks_again :: "http_result \<Rightarrow> bool" where
  "asks_again r = (case r of
      HttpTimeout \<Rightarrow> True
    | HttpConnectionError \<Rightarrow> True
    | HttpFailure e \<Rightarrow> False
    | HttpResponse status (Some v) \<Rightarrow> http_ok status \<and> \<not> truthy v
    | HttpResponse status None \<Rightarrow> False)"

lemma judge_Retry_iff: "judge (fetch_from_server w j) = Retry \<longleftrightarrow> asks_again (server_answer w j)"
  by (auto simp: judge_def fetch_from_server_def fetch_json_def asks_again_def
      split: http_result.splits option.splits)

text \<open>(C34) With a pause that is not negative, \<open>load\<close> makes at most the configured number of requests,
  numbered from the first, and pauses once between two of them and not after the last. It asks again
  after a timeout, a connection error or an empty answer of the server, and after nothing else: an
  HTTP error, a body that is not JSON, any other failure or a configuration ends the asking.\<close>

theorem load_requests_bounded:
  assumes "env_int w ''CONFIG_MAX_RETRIES'' ''6'' = Inr n" "env_int w ''CONFIG_RETRY_INTERVAL'' ''10'' = Inr i"
    and "0 \<le> i"
  shows "\<exists>m \<le> nat n. requests (snd (load w)) = [0..<m] \<and> pauses (snd (load w)) = replicate (m - 1) i
    \<and> (\<forall>j. Suc j < m \<longrightarrow> asks_again (server_answer w j))
    \<and> (m < nat n \<longrightarrow> 0 < m \<and> \<not> asks_again (server_answer w (m - 1)))"
proof -
  have fb: "requests (snd (load_fallback w)) = []" "pauses (snd (load_fallback w)) = []"
    by (auto simp: load_fallback_def split: sum.split option.split)
  obtain r acts where f: "fetch_loop w i 0 (nat n) = (r, acts)" by fastforce
  have "requests (snd (load w)) = requests acts" "pauses (snd (load w)) = pauses acts"
    using assms f fb by (auto simp: load_def Let_def split_def split: sum.split option.split)
  with fetch_loop_actions [OF assms(3), of "nat n" w 0] f show ?thesis by (auto simp: judge_Retry_iff)
qed

text \<open>A \<open>DEVICE_TYPE_MAP\<close> that is not a JSON object raises out of \<open>load\<close> as soon as the server and
  the local file give nothing: there is no configuration and no waiting.\<close>

theorem malformed_device_map_raises:
  assumes "env_int w ''CONFIG_MAX_RETRIES'' ''6'' = Inr n" "env_int w ''CONFIG_RETRY_INTERVAL'' ''10'' = Inr i"
    and "0 \<le> i" "server_config w (nat n) = None" "load_local_config w = Inl e"
    and "\<forall>d. json_loads w (getenv_or w ''DEVICE_TYPE_MAP'' ''{}'') \<noteq> Some (PDict d)"
  shows "\<not> returns (fst (load w))"
proof -
  have "\<not> returns (generate_default_config w)"
    using assms(6) by (auto simp: generate_default_config_def py_get_def split: option.split pyval.split)
  then show ?thesis using assms(4,5) load_is_spec [OF assms(1-3)] by (simp add: load_spec_def)
qed

section \<open>Saving\<close>

text \<open>A disk as the loader sees it: the temporary file is not the local file, and the next inode is new.\<close>

definition disk_ok :: "disk \<Rightarrow> bool" where
  "disk_ok d \<longleftrightarrow> (\<forall>i. tmp_file d = Some i \<longrightarrow> local_file d \<noteq> Some i \<and> i < next_inode d)
     \<and> (\<forall>i. local_file d = Some i \<longrightarrow> i < next_inode d)"

text \<open>What holds from opening the temporary file to the rename: the local file is as it was.\<close>

definition while_saving :: "disk \<Rightarrow> nat \<Rightarrow> disk \<Rightarrow> bool" where
  "while_saving d i d' \<longleftrightarrow> tmp_file d' = Some i \<and> local_file d' = local_file d \<and> local_text d' = local_text d
     \<and> local_file d \<noteq> Some i \<and> disk_ok d'"

lemma open_tmp_saving: "disk_ok d \<Longrightarrow> open_tmp d = (i, d') \<Longrightarrow> while_saving d i d'"
  by (cases "tmp_file d"; cases "local_file d")
    (auto simp: open_tmp_def while_saving_def disk_ok_def local_text_def)

lemma write_to_saving: "while_saving d i d' \<Longrightarrow> while_saving d i (write_to i t d')"
  by (cases "local_file d") (auto simp: write_to_def while_saving_def disk_ok_def local_text_def)

lemma remove_tmp_saving: "while_saving d i d' \<Longrightarrow> disk_ok (remove_tmp d') \<and> local_text (remove_tmp d') = local_text d"
  by (auto simp: remove_tmp_def while_saving_def disk_ok_def local_text_def)

lemma replace_tmp_saving:
  "while_saving d i d' \<Longrightarrow> \<exists>d''. replace_tmp (write_to i t d') = Inr d'' \<and> disk_ok d'' \<and> local_text d'' = Some t
     \<and> tmp_file d'' = None"
  by (auto simp: replace_tmp_def write_to_def while_saving_def disk_ok_def local_text_def)

lemma dump_states_saving: "while_saving d i d' \<Longrightarrow> x \<in> set (dump_states f i t d') \<Longrightarrow> while_saving d i x"
  by (auto simp: dump_states_def write_to_saving)

lemma save_cleanup_saving:
  "disk_ok d' \<Longrightarrow> x \<in> set (save_cleanup f d') \<Longrightarrow> disk_ok x \<and> local_text x = local_text d'"
  by (auto simp: save_cleanup_def remove_tmp_def disk_ok_def local_text_def split: if_splits)

text \<open>One step of the proof about all states: each is before the rename, or the one after it.\<close>

lemma save_states_cases:
  assumes "disk_ok d" "save_states f t d = (ds, ok)"
  shows "(\<forall>x \<in> set ds. disk_ok x \<and> local_text x = local_text d) \<and> \<not> ok
    \<or> (\<exists>ds' d'. ds = ds' @ [d'] \<and> (\<forall>x \<in> set ds'. disk_ok x \<and> local_text x = local_text d)
          \<and> disk_ok d' \<and> local_text d' = Some t \<and> tmp_file d' = None) \<and> ok"
proof (cases "open_fails f")
  case True
  then show ?thesis using assms by (auto simp: save_states_def save_cleanup_saving)
next
  case False
  obtain i d1 where o: "open_tmp d = (i, d1)" by fastforce
  note sav = open_tmp_saving [OF assms(1) o]
  have before: "disk_ok x \<and> local_text x = local_text d" if "while_saving d i x" for x
    using that by (simp add: while_saving_def)
  have pre: "\<forall>x \<in> set (d1 # dump_states f i t d1). disk_ok x \<and> local_text x = local_text d"
    using sav before dump_states_saving by auto
  have failed: "\<forall>x \<in> set (write_to i s d1 # save_cleanup f (write_to i s d1)). disk_ok x \<and> local_text x = local_text d" for s
    using before [OF write_to_saving [OF sav, of s]] save_cleanup_saving by auto
  obtain d3 where d3: "replace_tmp (write_to i t d1) = Inr d3" "disk_ok d3" "local_text d3 = Some t" "tmp_file d3 = None"
    using replace_tmp_saving [OF sav] by blast
  show ?thesis
  proof (cases "dump_fails f = None \<and> \<not> replace_fails f")
    case True
    then have "ds = (d1 # dump_states f i t d1 @ [write_to i t d1]) @ [d3]" "ok"
      using assms(2) False o d3(1) by (auto simp: save_states_def)
    then show ?thesis using pre failed [of t] d3 by auto
  next
    case err: False
    then obtain s where "ds = (d1 # dump_states f i t d1) @ write_to i s d1 # save_cleanup f (write_to i s d1)" "\<not> ok"
      using assms(2) False o by (auto simp: save_states_def Let_def split: option.splits)
    then show ?thesis using pre failed [of s] by auto
  qed
qed

text \<open>(C8) A save is atomic: at every point of it, whatever fails or wherever the machine stops, the local
  file is the old one or the whole new text, never a part of it.\<close>

theorem save_is_atomic:
  assumes "disk_ok d" "x \<in> set (fst (save_states f t d))"
  shows "disk_ok x \<and> (local_text x = local_text d \<or> local_text x = Some t)"
  using save_states_cases [OF assms(1), of f t "fst (save_states f t d)" "snd (save_states f t d)"] assms(2)
  by auto

text \<open>\<open>save_to_local\<close> returns true exactly when nothing of the save fails; then the local file is the
  new text and no temporary file is left, and otherwise the local file is as it was.\<close>

theorem save_result:
  assumes "disk_ok d" "save_to_local f t d = (d', ok)"
  shows "ok = (\<not> open_fails f \<and> dump_fails f = None \<and> \<not> replace_fails f) \<and> disk_ok d' \<and>
    (if ok then local_text d' = Some t \<and> tmp_file d' = None else local_text d' = local_text d)"
proof -
  obtain ds where s: "save_states f t d = (ds, ok)" "d' = last (d # ds)"
    using assms(2) by (auto simp: save_to_local_def Let_def split: prod.splits)
  obtain i d1 where o: "open_tmp d = (i, d1)" by fastforce
  obtain d3 where "replace_tmp (write_to i t d1) = Inr d3"
    using replace_tmp_saving [OF open_tmp_saving [OF assms(1) o]] by blast
  then have ok: "ok = (\<not> open_fails f \<and> dump_fails f = None \<and> \<not> replace_fails f)"
    using s(1) o by (auto simp: save_states_def Let_def split: option.splits if_splits)
  have "last (d # ds) \<in> set ds \<or> ds = []" by simp
  then show ?thesis using ok s(2) assms(1) save_states_cases [OF assms(1) s(1)] by auto
qed

text \<open>(C35) What is saved is what is loaded next: with the file read back by \<open>yaml.safe_load\<close>, a
  configuration that YAML round-trips is the result of the next \<open>load\<close> whose server gives nothing.\<close>

theorem saved_config_loads:
  assumes "disk_ok d" "save_to_local f (yaml_dump c) d = (d', True)"
    and "yaml_load (yaml_dump c) = Inr c" "truthy c"
    and "local_yaml w = (case local_text d' of None \<Rightarrow> Inl OSErr | Some s \<Rightarrow> yaml_load s)"
    and "env_int w ''CONFIG_MAX_RETRIES'' ''6'' = Inr n" "env_int w ''CONFIG_RETRY_INTERVAL'' ''10'' = Inr i" "0 \<le> i"
    and "server_config w (nat n) = None"
  shows "fst (load w) = Inr (Some c)"
proof -
  obtain ds where s: "save_states f (yaml_dump c) d = (ds, True)" "d' = last (d # ds)"
    using assms(2) by (auto simp: save_to_local_def Let_def split: prod.splits)
  then have "local_text d' = Some (yaml_dump c)" using save_states_cases [OF assms(1) s(1)] by auto
  then have "load_local_config w = Inr c" using assms(3-5) by (simp add: load_local_config_def)
  moreover obtain r acts where f: "fetch_loop w i 0 (nat n) = (r, acts)" by fastforce
  then have "r = Inr None"
    using fetch_loop_result [OF assms(8), of w 0 "nat n"] assms(9) by (simp add: server_config_def)
  ultimately show ?thesis using assms(6,7) f by (simp add: load_def Let_def load_fallback_def)
qed

text \<open>Two saves at once share the temporary file: the second opens, and so empties, the file the first has
  written and is about to rename.\<close>

definition run_saves :: "(nat \<times> save_op) list \<Rightarrow> disk \<Rightarrow> disk" where
  "run_saves ops d = fst (fold thread_step ops (d, \<lambda>_. 0))"

text \<open>Two concurrent saves are not atomic: when the second opens the temporary file between the write and
  the rename of the first, the local file is empty after a successful rename, whatever both were writing.\<close>

theorem concurrent_saves_lose_the_config:
  "local_text (run_saves [(0, OpenTmp), (0, WriteText s), (1, OpenTmp), (0, ReplaceTmp)] d) = Some []"
  by (cases "tmp_file d")
    (simp_all add: run_saves_def thread_step_def open_tmp_def write_to_def replace_tmp_def local_text_def)

section \<open>Witnesses\<close>

text \<open>A device whose server does not answer, with one attempt, and a local file.\<close>

definition sample_surroundings :: surroundings where
  "sample_surroundings = \<lparr> getenv = (\<lambda>k. if k = ''CONFIG_MAX_RETRIES'' then Some ''2'' else None),
     server_answer = (\<lambda>n. HttpConnectionError), local_yaml = Inr (PDict [(''device_type'', PStr ''stub'')]),
     hostname = ''edge'', json_loads = (\<lambda>s. Some (PDict [])) \<rparr>"

lemma sample_settings:
  "env_int sample_surroundings ''CONFIG_MAX_RETRIES'' ''6'' = Inr 2"
  "env_int sample_surroundings ''CONFIG_RETRY_INTERVAL'' ''10'' = Inr 10"
proof -
  have "py_int_of_str ''2'' = Inr 2" "py_int_of_str ''10'' = Inr 10" by code_simp+
  then show "env_int sample_surroundings ''CONFIG_MAX_RETRIES'' ''6'' = Inr 2"
    "env_int sample_surroundings ''CONFIG_RETRY_INTERVAL'' ''10'' = Inr 10"
    by (simp_all add: env_int_def getenv_or_def sample_surroundings_def)
qed

lemma sample_server: "server_config sample_surroundings n = None"
proof -
  have "judge (fetch_from_server sample_surroundings k) = Retry" for k
    by (simp add: fetch_from_server_def sample_surroundings_def fetch_json_def judge_def)
  then have "find (\<lambda>k. judge (fetch_from_server sample_surroundings k) \<noteq> Retry) xs = None" for xs
    by (induction xs) simp_all
  then show ?thesis by (simp add: server_config_def)
qed

lemma load_refines_spec_witness:
  "fst (load sample_surroundings) = Inr (Some (PDict [(''device_type'', PStr ''stub'')]))"
  using load_refines_spec [OF sample_settings] sample_server [of 2]
  by (simp add: load_spec_def load_local_config_def sample_surroundings_def truthy_def)

lemma load_requests_bounded_witness:
  "\<exists>m \<le> 2. requests (snd (load sample_surroundings)) = [0..<m]"
  using load_requests_bounded [OF sample_settings] by auto

definition sample_disk :: disk where
  "sample_disk = \<lparr> tmp_file = None, local_file = Some 0, texts = (\<lambda>_. ''old''), next_inode = 1 \<rparr>"

definition no_faults :: faults where
  "no_faults = \<lparr> open_fails = False, flushes = [3], dump_fails = None, replace_fails = False, remove_fails = False \<rparr>"

lemma sample_disk_ok: "disk_ok sample_disk"
  by (simp add: disk_ok_def sample_disk_def)

lemma save_is_atomic_witness:
  "local_text (hd (fst (save_states no_faults ''new'' sample_disk))) \<in> {Some ''old'', Some ''new''}"
proof -
  have "fst (save_states no_faults ''new'' sample_disk) \<noteq> []"
    by (simp add: save_states_def no_faults_def open_tmp_def sample_disk_def replace_tmp_def write_to_def Let_def)
  then have "hd (fst (save_states no_faults ''new'' sample_disk)) \<in> set (fst (save_states no_faults ''new'' sample_disk))"
    by (rule hd_in_set)
  from save_is_atomic [OF sample_disk_ok this] show ?thesis by (auto simp: local_text_def sample_disk_def)
qed

lemma saved_config_loads_witness:
  "fst (load sample_surroundings) = Inr (Some (PDict [(''device_type'', PStr ''stub'')]))"
proof -
  let ?c = "PDict [(''device_type'', PStr ''stub'')]"
  let ?dump = "\<lambda>_ :: pyval. ''device_type: stub''"
  let ?load = "\<lambda>s. if s = ''device_type: stub'' then Inr ?c else Inl OSErr"
  obtain d' where d': "save_to_local no_faults (?dump ?c) sample_disk = (d', True)"
    by (simp add: save_to_local_def save_states_def no_faults_def open_tmp_def sample_disk_def replace_tmp_def write_to_def Let_def)
  have "local_text d' = Some ''device_type: stub''"
    using d' by (auto simp: save_to_local_def save_states_def no_faults_def open_tmp_def sample_disk_def replace_tmp_def
        write_to_def Let_def local_text_def)
  then show ?thesis
    by (intro saved_config_loads [OF sample_disk_ok d', where yaml_load = ?load, OF _ _ _ sample_settings _ sample_server])
      (simp_all add: truthy_def sample_surroundings_def)
qed

end
