(* ===== verification/Exporter.thy ===== *)
theory Exporter
  imports Collectors ConfigLoader
begin

text \<open>
  The exporter's shared state and the scrape (\<open>exporter.py\<close>, \<open>OnDemandCollector\<close>). A configuration
  is an object that several threads mutate: the scrape holds a reference to its \<open>metrics\<close>
  dictionary across the collection, and writes it back into whatever configuration is current
  then. So configurations and metrics dictionaries live in a store by address. A scrape is four
  steps, each without another thread's step inside it: \<open>collect_begin\<close> (the first lock), \<open>gather\<close>,
  \<open>collect_register\<close> (the second lock) and \<open>export\<close>.
\<close>

section \<open>The shared state\<close>

text \<open>A field of a configuration: a value, or a reference to a metrics dictionary.\<close>

datatype slot = Val pyval | Ref nat

text \<open>\<open>last_collection_error\<close>: the fixed message, or the text of an exception, never empty.\<close>

datatype collection_error = NoMetrics | Failed exn

record exporter =
  config_objs :: "nat \<Rightarrow> slot dict"
  metrics_objs :: "nat \<Rightarrow> metrics"
  next_addr :: nat
  current_config :: "nat option"
  current_collectors :: "collector list"
  loader_present :: bool
  reload_flag :: bool
  last_collection_time :: "string option"
  last_collection_error :: "collection_error option"

text \<open>What leaves the process: a save with its outcome, a background sync of a configuration object.\<close>

datatype saving = Save pyval bool | Sync nat

text \<open>The machine: its host name, the metric names \<open>prometheus_client\<close> accepts, the order in which a
  set of names is iterated.\<close>

record runtime =
  host :: string
  gauge_ok :: "string \<Rightarrow> bool"
  set_order :: "string list \<Rightarrow> string list"

definition slot_value :: "exporter \<Rightarrow> slot \<Rightarrow> pyval" where
  "slot_value s sl = (case sl of Val v \<Rightarrow> v | Ref r \<Rightarrow> PDict (metrics_objs s r))"

definition config_value :: "exporter \<Rightarrow> nat \<Rightarrow> pyval" where
  "config_value s a = PDict (map (\<lambda>(k, sl). (k, slot_value s sl)) (config_objs s a))"

text \<open>\<open>config.get(k, v)\<close>.\<close>

definition config_get :: "exporter \<Rightarrow> nat \<Rightarrow> string \<Rightarrow> pyval \<Rightarrow> pyval" where
  "config_get s a k v = (case dget (config_objs s a) k of None \<Rightarrow> v | Some sl \<Rightarrow> slot_value s sl)"

text \<open>A dictionary that has been loaded becomes an object, its \<open>metrics\<close> dictionary another.\<close>

definition import_slot :: "nat \<Rightarrow> string \<times> pyval \<Rightarrow> string \<times> slot" where
  "import_slot r kv = (let (k, v) = kv in (k, if k = ''metrics'' \<and> is_dict v then Ref r else Val v))"

definition import_config :: "(string \<times> pyval) list \<Rightarrow> exporter \<Rightarrow> nat \<times> exporter" where
  "import_config d s = (let a = next_addr s in
     (a, s\<lparr>config_objs := (config_objs s)(a := map (import_slot (Suc a)) d),
           metrics_objs := (metrics_objs s)(Suc a := case dget d ''metrics'' of Some (PDict m) \<Rightarrow> m | _ \<Rightarrow> []),
           next_addr := Suc (Suc a)\<rparr>))"

text \<open>\<open>config.get("metrics") or {}\<close>: the dictionary of the configuration itself when it is not empty,
  a new one when it is missing or false.\<close>

definition fresh_metrics :: "exporter \<Rightarrow> slot \<times> exporter" where
  "fresh_metrics s = (Ref (next_addr s),
     s\<lparr>metrics_objs := (metrics_objs s)(next_addr s := []), next_addr := Suc (next_addr s)\<rparr>)"

definition metrics_or_new :: "nat \<Rightarrow> exporter \<Rightarrow> slot \<times> exporter" where
  "metrics_or_new a s = (case dget (config_objs s a) ''metrics'' of
      None \<Rightarrow> fresh_metrics s
    | Some sl \<Rightarrow> if truthy (slot_value s sl) then (sl, s) else fresh_metrics s)"

text \<open>\<open>d[k] = v\<close> on a metrics dictionary, \<open>config["metrics"] = d\<close>.\<close>

definition set_metric :: "nat \<Rightarrow> string \<Rightarrow> pyval \<Rightarrow> exporter \<Rightarrow> exporter" where
  "set_metric r k v s = s\<lparr>metrics_objs := (metrics_objs s)(r := dset (metrics_objs s r) k v)\<rparr>"

definition assign_metrics :: "nat \<Rightarrow> slot \<Rightarrow> exporter \<Rightarrow> exporter" where
  "assign_metrics a sl s = s\<lparr>config_objs := (config_objs s)(a := dset (config_objs s a) ''metrics'' sl)\<rparr>"

section \<open>The scrape\<close>

text \<open>\<open>d.update(v)\<close> for any value: a list is a sequence of pairs, assigned up to the first that is
  none; a string's first character is none. (A pair whose key is no string counts as none.)\<close>

definition pair_of :: "pyval \<Rightarrow> (string \<times> pyval) option" where
  "pair_of x = (case x of
      PList [PStr k, v] \<Rightarrow> Some (k, v)
    | PStr [a, b] \<Rightarrow> Some ([a], PStr [b])
    | PDict [(a, v), (b, w)] \<Rightarrow> Some (a, PStr b)
    | _ \<Rightarrow> None)"

fun update_pairs :: "metrics \<Rightarrow> pyval list \<Rightarrow> metrics" where
  "update_pairs d [] = d"
| "update_pairs d (x # xs) = (case pair_of x of None \<Rightarrow> d | Some (k, v) \<Rightarrow> update_pairs (dset d k v) xs)"

definition py_update :: "metrics \<Rightarrow> pyval \<Rightarrow> metrics" where
  "py_update d v = (case v of PDict e \<Rightarrow> dupdate d e | PList xs \<Rightarrow> update_pairs d xs | _ \<Rightarrow> d)"

text \<open>All collectors in turn; one that fails is skipped. The collectors keep their own state.\<close>

fun gather :: "world \<Rightarrow> collector list \<Rightarrow> metrics \<Rightarrow> metrics \<times> collector list" where
  "gather w [] acc = (acc, [])"
| "gather w (c # cs) acc =
     (let (v, c') = safe_get_metrics w c;
          (r, cs') = gather w cs (if truthy v then py_update acc v else acc)
      in (r, c' # cs'))"

text \<open>What a scrape holds on its stack: \<open>metrics_config\<close>, \<open>device_type\<close>.\<close>

type_synonym held = "slot \<times> pyval"

definition collect_begin :: "exporter \<Rightarrow> held option \<times> exporter" where
  "collect_begin s = (case current_config s of
      None \<Rightarrow> (None, s)
    | Some a \<Rightarrow>
        if current_collectors s = [] \<or> config_objs s a = [] then (None, s)
        else (let (sl, s') = metrics_or_new a s
          in (Some (sl, config_get s a ''device_type'' (PStr ''unknown'')), s')))"

definition collect_gather :: "world \<Rightarrow> string \<Rightarrow> exporter \<Rightarrow> metrics \<times> exporter" where
  "collect_gather w now s = (let (all, cs) = gather w (current_collectors s) []; s' = s\<lparr>current_collectors := cs\<rparr> in
     (all, if all = [] then s'\<lparr>last_collection_error := Some NoMetrics\<rparr>
           else s'\<lparr>last_collection_time := Some now, last_collection_error := None\<rparr>))"

definition new_names :: "metrics \<Rightarrow> metrics \<Rightarrow> string list" where
  "new_names all settings = filter (\<lambda>k. \<not> dhas settings k) (dkeys all)"

definition save_and_sync :: "bool \<Rightarrow> nat \<Rightarrow> exporter \<Rightarrow> saving list" where
  "save_and_sync saved a s = Save (config_value s a) saved # (if saved then [Sync a] else [])"

text \<open>\<open>metrics_config.keys()\<close> needs a dictionary. The new names are switched on and the dictionary
  becomes that of the configuration that is current now.\<close>

definition collect_register :: "runtime \<Rightarrow> bool \<Rightarrow> held \<Rightarrow> metrics \<Rightarrow> exporter \<Rightarrow> unit res \<times> exporter \<times> saving list" where
  "collect_register rt saved h all s = (case fst h of
      Val v \<Rightarrow> (Inl AttributeErr, s\<lparr>last_collection_error := Some (Failed AttributeErr)\<rparr>, [])
    | Ref r \<Rightarrow>
        (let new = set_order rt (new_names all (metrics_objs s r)) in
         if new = [] then (Inr (), s, [])
         else case current_config s of
           None \<Rightarrow> (Inl TypeErr,
             (fold (\<lambda>k. set_metric r k (PBool True)) new s)\<lparr>last_collection_error := Some (Failed TypeErr)\<rparr>, [])
         | Some a \<Rightarrow>
             (let s' = assign_metrics a (Ref r) (fold (\<lambda>k. set_metric r k (PBool True)) new s)
              in (Inr (), s', if loader_present s then save_and_sync saved a s' else []))))"

text \<open>A sample: name, labels, value. A name the client library refuses ends the scrape after the
  samples before it.\<close>

record sample =
  metric :: string
  device_label :: pyval
  host_label :: string
  reading :: pyval

definition enabled_in :: "metrics \<Rightarrow> string \<Rightarrow> bool" where
  "enabled_in settings k = truthy (dget_or settings k (PBool False))"

fun export :: "runtime \<Rightarrow> metrics \<Rightarrow> pyval \<Rightarrow> metrics \<Rightarrow> sample list \<times> unit res" where
  "export rt settings dt [] = ([], Inr ())"
| "export rt settings dt ((k, v) # all) =
     (if \<not> enabled_in settings k then export rt settings dt all
      else if \<not> gauge_ok rt k then ([], Inl (ValueError (''Invalid metric name: '' @ k)))
      else (let (xs, r) = export rt settings dt all
        in (\<lparr>metric = k, device_label = dt, host_label = host rt, reading = v\<rparr> # xs, r)))"

definition collect_export :: "runtime \<Rightarrow> held \<Rightarrow> metrics \<Rightarrow> exporter \<Rightarrow> sample list \<times> exporter" where
  "collect_export rt h all s = (case fst h of
      Val v \<Rightarrow> ([], s)
    | Ref r \<Rightarrow> (let (xs, e) = export rt (metrics_objs s r) (snd h) all in
        (xs, case e of Inr u \<Rightarrow> s | Inl x \<Rightarrow> s\<lparr>last_collection_error := Some (Failed x)\<rparr>)))"

text \<open>The whole scrape, when nothing else runs.\<close>

definition collect :: "runtime \<Rightarrow> world \<Rightarrow> string \<Rightarrow> bool \<Rightarrow> exporter \<Rightarrow> sample list \<times> exporter \<times> saving list" where
  "collect rt w now saved s = (case collect_begin s of
      (None, s1) \<Rightarrow> ([], s1, [])
    | (Some h, s1) \<Rightarrow>
        (let (all, s2) = collect_gather w now s1 in
         if all = [] then ([], s2, [])
         else case collect_register rt saved h all s2 of
           (Inl e, s3, effs) \<Rightarrow> ([], s3, effs)
         | (Inr u, s3, effs) \<Rightarrow> (let (xs, s4) = collect_export rt h all s3 in (xs, s4, effs))))"

end
