(* ===== verification/ManagementApi.thy ===== *)
theory ManagementApi
  imports Exporter
begin

text \<open>
  The management server (\<open>exporter.py\<close>: \<open>CombinedHandler\<close> and the two handlers it calls). It serves
  one request at a time. A handler gives the response, or none when an exception leaves it, the
  new shared state and the saves it made. \<open>send_error\<close> is \<open>ErrorPage\<close>.
\<close>

record health_report =
  status :: string
  device_id :: string
  device_type :: pyval
  uptime_seconds :: int
  last_collection :: "string option"
  last_error :: "collection_error option"
  metrics_count :: nat
  enabled_metrics :: nat

datatype response =
    Json nat pyval
  | Health health_report
  | Plain nat string
  | ErrorPage nat

text \<open>The body behind the handler: reading \<open>n\<close> bytes raises, or gives bytes that are no UTF-8, no JSON,
  or a JSON value. A negative length reads to the end of the connection.\<close>

datatype body = ReadRaises exn | NotUtf8 | NotJson | JsonBody pyval

record request =
  verb :: string
  path :: string
  content_length :: "string option"
  read_body :: "int \<Rightarrow> body"

definition not_found :: response where
  "not_found = Plain 404 (''Not Found'' @ [CHR 0x0A])"

section \<open>Reading the state\<close>

text \<open>\<open>current_config\<close> is None while the exporter waits for a configuration: \<open>.get\<close> raises.\<close>

definition handle_list :: "exporter \<Rightarrow> response \<times> exporter" where
  "handle_list s = (case current_config s of
      None \<Rightarrow> (ErrorPage 500, s)
    | Some a \<Rightarrow> (let (sl, s') = metrics_or_new a s in
        (Json 200 (PDict [(''metrics'', slot_value s' sl), (''device_type'', config_get s a ''device_type'' PNone),
           (''source'', PStr ''local'')]), s')))"

definition health_status :: "exporter \<Rightarrow> string" where
  "health_status s =
     (if last_collection_error s \<noteq> None then ''degraded''
      else if last_collection_time s \<noteq> None then ''healthy''
      else ''starting'')"

definition enabled_count :: "metrics \<Rightarrow> nat" where
  "enabled_count settings = length (filter (\<lambda>(k, v). truthy v) settings)"

text \<open>\<open>len(metrics_config)\<close>, then \<open>metrics_config.values()\<close>: anything but a dictionary raises.\<close>

definition handle_health :: "runtime \<Rightarrow> int \<Rightarrow> exporter \<Rightarrow> response \<times> exporter" where
  "handle_health rt uptime s = (case current_config s of
      None \<Rightarrow> (Json 200 (PDict [(''status'', PStr ''waiting''), (''device_id'', PStr (host rt)),
        (''message'', PStr (''No config. Register via PUT /config/'' @ host rt))]), s)
    | Some a \<Rightarrow> (let (sl, s') = metrics_or_new a s in
        (case slot_value s' sl of
           PDict settings \<Rightarrow> Health \<lparr>status = health_status s, device_id = host rt,
             device_type = config_get s a ''device_type'' (PStr ''unknown''), uptime_seconds = uptime,
             last_collection = last_collection_time s, last_error = last_collection_error s,
             metrics_count = length settings, enabled_metrics = enabled_count settings\<rparr>
         | _ \<Rightarrow> ErrorPage 500, s')))"

definition handle_config :: "exporter \<Rightarrow> response" where
  "handle_config s = Json 200 (case current_config s of None \<Rightarrow> PDict [] | Some a \<Rightarrow> config_value s a)"

section \<open>Changing it\<close>

definition handle_reload :: "exporter \<Rightarrow> response \<times> exporter" where
  "handle_reload s = (Plain 200 (''Config reload triggered'' @ [CHR 0x0A]), s\<lparr>reload_flag := True\<rparr>)"

text \<open>The loop over the updates: a value that is no bool leaves it, an unknown name is noted, a known one
  is assigned at once. \<open>name in metrics_config\<close> works on lists and strings too, the assignment does not.\<close>

datatype loop_end = BadType string | LoopRaises exn | Invalid "string list" | AllKnown nat

fun apply_updates :: "slot \<Rightarrow> metrics \<Rightarrow> string list \<Rightarrow> nat \<Rightarrow> exporter \<Rightarrow> loop_end \<times> exporter" where
  "apply_updates sl [] invalid n s = (if invalid \<noteq> [] then Invalid invalid else AllKnown n, s)"
| "apply_updates sl ((k, v) # us) invalid n s =
     (if \<not> is_bool v then (BadType k, s)
      else case py_in k (slot_value s sl) of
        Inl e \<Rightarrow> (LoopRaises e, s)
      | Inr False \<Rightarrow> apply_updates sl us (invalid @ [k]) n s
      | Inr True \<Rightarrow>
          (case sl of
             Val x \<Rightarrow> (LoopRaises TypeErr, s)
           | Ref r \<Rightarrow> apply_updates sl us invalid (Suc n) (set_metric r k v s)))"

text \<open>The part under the lock. The handler makes a loader of its own, which reads the environment.\<close>

definition enable_locked :: "surroundings \<Rightarrow> bool \<Rightarrow> metrics \<Rightarrow> exporter \<Rightarrow> response \<times> exporter \<times> saving list" where
  "enable_locked w saved updates s = (case current_config s of
      None \<Rightarrow> (ErrorPage 500, s, [])
    | Some a \<Rightarrow> (let (sl, s1) = metrics_or_new a s in
        case apply_updates sl updates [] 0 s1 of
          (BadType k, s2) \<Rightarrow> (ErrorPage 400, s2, [])
        | (LoopRaises e, s2) \<Rightarrow> (ErrorPage 500, s2, [])
        | (Invalid ks, s2) \<Rightarrow> (ErrorPage 400, s2, [])
        | (AllKnown n, s2) \<Rightarrow>
            (let s3 = assign_metrics a sl s2 in
             if \<not> returns (new_config_loader w) then (ErrorPage 500, s3, [])
             else (if saved then Json 200 (PDict [(''status'', PStr ''success''), (''updated'', PInt (int n)),
                     (''metrics'', PDict updates)]) else ErrorPage 500,
                   s3, save_and_sync saved a s3))))"

text \<open>\<open>import json\<close> inside the method makes the name local: an exception raised before it meets an
  \<open>except json.JSONDecodeError\<close> that raises again, and leaves the handler without a response.\<close>

definition handle_enable :: "surroundings \<Rightarrow> bool \<Rightarrow> request \<Rightarrow> exporter \<Rightarrow> response option \<times> exporter \<times> saving list" where
  "handle_enable w saved q s =
     (case (case content_length q of None \<Rightarrow> Inr 0 | Some h \<Rightarrow> py_int_of_str h) of
        Inl e \<Rightarrow> (None, s, [])
      | Inr n \<Rightarrow>
          if n > 1024 * 100 then (Some (ErrorPage 413), s, [])
          else (case read_body q n of
              ReadRaises e \<Rightarrow> (None, s, [])
            | NotUtf8 \<Rightarrow> (Some (ErrorPage 500), s, [])
            | NotJson \<Rightarrow> (Some (ErrorPage 400), s, [])
            | JsonBody (PDict updates) \<Rightarrow>
                if length updates > 1000 then (Some (ErrorPage 400), s, [])
                else (let (r, s', effs) = enable_locked w saved updates s in (Some r, s', effs))
            | JsonBody _ \<Rightarrow> (Some (ErrorPage 400), s, [])))"

section \<open>Dispatch\<close>

text \<open>The two handlers the combined one calls, which check the path once more.\<close>

definition reload_handler_post :: "string \<Rightarrow> exporter \<Rightarrow> response \<times> exporter" where
  "reload_handler_post p s = (if p = ''/reload'' then handle_reload s else (not_found, s))"

definition metrics_handler_get :: "string \<Rightarrow> exporter \<Rightarrow> response \<times> exporter" where
  "metrics_handler_get p s = (if p = ''/metrics/list'' then handle_list s else (not_found, s))"

definition metrics_handler_post ::
    "surroundings \<Rightarrow> bool \<Rightarrow> request \<Rightarrow> exporter \<Rightarrow> response option \<times> exporter \<times> saving list" where
  "metrics_handler_post w saved q s =
     (if path q = ''/metrics/enable'' then handle_enable w saved q s else (Some not_found, s, []))"

definition do_GET :: "runtime \<Rightarrow> int \<Rightarrow> request \<Rightarrow> exporter \<Rightarrow> response \<times> exporter" where
  "do_GET rt uptime q s =
     (if path q = ''/metrics/list'' then metrics_handler_get (path q) s
      else if path q = ''/health'' then handle_health rt uptime s
      else if path q = ''/config'' then (handle_config s, s)
      else (not_found, s))"

definition do_POST :: "surroundings \<Rightarrow> bool \<Rightarrow> request \<Rightarrow> exporter \<Rightarrow> response option \<times> exporter \<times> saving list" where
  "do_POST w saved q s =
     (if path q = ''/reload'' then (let (r, s') = reload_handler_post (path q) s in (Some r, s', []))
      else if path q = ''/metrics/enable'' then metrics_handler_post w saved q s
      else (Some not_found, s, []))"

text \<open>\<open>http.server\<close> calls the method the request names, and refuses the others.\<close>

definition serve ::
    "runtime \<Rightarrow> surroundings \<Rightarrow> int \<Rightarrow> bool \<Rightarrow> request \<Rightarrow> exporter \<Rightarrow> response option \<times> exporter \<times> saving list" where
  "serve rt w uptime saved q s =
     (if verb q = ''GET'' then (let (r, s') = do_GET rt uptime q s in (Some r, s', []))
      else if verb q = ''POST'' then do_POST w saved q s
      else (Some (ErrorPage 501), s, []))"

end
