(* ===== verification/Lifecycle.thy ===== *)
theory Lifecycle
  imports ManagementApi
begin

text \<open>
  The life of the exporter (\<open>exporter.py\<close>): making the collectors, applying a new configuration,
  starting (with the waiting mode), the reload loop, and the interleaving of the main thread with
  the scrapes and the requests.
\<close>

section \<open>Collectors of a configuration\<close>

definition add_shelly :: "pyval \<Rightarrow> collector list \<Rightarrow> collector list" where
  "add_shelly config cs = (case shelly_server_url config of
      Inl e \<Rightarrow> cs | Inr url \<Rightarrow> cs @ [ShellyCollector url])"

definition initialize_collectors :: "world \<Rightarrow> pyval \<Rightarrow> collector list res" where
  "initialize_collectors w config =
     rbind (py_item config ''device_type'') (\<lambda>device_type.
     rbind (get_collector w device_type config) (\<lambda>device_collector.
     rbind (py_get config ''shelly'' (PDict [])) (\<lambda>shelly_config.
     rmap (\<lambda>shelly_enabled. if truthy shelly_enabled then add_shelly config [device_collector] else [device_collector])
       (py_get shelly_config ''enabled'' (PBool True)))))"

section \<open>Applying a configuration\<close>

text \<open>Are new collectors needed? Where the Shelly configurations differ, both need the method \<open>get\<close>.\<close>

definition needs_reinit :: "pyval \<Rightarrow> pyval \<Rightarrow> bool res" where
  "needs_reinit old new =
     rbind (py_get old ''device_type'' PNone) (\<lambda>old_type.
     rbind (py_get new ''device_type'' PNone) (\<lambda>new_type.
     rbind (py_get old ''shelly'' (PDict [])) (\<lambda>old_shelly.
     rbind (py_get new ''shelly'' (PDict [])) (\<lambda>new_shelly.
     if py_eq old_shelly new_shelly then Inr (\<not> py_eq old_type new_type)
     else rbind (py_get old_shelly ''enabled'' PNone) (\<lambda>_. rmap (\<lambda>_. True) (py_get new_shelly ''enabled'' PNone))))))"

text \<open>\<open>.items()\<close> of the metrics, which are read for a log line.\<close>

definition metrics_items :: "pyval \<Rightarrow> unit res" where
  "metrics_items config = rbind (py_get config ''metrics'' PNone) (\<lambda>m.
     if truthy m \<and> \<not> is_dict m then Inl AttributeErr else Inr ())"

text \<open>The steps up to the assignment: it may raise, keep the old collectors and return, or go on.\<close>

datatype preparation = Raises exn | KeepsOld | GoesOn "(string \<times> pyval) list"

definition new_dict :: "pyval \<Rightarrow> preparation" where
  "new_dict v = (case v of PDict d \<Rightarrow> GoesOn d | _ \<Rightarrow> Raises AttributeErr)"

definition prepare_config :: "world \<Rightarrow> pyval \<Rightarrow> exporter \<Rightarrow> preparation \<times> exporter" where
  "prepare_config w new s =
     (let old = (case current_config s of None \<Rightarrow> PNone | Some a \<Rightarrow> config_value s a) in
      case needs_reinit old new of
        Inl e \<Rightarrow> (Raises e, s)
      | Inr reinit \<Rightarrow>
          (case (if reinit then initialize_collectors w new else Inr (current_collectors s)) of
            Inl e \<Rightarrow> (KeepsOld, s)
          | Inr cs \<Rightarrow> (let s' = s\<lparr>current_collectors := cs\<rparr> in
              case rbind (metrics_items old) (\<lambda>_. metrics_items new) of
                Inl e \<Rightarrow> (Raises e, s')
              | Inr _ \<Rightarrow> (new_dict new, s'))))"

definition assign_config :: "(string \<times> pyval) list \<Rightarrow> exporter \<Rightarrow> exporter" where
  "assign_config d s = (let (a, s') = import_config d s in s'\<lparr>current_config := Some a\<rparr>)"

definition save_new_config :: "bool \<Rightarrow> nat \<Rightarrow> exporter \<Rightarrow> saving list" where
  "save_new_config saved a s = (if loader_present s then [Save (config_value s a) saved] else [])"

text \<open>The whole function, when nothing else runs.\<close>

definition apply_new_config :: "world \<Rightarrow> bool \<Rightarrow> pyval \<Rightarrow> exporter \<Rightarrow> unit res \<times> exporter \<times> saving list" where
  "apply_new_config w saved new s = (case prepare_config w new s of
      (Raises e, s') \<Rightarrow> (Inl e, s', [])
    | (KeepsOld, s') \<Rightarrow> (Inr (), s', [])
    | (GoesOn d, s') \<Rightarrow> (let s'' = assign_config d s' in
        (Inr (), s'', case current_config s'' of None \<Rightarrow> [] | Some a \<Rightarrow> save_new_config saved a s'')))"

section \<open>Starting\<close>

definition stub_config :: "surroundings \<Rightarrow> pyval res" where
  "stub_config w = rbind (env_int w ''METRICS_PORT'' ''9102'') (\<lambda>port.
     rmap (\<lambda>reload_port. PDict [(''device_type'', PStr ''stub''), (''port'', PInt port),
         (''reload_port'', PInt reload_port), (''shelly'', PDict [(''enabled'', PBool False)]),
         (''metrics'', PDict (map (\<lambda>k. (k, PBool True)) stub_metric_names))])
       (env_int w ''RELOAD_PORT'' ''9101''))"

definition stub_mode :: "surroundings \<Rightarrow> bool" where
  "stub_mode w = (lower (getenv_or w ''STUB_MODE'' []) \<in> set [''true'', ''1'', ''yes''])"

text \<open>Listening on a port: it must be an integer that fits, and the system must grant it, given the
  ports already listened on.\<close>

definition bind_port :: "(int list \<Rightarrow> int \<Rightarrow> bool) \<Rightarrow> pyval \<Rightarrow> int list \<Rightarrow> int list res" where
  "bind_port granted v ports = (case v of
      PInt n \<Rightarrow> if n < 0 \<or> 65535 < n then Inl OverflowErr
        else if granted ports n then Inr (n # ports) else Inl OSErr
    | PBool b \<Rightarrow> (let n = of_bool b in if granted ports n then Inr (n # ports) else Inl OSErr)
    | _ \<Rightarrow> Inl TypeErr)"

text \<open>The polls of the waiting mode: the answer of the first that is not None, within a number of polls;
  the surroundings are given by the load.\<close>

fun wait_for_config :: "(nat \<Rightarrow> surroundings) \<Rightarrow> nat \<Rightarrow> nat \<Rightarrow> pyval res option" where
  "wait_for_config w k 0 = None"
| "wait_for_config w k (Suc fuel) = (case fst (load (w k)) of
      Inl e \<Rightarrow> Some (Inl e)
    | Inr (Some c) \<Rightarrow> Some (Inr c)
    | Inr None \<Rightarrow> wait_for_config w (Suc k) fuel)"

text \<open>The configuration \<open>main\<close> starts with and the ports taken by then, or an exception, or nothing
  while it waits still.\<close>

definition first_config ::
    "(int list \<Rightarrow> int \<Rightarrow> bool) \<Rightarrow> (nat \<Rightarrow> surroundings) \<Rightarrow> nat \<Rightarrow> (pyval \<times> int list) res option" where
  "first_config granted w fuel =
     (if stub_mode (w 0) then Some (rmap (\<lambda>c. (c, [])) (stub_config (w 0)))
      else case new_config_loader (w 0) of
        Inl e \<Rightarrow> Some (Inl e)
      | Inr loader \<Rightarrow>
          (case fst (load (w 0)) of
             Inl e \<Rightarrow> Some (Inl e)
           | Inr (Some c) \<Rightarrow> Some (Inr (c, []))
           | Inr None \<Rightarrow>
               (case rbind (env_int (w 0) ''RELOAD_PORT'' ''9101'') (\<lambda>p. bind_port granted (PInt p) []) of
                  Inl e \<Rightarrow> Some (Inl e)
                | Inr ports \<Rightarrow> map_option (rmap (\<lambda>c. (c, ports))) (wait_for_config w 1 fuel))))"

text \<open>The state before the configuration, and the ports of the two servers.\<close>

definition before_start :: "bool \<Rightarrow> exporter" where
  "before_start loader = \<lparr>config_objs = \<lambda>_. [], metrics_objs = \<lambda>_. [], next_addr = 0, current_config = None,
     current_collectors = [], loader_present = loader, reload_flag = False,
     last_collection_time = None, last_collection_error = None\<rparr>"

definition open_ports :: "(int list \<Rightarrow> int \<Rightarrow> bool) \<Rightarrow> pyval \<Rightarrow> int list \<Rightarrow> int list res" where
  "open_ports granted config ports =
     rbind (py_get config ''port'' (PInt 9102)) (\<lambda>metrics_port.
     rbind (bind_port granted metrics_port ports) (\<lambda>ports'.
     rbind (py_get config ''reload_port'' (PInt 9101)) (\<lambda>reload_port. bind_port granted reload_port ports')))"

text \<open>What the start sees of the machine: the ports the system grants, the world when the collectors are
  made and when the exporter is registered, the time and the outcome of the save then.\<close>

record startup =
  grants :: "int list \<Rightarrow> int \<Rightarrow> bool"
  making :: world
  registering :: world
  registering_time :: string
  registering_saved :: bool

text \<open>\<open>REGISTRY.register\<close> asks the collector for the names it exports by calling \<open>collect\<close>, since the
  default registry describes automatically: a whole scrape before any port is open, which registers
  metrics and saves the configuration.\<close>

definition start_with ::
    "runtime \<Rightarrow> startup \<Rightarrow> bool \<Rightarrow> pyval \<Rightarrow> int list \<Rightarrow> (exporter \<times> saving list) res" where
  "start_with rt u loader config ports =
     rbind (initialize_collectors (making u) config) (\<lambda>cs.
     case config of
       PDict d \<Rightarrow>
         (let s = (assign_config d (before_start loader))\<lparr>current_collectors := cs\<rparr>;
              (samples, s', effs) = collect rt (registering u) (registering_time u) (registering_saved u) s
          in rmap (\<lambda>_. (s', effs)) (open_ports (grants u) config ports))
     | _ \<Rightarrow> Inl TypeErr)"

definition main_start ::
    "runtime \<Rightarrow> startup \<Rightarrow> (nat \<Rightarrow> surroundings) \<Rightarrow> nat \<Rightarrow> (exporter \<times> saving list) res option" where
  "main_start rt u env fuel =
     map_option (\<lambda>r. rbind r (\<lambda>(c, ports). start_with rt u (\<not> stub_mode (env 0)) c ports))
       (first_config (grants u) env fuel)"

section \<open>The reload loop\<close>

text \<open>One turn of the loop: the flag is tested, the configuration loaded, applied, the flag cleared,
  whatever happened. Without a loader \<open>load\<close> raises.\<close>

definition reload_load :: "surroundings \<Rightarrow> exporter \<Rightarrow> pyval option res" where
  "reload_load w s = (if loader_present s then fst (load w) else Inl AttributeErr)"

definition main_turn :: "world \<Rightarrow> surroundings \<Rightarrow> bool \<Rightarrow> exporter \<Rightarrow> exporter \<times> saving list" where
  "main_turn w env saved s =
     (if \<not> reload_flag s then (s, [])
      else case reload_load env s of
        Inl e \<Rightarrow> (s\<lparr>reload_flag := False\<rparr>, [])
      | Inr c \<Rightarrow> (let (r, s', effs) = apply_new_config w saved (case c of None \<Rightarrow> PNone | Some v \<Rightarrow> v) s
          in (s'\<lparr>reload_flag := False\<rparr>, effs)))"

section \<open>Threads\<close>

text \<open>Where a scrape stands, and where the main thread stands in a reload.\<close>

datatype scrape =
    Begun held
  | Gathered held metrics
  | Registered held metrics

datatype main_phase = Idle | Loaded "pyval option res" | Prepared "(string \<times> pyval) list" | Assigned | Applied

record system =
  shared :: exporter
  scrapes :: "nat \<Rightarrow> scrape option"
  main_at :: main_phase

definition initial_system :: "exporter \<Rightarrow> system" where
  "initial_system s = \<lparr>shared = s, scrapes = \<lambda>_. None, main_at = Idle\<rparr>"

datatype event =
    ScrapeBegins nat
  | ScrapeGathers nat world string
  | ScrapeRegisters nat bool
  | ScrapeExports nat
  | Serve surroundings int bool request
  | MainLoads surroundings
  | MainPrepares world
  | MainAssigns
  | MainSaves
  | MainClears

text \<open>One step of a thread; an event that no thread can make leaves the system as it is.\<close>

definition scrape_step :: "runtime \<Rightarrow> event \<Rightarrow> system \<Rightarrow> system" where
  "scrape_step rt ev y = (let s = shared y; put = (\<lambda>t p s'. y\<lparr>shared := s', scrapes := (scrapes y)(t := p)\<rparr>) in
     case ev of
       ScrapeBegins t \<Rightarrow>
         if scrapes y t = None then (let (h, s') = collect_begin s in put t (map_option Begun h) s') else y
     | ScrapeGathers t w now \<Rightarrow>
         (case scrapes y t of Some (Begun h) \<Rightarrow> (let (all, s') = collect_gather w now s in
            put t (if all = [] then None else Some (Gathered h all)) s') | _ \<Rightarrow> y)
     | ScrapeRegisters t saved \<Rightarrow>
         (case scrapes y t of Some (Gathered h all) \<Rightarrow> (let (r, s', effs) = collect_register rt saved h all s in
            put t (if returns r then Some (Registered h all) else None) s') | _ \<Rightarrow> y)
     | ScrapeExports t \<Rightarrow>
         (case scrapes y t of Some (Registered h all) \<Rightarrow> put t None (snd (collect_export rt h all s)) | _ \<Rightarrow> y)
     | _ \<Rightarrow> y)"

definition main_step :: "event \<Rightarrow> system \<Rightarrow> system" where
  "main_step ev y = (let s = shared y in
     case (ev, main_at y) of
       (MainLoads w, Idle) \<Rightarrow> if reload_flag s then y\<lparr>main_at := Loaded (reload_load w s)\<rparr> else y
     | (MainPrepares w, Loaded (Inl e)) \<Rightarrow> y\<lparr>main_at := Applied\<rparr>
     | (MainPrepares w, Loaded (Inr c)) \<Rightarrow>
         (let (p, s') = prepare_config w (case c of None \<Rightarrow> PNone | Some v \<Rightarrow> v) s in
          y\<lparr>shared := s', main_at := (case p of GoesOn d \<Rightarrow> Prepared d | _ \<Rightarrow> Applied)\<rparr>)
     | (MainAssigns, Prepared d) \<Rightarrow> y\<lparr>shared := assign_config d s, main_at := Assigned\<rparr>
     | (MainSaves, Assigned) \<Rightarrow> y\<lparr>main_at := Applied\<rparr>
     | (MainClears, Applied) \<Rightarrow> y\<lparr>shared := s\<lparr>reload_flag := False\<rparr>, main_at := Idle\<rparr>
     | _ \<Rightarrow> y)"

definition system_step :: "runtime \<Rightarrow> event \<Rightarrow> system \<Rightarrow> system" where
  "system_step rt ev y = (case ev of
      Serve w uptime saved q \<Rightarrow>
        (let (r, s', effs) = serve rt w uptime saved q (shared y) in y\<lparr>shared := s'\<rparr>)
    | _ \<Rightarrow> main_step ev (scrape_step rt ev y))"

text \<open>The systems that the events allowed lead to.\<close>

inductive reachable_system :: "runtime \<Rightarrow> (event \<Rightarrow> bool) \<Rightarrow> exporter \<Rightarrow> system \<Rightarrow> bool" for rt allowed s where
  start: "reachable_system rt allowed s (initial_system s)"
| step: "reachable_system rt allowed s y \<Longrightarrow> allowed ev \<Longrightarrow> reachable_system rt allowed s (system_step rt ev y)"

definition run_system :: "runtime \<Rightarrow> event list \<Rightarrow> system \<Rightarrow> system" where
  "run_system rt evs y = fold (system_step rt) evs y"

end
