(* ===== verification/ExporterProps.thy ===== *)
theory ExporterProps
  imports Exporter CollectorsProps
begin

text \<open>
  The scrape: the store of configurations stays well formed, a scrape registers every metric it
  collects without touching a setting, exports exactly the enabled ones, and saves nothing when it
  finds nothing new.
\<close>

section \<open>The store\<close>

definition settings :: "exporter \<Rightarrow> nat \<Rightarrow> metrics" where
  "settings s a = (case config_get s a ''metrics'' PNone of PDict m \<Rightarrow> m | _ \<Rightarrow> [])"

text \<open>The field \<open>metrics\<close> can be used: it is a dictionary, or false.\<close>

definition metrics_usable :: "exporter \<Rightarrow> nat \<Rightarrow> bool" where
  "metrics_usable s a = (let v = config_get s a ''metrics'' PNone in truthy v \<longrightarrow> is_dict v)"

lemma metrics_usable_iff: "metrics_usable s a \<longleftrightarrow> (case dget (config_objs s a) ''metrics'' of
    Some (Val v) \<Rightarrow> truthy v \<longrightarrow> is_dict v | _ \<Rightarrow> True)"
  by (auto simp: metrics_usable_def config_get_def slot_value_def Let_def is_dict_def truthy_def
      split: option.split slot.split)

text \<open>References lead to allocated dictionaries, only the field \<open>metrics\<close> is one, and a dictionary there
  always is one.\<close>

definition slot_ok :: "nat \<Rightarrow> string \<times> slot \<Rightarrow> bool" where
  "slot_ok n e = (case snd e of
      Ref r \<Rightarrow> fst e = ''metrics'' \<and> r < n
    | Val v \<Rightarrow> fst e = ''metrics'' \<longrightarrow> \<not> is_dict v)"

definition heap_ok :: "exporter \<Rightarrow> bool" where
  "heap_ok s \<longleftrightarrow> (\<forall>a. \<forall>e \<in> set (config_objs s a). slot_ok (next_addr s) e)
     \<and> (\<forall>a. current_config s = Some a \<longrightarrow> a < next_addr s)"

lemma slot_ok_mono: "slot_ok n e \<Longrightarrow> n \<le> n' \<Longrightarrow> slot_ok n' e"
  by (auto simp: slot_ok_def split: slot.splits)

lemma heap_ok_slot: "heap_ok s \<Longrightarrow> dget (config_objs s a) k = Some sl \<Longrightarrow> slot_ok (next_addr s) (k, sl)"
  using dget_in_set by (fastforce simp: heap_ok_def)

text \<open>What a step leaves alone: everything but the store.\<close>

definition same_frame :: "exporter \<Rightarrow> exporter \<Rightarrow> bool" where
  "same_frame s s' \<longleftrightarrow> current_config s' = current_config s \<and> current_collectors s' = current_collectors s
     \<and> loader_present s' = loader_present s \<and> reload_flag s' = reload_flag s
     \<and> last_collection_time s' = last_collection_time s \<and> last_collection_error s' = last_collection_error s"

lemma same_frame_refl [simp]: "same_frame s s"
  by (simp add: same_frame_def)

lemma same_frame_trans: "same_frame s t \<Longrightarrow> same_frame t u \<Longrightarrow> same_frame s u"
  by (simp add: same_frame_def)

lemma not_dict_iff: "\<not> is_dict v \<longleftrightarrow> (\<forall>d. v \<noteq> PDict d)"
  by (cases v) (auto simp: is_dict_def)

lemma truthy_PDict [simp]: "truthy (PDict d) \<longleftrightarrow> d \<noteq> []"
  by (simp add: truthy_def)

text \<open>\<open>config.get("metrics") or {}\<close> is a dictionary with the settings, the configuration's own one or new.\<close>

lemma metrics_or_new_usable:
  assumes "heap_ok s" "metrics_usable s a" "metrics_or_new a s = (sl, s')"
  shows "\<exists>r. sl = Ref r \<and> metrics_objs s' r = settings s a \<and> r < next_addr s'
    \<and> (dget (config_objs s a) ''metrics'' = Some (Ref r) \<and> s' = s \<and> settings s a \<noteq> []
       \<or> r = next_addr s \<and> settings s a = [])"
proof (cases "dget (config_objs s a) ''metrics''")
  case None
  then show ?thesis using assms(3)
    by (auto simp: metrics_or_new_def fresh_metrics_def settings_def config_get_def)
next
  case (Some x)
  note ok = heap_ok_slot [OF assms(1) Some]
  show ?thesis
  proof (cases x)
    case (Ref r)
    then show ?thesis using Some ok assms(3)
      by (auto simp: metrics_or_new_def fresh_metrics_def settings_def config_get_def slot_value_def slot_ok_def
          split: if_splits)
  next
    case (Val v)
    then have "\<not> is_dict v" using ok by (simp add: slot_ok_def)
    moreover from this have "\<not> truthy v"
      using assms(2) Some Val by (auto simp: metrics_usable_def config_get_def slot_value_def Let_def)
    ultimately show ?thesis using Some Val assms(3)
      by (auto simp: metrics_or_new_def fresh_metrics_def settings_def config_get_def slot_value_def not_dict_iff
          split: pyval.split)
  qed
qed

lemma metrics_or_new_store:
  assumes "heap_ok s" "metrics_or_new a s = (sl, s')"
  shows "heap_ok s' \<and> same_frame s s' \<and> config_objs s' = config_objs s \<and> next_addr s \<le> next_addr s'
    \<and> (\<forall>r < next_addr s. metrics_objs s' r = metrics_objs s r)"
  using assms unfolding metrics_or_new_def fresh_metrics_def heap_ok_def same_frame_def
  by (fastforce split: option.splits if_splits intro: slot_ok_mono less_SucI)

lemma unchanged_store:
  assumes "heap_ok s" "config_objs s' = config_objs s" "\<forall>r < next_addr s. metrics_objs s' r = metrics_objs s r"
  shows "config_get s' b k v = config_get s b k v"
proof (cases "dget (config_objs s b) k")
  case (Some sl)
  from heap_ok_slot [OF assms(1) Some] show ?thesis using Some assms(2,3)
    by (auto simp: config_get_def slot_value_def slot_ok_def split: slot.splits)
qed (simp add: config_get_def assms(2))

lemma settings_cong: "config_get s' a ''metrics'' PNone = config_get s b ''metrics'' PNone \<Longrightarrow> settings s' a = settings s b"
  by (simp add: settings_def)

lemma set_metrics_fold:
  "fold (\<lambda>k. set_metric r k v) ks s = s\<lparr>metrics_objs := (metrics_objs s)(r := fold (\<lambda>k d. dset d k v) ks (metrics_objs s r))\<rparr>"
  by (induction ks arbitrary: s) (simp_all add: set_metric_def)

lemma heap_ok_metrics_objs [simp]: "heap_ok (s\<lparr>metrics_objs := f\<rparr>) = heap_ok s"
  by (simp add: heap_ok_def)

lemma heap_ok_assign:
  assumes "heap_ok s" "r < next_addr s"
  shows "heap_ok (assign_metrics a (Ref r) s)"
  using assms in_set_dset [of _ "config_objs s a" "''metrics''" "Ref r"]
  by (fastforce simp: heap_ok_def assign_metrics_def slot_ok_def)

lemma settings_assign [simp]: "settings (assign_metrics a (Ref r) s) a = metrics_objs s r"
  by (simp add: settings_def config_get_def assign_metrics_def slot_value_def dict_simps)

lemma config_get_assign [simp]:
  "k \<noteq> ''metrics'' \<Longrightarrow> config_get (assign_metrics a sl s) b k v = config_get s b k v"
  by (auto simp: config_get_def assign_metrics_def slot_value_def dict_simps split: option.split slot.split)

lemma assign_metrics_frame [simp]: "same_frame s (assign_metrics a sl s)"
  by (simp add: same_frame_def assign_metrics_def)

section \<open>What a scrape collects\<close>

lemma wf_update_pairs: "wf_dict d \<Longrightarrow> wf_dict (update_pairs d xs)"
  by (induction d xs rule: update_pairs.induct) (auto simp: wf_dict_dset split: option.split)

lemma wf_py_update: "wf_dict d \<Longrightarrow> wf_dict (py_update d v)"
  by (auto simp: py_update_def wf_dict_dupdate wf_update_pairs split: pyval.split)

lemma wf_gather: "wf_dict acc \<Longrightarrow> wf_dict (fst (gather w cs acc))"
  by (induction cs arbitrary: acc) (auto simp: Let_def split_def wf_py_update)

definition collected :: "world \<Rightarrow> exporter \<Rightarrow> metrics" where
  "collected w s = fst (gather w (current_collectors s) [])"

lemma wf_collected: "wf_dict (collected w s)"
  by (simp add: collected_def wf_gather)

text \<open>The settings a scrape leaves: the new names switched on.\<close>

definition registered :: "runtime \<Rightarrow> metrics \<Rightarrow> metrics \<Rightarrow> metrics" where
  "registered rt all m = fold (\<lambda>k d. dset d k (PBool True)) (set_order rt (new_names all m)) m"

lemma dget_fold_dset: "dget (fold (\<lambda>k d. dset d k v) ks m) k = (if k \<in> set ks then Some v else dget m k)"
  by (induction ks arbitrary: m) (auto simp: dict_simps)

definition order_ok :: "runtime \<Rightarrow> bool" where
  "order_ok rt \<longleftrightarrow> (\<forall>xs. set (set_order rt xs) = set xs)"

lemma order_ok_Nil: "order_ok rt \<Longrightarrow> set_order rt xs = [] \<longleftrightarrow> xs = []"
  by (metis order_ok_def set_empty)

lemma new_names_set: "set (new_names all m) = set (dkeys all) - set (dkeys m)"
  by (auto simp: new_names_def dhas_iff)

lemma dget_registered:
  "order_ok rt \<Longrightarrow> dget (registered rt all m) k =
     (if k \<in> set (dkeys all) \<and> dget m k = None then Some (PBool True) else dget m k)"
  by (auto simp: registered_def dget_fold_dset order_ok_def new_names_set dget_None_iff)

lemma registered_nothing: "order_ok rt \<Longrightarrow> new_names all m = [] \<Longrightarrow> registered rt all m = m"
  using order_ok_Nil [of rt "[]"] by (simp add: registered_def)

text \<open>A scrape can run: there are collectors and a configuration that is not empty.\<close>

definition can_scrape :: "exporter \<Rightarrow> nat \<Rightarrow> bool" where
  "can_scrape s a \<longleftrightarrow> current_config s = Some a \<and> current_collectors s \<noteq> [] \<and> config_objs s a \<noteq> []"

lemma collect_begin_can:
  "can_scrape s a \<Longrightarrow> collect_begin s = (let (sl, s') = metrics_or_new a s
     in (Some (sl, config_get s a ''device_type'' (PStr ''unknown'')), s'))"
  by (simp add: can_scrape_def collect_begin_def)

lemma collect_gather_store:
  "collect_gather w now s = (all, s') \<Longrightarrow> config_objs s' = config_objs s \<and> metrics_objs s' = metrics_objs s
     \<and> next_addr s' = next_addr s \<and> current_config s' = current_config s \<and> loader_present s' = loader_present s
     \<and> reload_flag s' = reload_flag s \<and> all = collected w s
     \<and> current_collectors s' = snd (gather w (current_collectors s) [])"
  by (auto simp: collect_gather_def collected_def Let_def split_def split: if_splits)

lemma same_store_heap_ok:
  "config_objs s' = config_objs s \<Longrightarrow> next_addr s' = next_addr s \<Longrightarrow> current_config s' = current_config s \<Longrightarrow>
    heap_ok s' = heap_ok s"
  by (simp add: heap_ok_def)

lemma same_store_get:
  "config_objs s' = config_objs s \<Longrightarrow> metrics_objs s' = metrics_objs s \<Longrightarrow> config_get s' a k v = config_get s a k v"
  by (auto simp: config_get_def slot_value_def split: option.split slot.split)

lemma same_store_value:
  "config_objs s' = config_objs s \<Longrightarrow> metrics_objs s' = metrics_objs s \<Longrightarrow> config_value s' a = config_value s a"
  by (auto simp: config_value_def slot_value_def split: slot.split)

text \<open>Registration, when the scrape holds the configuration's own dictionary or there is none.\<close>

lemma collect_register_spec:
  assumes "heap_ok s" "r < next_addr s" "current_config s = Some a" "order_ok rt"
    and "settings s a = metrics_objs s r \<or> new_names all (metrics_objs s r) \<noteq> []"
    and "collect_register rt saved (Ref r, dt) all s = (e, s', effs)"
  shows "returns e \<and> heap_ok s' \<and> same_frame s s' \<and> settings s' a = registered rt all (metrics_objs s r)
    \<and> metrics_objs s' r = registered rt all (metrics_objs s r)
    \<and> effs = (if loader_present s \<and> new_names all (metrics_objs s r) \<noteq> [] then save_and_sync saved a s' else [])
    \<and> (\<forall>k v. k \<noteq> ''metrics'' \<longrightarrow> config_get s' a k v = config_get s a k v) \<and> next_addr s' = next_addr s"
proof (cases "new_names all (metrics_objs s r) = []")
  case True
  then have "(e, s', effs) = (Inr (), s, [])"
    using assms(4,6) order_ok_Nil [of rt "[]"] by (simp add: collect_register_def)
  then show ?thesis using assms True by (auto simp: registered_nothing)
next
  case False
  define s1 where "s1 = fold (\<lambda>k. set_metric r k (PBool True)) (set_order rt (new_names all (metrics_objs s r))) s"
  have s1: "s1 = s\<lparr>metrics_objs := (metrics_objs s)(r := registered rt all (metrics_objs s r))\<rparr>"
    by (simp add: s1_def set_metrics_fold registered_def)
  from False have res: "e = Inr ()" "s' = assign_metrics a (Ref r) s1"
    "effs = (if loader_present s then save_and_sync saved a s' else [])"
    using assms(3,4,6) order_ok_Nil
    by (auto simp: collect_register_def Let_def s1_def [symmetric])
  have get1: "config_get s1 b k v = config_get s b k v" if "k \<noteq> ''metrics''" for b k v
  proof (cases "dget (config_objs s b) k")
    case (Some sl)
    from heap_ok_slot [OF assms(1) Some] that show ?thesis
      using Some by (auto simp: config_get_def slot_value_def slot_ok_def s1 split: slot.splits)
  qed (simp add: config_get_def s1)
  have f1: "same_frame s s1" "heap_ok s1" "next_addr s1 = next_addr s" "loader_present s1 = loader_present s"
    "metrics_objs s1 r = registered rt all (metrics_objs s r)"
    using assms(1) by (simp_all add: s1 same_frame_def)
  have f2: "metrics_objs s' = metrics_objs s1" "next_addr s' = next_addr s1"
    by (simp_all add: res assign_metrics_def)
  have "heap_ok s'" "same_frame s s'" "settings s' a = metrics_objs s1 r"
    using heap_ok_assign [OF f1(2)] assms(2) f1 same_frame_trans [OF f1(1) assign_metrics_frame] by (simp_all add: res(2))
  then show ?thesis using f1 f2 False get1 res by simp
qed

lemma collect_spec:
  assumes "heap_ok s" "order_ok rt" "can_scrape s a" "metrics_usable s a"
    and "collect rt w now saved s = (xs, s', effs)" "collected w s \<noteq> []"
  defines "m \<equiv> registered rt (collected w s) (settings s a)"
  defines "out \<equiv> export rt m (config_get s a ''device_type'' (PStr ''unknown'')) (collected w s)"
  shows "xs = fst out \<and> settings s' a = m \<and> heap_ok s' \<and> current_config s' = Some a
    \<and> effs = (if loader_present s \<and> new_names (collected w s) (settings s a) \<noteq> [] then save_and_sync saved a s' else [])
    \<and> (\<forall>k v. k \<noteq> ''metrics'' \<longrightarrow> config_get s' a k v = config_get s a k v)
    \<and> current_collectors s' = snd (gather w (current_collectors s) []) \<and> loader_present s' = loader_present s
    \<and> last_collection_time s' = Some now
    \<and> last_collection_error s' = (case snd out of Inl e \<Rightarrow> Some (Failed e) | Inr u \<Rightarrow> None)"
proof -
  define dt where "dt = config_get s a ''device_type'' (PStr ''unknown'')"
  obtain sl s1 where b: "metrics_or_new a s = (sl, s1)" by fastforce
  obtain r where r: "sl = Ref r" "metrics_objs s1 r = settings s a" "r < next_addr s1"
    using metrics_or_new_usable [OF assms(1,4) b] by blast
  have s1: "heap_ok s1" "same_frame s s1" "config_objs s1 = config_objs s" "\<And>b k v. config_get s1 b k v = config_get s b k v"
    using metrics_or_new_store [OF assms(1) b] unchanged_store [OF assms(1)] by blast+
  obtain all s2 where g: "collect_gather w now s1 = (all, s2)" by fastforce
  note s2 = collect_gather_store [OF g]
  have all: "all = collected w s" using s1(2) s2 by (simp add: collected_def same_frame_def)
  have h2: "heap_ok s2" using s1(1) same_store_heap_ok [of s2 s1] s2 by simp
  have set2: "settings s2 a = metrics_objs s2 r"
    using settings_cong [of s2 a s1 a] settings_cong [of s1 a s a] same_store_get [of s2 s1] s1(4) s2 r(2) by simp
  have r2: "metrics_objs s2 r = settings s a" using s2 r(2) by simp
  have cur: "current_config s2 = Some a" using s1(2) s2 assms(3) by (simp add: same_frame_def can_scrape_def)
  have time: "last_collection_time s2 = Some now \<and> last_collection_error s2 = None"
    using g all assms(6) by (auto simp: collect_gather_def Let_def split_def split: if_splits)
  obtain e s3 effs' where reg: "collect_register rt saved (Ref r, dt) all s2 = (e, s3, effs')"
    using prod_cases3 by blast
  note s3 = collect_register_spec [OF h2 _ cur assms(2) disjI1 [OF set2] reg, unfolded r2]
  have s3: "returns e" "heap_ok s3" "same_frame s2 s3" "settings s3 a = m" "metrics_objs s3 r = m"
    "effs' = (if loader_present s2 \<and> new_names all (settings s a) \<noteq> [] then save_and_sync saved a s3 else [])"
    "\<And>k v. k \<noteq> ''metrics'' \<Longrightarrow> config_get s3 a k v = config_get s2 a k v"
    using s3 r(3) s2 all by (simp_all add: m_def)
  then obtain u where e: "e = Inr u" by (auto simp: returns_iff)
  obtain x4 s4 where ex: "collect_export rt (Ref r, dt) all s3 = (x4, s4)" by fastforce
  have fin: "xs = x4" "s' = s4" "effs = effs'"
    using assms(5) collect_begin_can [OF assms(3)] b g reg e ex all assms(6) r(1)
    by (simp_all add: collect_def dt_def)
  have s4: "x4 = fst out" "s4 = (case snd out of Inr u \<Rightarrow> s3 | Inl x \<Rightarrow> s3\<lparr>last_collection_error := Some (Failed x)\<rparr>)"
    using ex s3(5) by (auto simp: collect_export_def out_def dt_def all split_def Let_def)
  have st4: "config_objs s4 = config_objs s3" "metrics_objs s4 = metrics_objs s3" "next_addr s4 = next_addr s3"
    "current_config s4 = current_config s3" "current_collectors s4 = current_collectors s3"
    "loader_present s4 = loader_present s3" "last_collection_time s4 = last_collection_time s3"
    "last_collection_error s4 = (case snd out of Inl e \<Rightarrow> Some (Failed e) | Inr u \<Rightarrow> last_collection_error s3)"
    using s4(2) by (auto split: sum.split)
  have get4: "config_get s4 a k v = config_get s a k v" if "k \<noteq> ''metrics''" for k v
    using that same_store_get [OF st4(1,2)] s3(7) same_store_get [of s2 s1] s2 s1(4) by simp
  have "settings s4 a = m" using settings_cong [OF same_store_get [OF st4(1,2)]] s3(4) by simp
  moreover have "heap_ok s4" using s3(2) same_store_heap_ok [OF st4(1,3,4)] by simp
  moreover have "save_and_sync saved a s4 = save_and_sync saved a s3"
    by (simp add: save_and_sync_def same_store_value [OF st4(1,2)])
  ultimately show ?thesis using fin s4(1) st4 s3 s2 s1(2) time assms(3) all get4
    by (cases "snd out") (simp_all add: same_frame_def can_scrape_def)
qed

section \<open>Properties of the scrape\<close>

text \<open>(C3) A scrape that collects something registers every collected name: afterwards each has a
  setting, a name that had one keeps it, a new one is on, and no other name appears.\<close>

theorem scrape_registers_all:
  assumes "heap_ok s" "order_ok rt" "can_scrape s a" "metrics_usable s a" "collected w s \<noteq> []"
    and "collect rt w now saved s = (xs, s', effs)"
  shows "dget (settings s' a) k = (case dget (settings s a) k of
      Some v \<Rightarrow> Some v
    | None \<Rightarrow> if k \<in> set (dkeys (collected w s)) then Some (PBool True) else None)"
  using collect_spec [OF assms(1-4,6,5)] dget_registered [OF assms(2)] by (auto split: option.split)

definition sample_of :: "runtime \<Rightarrow> pyval \<Rightarrow> string \<times> pyval \<Rightarrow> sample" where
  "sample_of rt dt kv = \<lparr>metric = fst kv, device_label = dt, host_label = host rt, reading = snd kv\<rparr>"

lemma export_all:
  "\<forall>k \<in> set (dkeys all). enabled_in m k \<longrightarrow> gauge_ok rt k \<Longrightarrow>
    export rt m dt all = (map (sample_of rt dt) (filter (\<lambda>(k, v). enabled_in m k) all), Inr ())"
  by (induction all rule: export.induct [where ?a0.0 = rt and ?a1.0 = m and ?a2.0 = dt]) 
    (auto simp: sample_of_def Let_def)

text \<open>(C4) With names the client library accepts, a scrape exports, once each and in the order of
  collection, the collected metrics whose setting was true before the scrape or that had none, with
  the collected value, the device type and the host name, and no metric that is switched off.\<close>

theorem scrape_exports_enabled:
  assumes "heap_ok s" "order_ok rt" "can_scrape s a" "metrics_usable s a" "collected w s \<noteq> []"
    and "collect rt w now saved s = (xs, s', effs)" "list_all (gauge_ok rt) (dkeys (collected w s))"
  shows "xs = map (\<lambda>(k, v). \<lparr>metric = k, device_label = config_get s a ''device_type'' (PStr ''unknown''),
        host_label = host rt, reading = v\<rparr>)
      (filter (\<lambda>(k, v). case dget (settings s a) k of None \<Rightarrow> True | Some setting \<Rightarrow> truthy setting)
        (collected w s))
    \<and> distinct (map metric xs)"
proof -
  let ?m = "registered rt (collected w s) (settings s a)"
  let ?old = "\<lambda>(k, v). case dget (settings s a) k of None \<Rightarrow> True | Some setting \<Rightarrow> truthy setting"
  have "enabled_in ?m k = ?old (k, v)" if "(k, v) \<in> set (collected w s)" for k v
  proof -
    have "k \<in> set (dkeys (collected w s))" using that by (force simp: dkeys_def)
    then show ?thesis
      by (auto simp: enabled_in_def dget_or_def dget_registered [OF assms(2)] truthy_def split: option.split)
  qed
  then have en: "filter (\<lambda>(k, v). enabled_in ?m k) (collected w s) = filter ?old (collected w s)"
    by (intro filter_cong) auto
  have xs: "xs = map (sample_of rt (config_get s a ''device_type'' (PStr ''unknown''))) (filter ?old (collected w s))"
    using collect_spec [OF assms(1-4,6,5)] export_all [of "collected w s" ?m rt] assms(7) en
    by (simp add: list_all_iff)
  have "distinct (map fst (filter ?old (collected w s)))"
    using wf_collected [of w s] by (simp add: wf_dict_def dkeys_def distinct_map_filter)
  moreover have "map metric xs = map fst (filter ?old (collected w s))" using xs by (simp add: sample_of_def comp_def)
  moreover have "sample_of rt dt = (\<lambda>(k, v). \<lparr>metric = k, device_label = dt, host_label = host rt, reading = v\<rparr>)" for dt
    by (auto simp: sample_of_def fun_eq_iff)
  ultimately show ?thesis using xs by (simp only: simp_thms)
qed

text \<open>(C32) A scrape that follows another and collects no name the first did not saves and syncs nothing, and
  leaves every setting as it is.\<close>

theorem rescrape_saves_nothing:
  assumes "heap_ok s" "order_ok rt" "can_scrape s a" "metrics_usable s a" "collected w s \<noteq> []"
    and "collect rt w now saved s = (xs, s1, effs)"
    and "collected w' s1 \<noteq> []" "set (dkeys (collected w' s1)) \<subseteq> set (dkeys (collected w s))"
    and "collect rt w' now' saved' s1 = (ys, s2, effs')"
  shows "effs' = [] \<and> settings s2 a = settings s1 a"
proof -
  note spec = collect_spec [OF assms(1-4,6,5)]
  have set1: "settings s1 a = registered rt (collected w s) (settings s a)" using spec by blast
  have nn: "new_names (collected w' s1) (settings s1 a) = []"
  proof -
    have "k \<in> set (dkeys (settings s1 a))" if "k \<in> set (dkeys (collected w s))" for k
      using that dget_registered [OF assms(2)] set1 by (metis dget_None_iff option.distinct(1))
    then have "set (new_names (collected w' s1) (settings s1 a)) = {}" using assms(8) unfolding new_names_set by blast
    then show ?thesis by simp
  qed
  have ne: "settings s1 a \<noteq> []"
  proof -
    obtain k where "k \<in> set (dkeys (collected w s))"
      using assms(5) by (cases "collected w s") (auto simp: dkeys_def)
    then have "dget (settings s1 a) k \<noteq> None" using dget_registered [OF assms(2)] set1 by (auto split: if_splits)
    then show ?thesis by auto
  qed
  then have md: "is_dict (config_get s1 a ''metrics'' PNone)"
    by (auto simp: settings_def is_dict_def split: pyval.splits)
  then have "metrics_usable s1 a" by (simp add: metrics_usable_def Let_def)
  moreover have "length (snd (gather w cs acc)) = length cs" for cs acc
    by (induction cs arbitrary: acc) (auto simp: Let_def split_def)
  then have "current_collectors s1 \<noteq> []" using spec assms(3) by (metis can_scrape_def length_0_conv)
  moreover have "config_objs s1 a \<noteq> []" using md by (auto simp: config_get_def is_dict_def)
  ultimately have "can_scrape s1 a" "metrics_usable s1 a" "heap_ok s1"
    using spec by (simp_all add: can_scrape_def)
  from collect_spec [OF this(3) assms(2) this(1,2) assms(9,7)] show ?thesis
    using nn registered_nothing [OF assms(2) nn] by simp
qed

section \<open>Witnesses\<close>

text \<open>A running exporter: device type \<open>shelly\<close>, one metric switched off; the Shelly server reports two.\<close>

definition sample_exporter :: exporter where
  "sample_exporter = \<lparr> config_objs = (\<lambda>a. if a = 0 then [(''device_type'', Val (PStr ''shelly'')), (''metrics'', Ref 1),
       (''shelly'', Val (PDict [(''server_url'', PStr ''u''), (''enabled'', PBool False)]))] else []),
     metrics_objs = (\<lambda>r. if r = 1 then [(''a'', PBool False)] else []), next_addr = 2, current_config = Some 0,
     current_collectors = [ShellyCollector (PStr ''u'')], loader_present = True, reload_flag = False,
     last_collection_time = None, last_collection_error = None \<rparr>"

definition sample_runtime :: runtime where
  "sample_runtime = \<lparr> host = ''edge'', gauge_ok = (\<lambda>k. True), set_order = (\<lambda>xs. xs) \<rparr>"

definition shelly_world :: world where
  "shelly_world = sample_world \<lparr> http_get := \<lambda>u. HttpResponse 200 (Some (PDict [(''metrics'', PDict [(''a'', PInt 1), (''b'', PInt 2)])])) \<rparr>"

lemma sample_order: "order_ok sample_runtime"
  by (simp add: order_ok_def sample_runtime_def)

lemma sample_exporter_ok:
  "heap_ok sample_exporter" "can_scrape sample_exporter 0" "metrics_usable sample_exporter 0"
  "settings sample_exporter 0 = [(''a'', PBool False)]" "current_config sample_exporter = Some 0"
  by (simp_all add: heap_ok_def slot_ok_def can_scrape_def metrics_usable_iff settings_def config_get_def slot_value_def
      sample_exporter_def dget_def)

lemma shelly_gather:
  "gather shelly_world [ShellyCollector (PStr ''u'')] [] = ([(''a'', PInt 1), (''b'', PInt 2)], [ShellyCollector (PStr ''u'')])"
  by (simp add: safe_get_metrics_def collector_get_metrics_def shelly_get_metrics_def shelly_world_def fetch_json_def
      http_ok_def py_get_def dget_or_def dget_def py_update_def dupdate_def)

lemma sample_collected: "current_collectors s = [ShellyCollector (PStr ''u'')] \<Longrightarrow>
    collected shelly_world s = [(''a'', PInt 1), (''b'', PInt 2)]"
  by (simp add: collected_def shelly_gather del: gather.simps)

lemma sample_collectors: "current_collectors sample_exporter = [ShellyCollector (PStr ''u'')]"
  by (simp add: sample_exporter_def)

lemma sample_collected_some: "collected shelly_world sample_exporter \<noteq> []"
  by (simp add: sample_collected [OF sample_collectors])

abbreviation (input) sample_scrape :: "sample list \<times> exporter \<times> saving list" where
  "sample_scrape \<equiv> collect sample_runtime shelly_world ''now'' True sample_exporter"

lemma sample_scrape: "sample_scrape = (fst sample_scrape, fst (snd sample_scrape), snd (snd sample_scrape))"
  by simp

lemma scrape_registers_all_witness:
  "dget (settings (fst (snd sample_scrape)) 0) ''b'' = Some (PBool True)
    \<and> dget (settings (fst (snd sample_scrape)) 0) ''a'' = Some (PBool False)"
  using scrape_registers_all [OF sample_exporter_ok(1) sample_order sample_exporter_ok(2,3) sample_collected_some sample_scrape, of "''a''"]
    scrape_registers_all [OF sample_exporter_ok(1) sample_order sample_exporter_ok(2,3) sample_collected_some sample_scrape, of "''b''"]
  by (simp add: sample_exporter_ok(4) sample_collected [OF sample_collectors] dget_def)

lemma scrape_exports_enabled_witness: "map metric (fst sample_scrape) = [''b'']"
proof -
  have "gauge_ok sample_runtime k" for k by (simp add: sample_runtime_def)
  then show ?thesis
    using scrape_exports_enabled [OF sample_exporter_ok(1) sample_order sample_exporter_ok(2,3) sample_collected_some sample_scrape]
    by (simp add: sample_exporter_ok(4) sample_collected [OF sample_collectors] dget_def truthy_def)
qed

lemma rescrape_saves_nothing_witness:
  "snd (snd (collect sample_runtime shelly_world ''later'' True (fst (snd sample_scrape)))) = []"
proof -
  have c: "current_collectors (fst (snd sample_scrape)) = [ShellyCollector (PStr ''u'')]"
    using collect_spec [OF sample_exporter_ok(1) sample_order sample_exporter_ok(2,3) sample_scrape sample_collected_some]
    by (simp add: sample_collectors shelly_gather del: gather.simps)
  have "collected shelly_world (fst (snd sample_scrape)) = collected shelly_world sample_exporter"
    by (simp only: sample_collected [OF c] sample_collected [OF sample_collectors])
  then show ?thesis
    using rescrape_saves_nothing [OF sample_exporter_ok(1) sample_order sample_exporter_ok(2,3) sample_collected_some sample_scrape,
        of shelly_world "''later''" True] sample_collected_some
    by (metis prod.collapse subset_refl)
qed

end
