(* ===== verification/ManagementApiProps.thy ===== *)
theory ManagementApiProps
  imports ManagementApi ExporterProps
begin

text \<open>
  The management server: no request adds or removes a metric name, a successful update sets exactly
  the settings it names and saves them, a refused one may have applied a part; the health report
  after a scrape.
\<close>

section \<open>The loop over the updates\<close>

lemma set_metric_store [simp]:
  "config_objs (set_metric r k v s) = config_objs s" "next_addr (set_metric r k v s) = next_addr s"
  "heap_ok (set_metric r k v s) = heap_ok s" "same_frame s (set_metric r k v s)"
  by (simp_all add: set_metric_def same_frame_def)

lemma slot_value_Ref [simp]: "slot_value s (Ref r) = PDict (metrics_objs s r)"
  by (simp add: slot_value_def)

text \<open>Whatever ends the loop, only values of names that were there have changed, in the one dictionary.\<close>

lemma apply_updates_store:
  assumes "apply_updates sl us bad n s = (e, s')" "heap_ok s"
  shows "config_objs s' = config_objs s \<and> next_addr s' = next_addr s \<and> same_frame s s' \<and> heap_ok s'
    \<and> (\<forall>r. dkeys (metrics_objs s' r) = dkeys (metrics_objs s r))
    \<and> (\<forall>r. sl \<noteq> Ref r \<longrightarrow> metrics_objs s' r = metrics_objs s r)"
  using assms
proof (induction us arbitrary: bad n s)
  case (Cons kv us)
  obtain k v where kv: "kv = (k, v)" by fastforce
  show ?case
  proof (cases "is_bool v \<and> py_in k (slot_value s sl) = Inr True")
    case False
    then show ?thesis using Cons by (auto simp: kv split: if_splits sum.splits bool.splits)
  next
    case True
    show ?thesis
    proof (cases sl)
      case (Ref r)
      then have k: "k \<in> set (dkeys (metrics_objs s r))" using True by (simp add: py_in_def dhas_iff)
      from True Cons(2) Ref kv have *: "apply_updates sl us bad (Suc n) (set_metric r k v s) = (e, s')" by simp
      have "heap_ok (set_metric r k v s)" using Cons(3) by simp
      from Cons(1) [OF * this] show ?thesis using k Ref
        by (auto simp: set_metric_def same_frame_def dset_present_keys)
    qed (use Cons True kv in \<open>auto split: if_splits sum.splits bool.splits\<close>)
  qed
qed auto

text \<open>The loop ends with all names known exactly when every value is a bool and every name is known; then
  the dictionary is updated with the request.\<close>

lemma apply_updates_all_known:
  "(\<exists>n'. fst (apply_updates (Ref r) us [] n s) = AllKnown n')
     \<longleftrightarrow> (\<forall>(k, v) \<in> set us. is_bool v \<and> k \<in> set (dkeys (metrics_objs s r)))"
proof -
  have gen: "(\<exists>n'. fst (apply_updates (Ref r) us bad n s) = AllKnown n')
     \<longleftrightarrow> bad = [] \<and> (\<forall>(k, v) \<in> set us. is_bool v \<and> k \<in> set (dkeys (metrics_objs s r)))" for bad
  proof (induction us arbitrary: bad n s)
    case (Cons kv us)
    obtain k v where kv: "kv = (k, v)" by fastforce
    show ?case
    proof (cases "is_bool v \<and> k \<in> set (dkeys (metrics_objs s r))")
      case True
      then have "dkeys (metrics_objs (set_metric r k v s) r) = dkeys (metrics_objs s r)"
        by (simp add: set_metric_def dset_present_keys)
      then show ?thesis using True Cons [of bad "Suc n" "set_metric r k v s"]
        by (simp add: kv py_in_def dhas_iff)
    next
      case False
      then show ?thesis using Cons [of "bad @ [k]" n s] by (auto simp: kv py_in_def dhas_iff)
    qed
  qed simp
  show ?thesis using gen [of "[]"] by simp
qed

lemma apply_updates_result:
  "apply_updates (Ref r) us [] n s = (AllKnown n', s') \<Longrightarrow>
    n' = n + length us \<and> metrics_objs s' r = dupdate (metrics_objs s r) us"
proof -
  have "bad = [] \<Longrightarrow> apply_updates (Ref r) us bad n s = (AllKnown n', s') \<Longrightarrow>
      n' = n + length us \<and> metrics_objs s' r = dupdate (metrics_objs s r) us" for bad
  proof (induction us arbitrary: n s bad)
    case (Cons kv us)
    obtain k v where kv: "kv = (k, v)" by fastforce
    have b: "is_bool v \<and> k \<in> set (dkeys (metrics_objs s r))"
      using apply_updates_all_known [of r "kv # us" n s] Cons(2,3) by (auto simp: kv)
    then show ?case using Cons(1) [OF refl, of "Suc n" "set_metric r k v s"] Cons(2,3)
      by (simp add: kv py_in_def dhas_iff dict_simps set_metric_def)
  qed (simp add: dupdate_def)
  then show "apply_updates (Ref r) us [] n s = (AllKnown n', s') \<Longrightarrow> ?thesis" by blast
qed

section \<open>Properties of the requests\<close>

text \<open>The locked part: the configuration stays current, its names stay, and so do its other fields.\<close>

text \<open>A configuration's own dictionary, when it is not empty, stays its own.\<close>

definition keeps_dict :: "nat \<Rightarrow> exporter \<Rightarrow> exporter \<Rightarrow> bool" where
  "keeps_dict a s s' \<longleftrightarrow> (\<forall>r. dget (config_objs s a) ''metrics'' = Some (Ref r) \<and> metrics_objs s r \<noteq> [] \<longrightarrow>
     dget (config_objs s' a) ''metrics'' = Some (Ref r))"

lemma keeps_dict_same: "config_objs s' = config_objs s \<Longrightarrow> keeps_dict a s s'"
  by (simp add: keeps_dict_def)

lemma keeps_dict_refl [simp]: "keeps_dict a s s"
  by (simp add: keeps_dict_def)

definition names_kept :: "exporter \<Rightarrow> exporter \<Rightarrow> bool" where
  "names_kept s s' \<longleftrightarrow> current_config s' = current_config s \<and> current_collectors s' = current_collectors s
     \<and> next_addr s \<le> next_addr s' \<and> (\<forall>a. keeps_dict a s s') \<and> (\<forall>a. metrics_usable s a \<longrightarrow> metrics_usable s' a)
     \<and> (\<forall>a. current_config s = Some a \<longrightarrow> dkeys (settings s' a) = dkeys (settings s a)
          \<and> (\<forall>k v. k \<noteq> ''metrics'' \<longrightarrow> config_get s' a k v = config_get s a k v))"

lemma names_kept_refl [simp]: "names_kept s s"
  by (simp add: names_kept_def)

lemma dkeys_settings_cong:
  assumes "heap_ok s" "config_objs s' = config_objs s"
    and "\<forall>r < next_addr s. dkeys (metrics_objs s' r) = dkeys (metrics_objs s r)"
  shows "dkeys (settings s' a) = dkeys (settings s a) \<and> (k \<noteq> ''metrics'' \<longrightarrow> config_get s' a k v = config_get s a k v)"
proof -
  have "dkeys (settings s' a) = dkeys (settings s a)"
    using assms heap_ok_slot [OF assms(1), of a "''metrics''"]
    by (auto simp: settings_def config_get_def slot_ok_def slot_value_def split: option.split slot.splits)
  moreover have "config_get s' a k v = config_get s a k v" if "k \<noteq> ''metrics''"
    using that assms heap_ok_slot [OF assms(1), of a k]
    by (auto simp: config_get_def slot_ok_def slot_value_def split: option.split slot.splits)
  ultimately show ?thesis by blast
qed

lemma metrics_or_new_names_kept:
  assumes "heap_ok s" "metrics_or_new a s = (sl, s')"
  shows "names_kept s s' \<and> heap_ok s'"
  using metrics_or_new_store [OF assms] dkeys_settings_cong [OF assms(1), of s']
  by (auto simp: names_kept_def same_frame_def metrics_usable_iff keeps_dict_same)

lemma metrics_usable_assign:
  "(\<forall>v. sl = Val v \<longrightarrow> dget (config_objs s a) ''metrics'' = Some sl) \<Longrightarrow> metrics_usable s b \<Longrightarrow>
    metrics_usable (assign_metrics a sl s) b"
  by (cases sl) (auto simp: metrics_usable_iff assign_metrics_def dict_simps)

text \<open>The slot of the configuration, whatever it holds.\<close>

lemma metrics_or_new_slot:
  assumes "heap_ok s" "metrics_or_new a s = (sl, s')"
  shows "(case sl of Ref r \<Rightarrow> metrics_objs s' r = settings s a \<and> r < next_addr s'
    | Val v \<Rightarrow> dget (config_objs s a) ''metrics'' = Some (Val v) \<and> \<not> is_dict v)"
proof (cases "metrics_usable s a")
  case True
  then show ?thesis using metrics_or_new_usable [OF assms(1) True assms(2)] by auto
next
  case False
  then obtain v where "dget (config_objs s a) ''metrics'' = Some (Val v)" "truthy v" "\<not> is_dict v"
    by (auto simp: metrics_usable_def config_get_def slot_value_def Let_def is_dict_def truthy_def
        split: option.splits slot.splits)
  then show ?thesis using assms(2) by (auto simp: metrics_or_new_def slot_value_def)
qed

lemma assign_metrics_same: "dget (config_objs s a) ''metrics'' = Some sl \<Longrightarrow> settings (assign_metrics a sl s) a = settings s a"
  by (auto simp: settings_def config_get_def assign_metrics_def slot_value_def dict_simps split: slot.split)

lemma heap_ok_assign_same:
  assumes "heap_ok s" "dget (config_objs s a) ''metrics'' = Some (Val v)" "\<not> is_dict v"
  shows "heap_ok (assign_metrics a (Val v) s)"
  using assms in_set_dset [of _ "config_objs s a" "''metrics''" "Val v"]
  by (fastforce simp: heap_ok_def assign_metrics_def slot_ok_def)

lemma enable_locked_names_kept:
  assumes "heap_ok s" "enable_locked w saved us s = (r, s', effs)"
  shows "names_kept s s' \<and> heap_ok s'"
proof (cases "current_config s")
  case (Some a)
  obtain sl s1 where b: "metrics_or_new a s = (sl, s1)" by fastforce
  note s1 = metrics_or_new_store [OF assms(1) b] metrics_or_new_slot [OF assms(1) b]
  obtain e s2 where l: "apply_updates sl us [] 0 s1 = (e, s2)" by fastforce
  have s2: "config_objs s2 = config_objs s1" "next_addr s2 = next_addr s1" "same_frame s s2" "heap_ok s2"
    "\<And>r. dkeys (metrics_objs s2 r) = dkeys (metrics_objs s1 r)"
    using apply_updates_store [OF l] s1 same_frame_trans by blast+
  have k2: "dkeys (settings s2 a) = dkeys (settings s a)" "k \<noteq> ''metrics'' \<Longrightarrow> config_get s2 a k v = config_get s a k v" for k v
    using dkeys_settings_cong [OF assms(1), of s2 a] s1(1) s2 by auto
  have u2: "next_addr s \<le> next_addr s2" "metrics_usable s b \<Longrightarrow> metrics_usable s2 b" for b
    using s1(1) s2(1,2) by (auto simp: metrics_usable_iff)
  have d2: "keeps_dict b s s2" for b using s1(1) s2(1) by (intro keeps_dict_same) simp
  have n2: "names_kept s s2" using k2 u2 d2 s2(3) Some by (simp add: names_kept_def same_frame_def)
  define s3 where "s3 = assign_metrics a sl s2"
  have "dkeys (settings s3 a) = dkeys (settings s a) \<and> heap_ok s3"
  proof (cases sl)
    case (Ref r)
    then show ?thesis using s1(2) s2 heap_ok_assign [OF s2(4)] by (simp add: s3_def)
  next
    case (Val v)
    then show ?thesis using s1 s2 k2(1) assign_metrics_same [of s2 a sl] heap_ok_assign_same [OF s2(4)] by (simp add: s3_def)
  qed
  moreover have "same_frame s s3" using same_frame_trans [OF s2(3) assign_metrics_frame] by (simp add: s3_def)
  moreover have "metrics_usable s3 b" if "metrics_usable s b" for b
    using s1 s2(1) metrics_usable_assign [OF _ u2(2) [OF that]] by (auto simp: s3_def split: slot.splits)
  moreover have "next_addr s3 = next_addr s2" by (simp add: s3_def assign_metrics_def)
  moreover have "keeps_dict b s s3" for b
    using s1(1) s2(1) b by (auto simp: keeps_dict_def s3_def assign_metrics_def dict_simps metrics_or_new_def)
  ultimately have n3: "names_kept s s3 \<and> heap_ok s3"
    using k2(2) u2(1) Some by (simp add: names_kept_def same_frame_def s3_def)
  have "s' = s2 \<or> s' = s3"
    using assms(2) Some b l by (auto simp: enable_locked_def s3_def Let_def split: loop_end.splits if_splits)
  then show ?thesis using n2 n3 s2(4) by blast
qed (use assms in \<open>auto simp: enable_locked_def\<close>)

lemma serve_names_kept:
  assumes "heap_ok s" "serve rt w uptime saved q s = (r, s', effs)"
  shows "names_kept s s' \<and> heap_ok s'"
proof -
  have "names_kept s (s\<lparr>reload_flag := True\<rparr>) \<and> heap_ok (s\<lparr>reload_flag := True\<rparr>)"
    using assms(1) same_store_get [of "s\<lparr>reload_flag := True\<rparr>" s] settings_cong [of "s\<lparr>reload_flag := True\<rparr>" _ s]
    by (simp add: names_kept_def heap_ok_def metrics_usable_iff keeps_dict_same)
  then show ?thesis using assms metrics_or_new_names_kept [OF assms(1)] enable_locked_names_kept [OF assms(1)]
    by (auto simp: serve_def do_GET_def do_POST_def reload_handler_post_def metrics_handler_get_def
        metrics_handler_post_def handle_reload_def handle_list_def handle_health_def handle_enable_def Let_def
        split: if_splits option.splits sum.splits body.splits pyval.splits prod.splits)
qed

text \<open>(C31) No request to the management server, well formed or not, adds or removes a metric name of the
  configuration, changes another of its fields, or touches the collectors.\<close>

theorem requests_keep_names:
  assumes "heap_ok s" "serve rt w uptime saved q s = (r, s', effs)"
  shows "names_kept s s' \<and> heap_ok s'"
  using assms by (rule serve_names_kept)

text \<open>(C6) A well-formed update succeeds exactly when it has at most 1000 entries, all bools, all for known
  names, and the configuration could be saved; then the settings are updated with the request, name
  by name, and the configuration saved and synced is the updated one.\<close>

theorem enable_updates_exactly:
  assumes "heap_ok s" "current_config s = Some a" "metrics_usable s a"
    and "content_length q = Some h" "py_int_of_str h = Inr n" "n \<le> 102400" "read_body q n = JsonBody (PDict us)"
    and "handle_enable w saved q s = (r, s', effs)"
  shows "((\<exists>v. r = Some (Json 200 v)) \<longleftrightarrow> length us \<le> 1000 \<and> returns (new_config_loader w) \<and> saved
        \<and> list_all (\<lambda>(k, v). is_bool v \<and> k \<in> set (dkeys (settings s a))) us)
    \<and> ((\<exists>v. r = Some (Json 200 v)) \<longrightarrow> settings s' a = dupdate (settings s a) us
        \<and> effs = [Save (config_value s' a) True, Sync a])"
proof -
  obtain sl s1 where b: "metrics_or_new a s = (sl, s1)" by fastforce
  then obtain r0 where r0: "sl = Ref r0" "metrics_objs s1 r0 = settings s a"
    using metrics_or_new_usable [OF assms(1,3) b] by blast
  obtain e s2 where l: "apply_updates (Ref r0) us [] 0 s1 = (e, s2)" by fastforce
  have known: "(\<exists>n'. e = AllKnown n') \<longleftrightarrow> list_all (\<lambda>(k, v). is_bool v \<and> k \<in> set (dkeys (settings s a))) us"
    using apply_updates_all_known [of r0 us 0 s1] l r0(2) by (simp add: list_all_iff)
  have eff: "metrics_objs s2 r0 = dupdate (settings s a) us" if "e = AllKnown n'" for n'
    using apply_updates_result [of r0 us 0 s1 n' s2] l that r0(2) by simp
  have run: "handle_enable w saved q s = (if length us > 1000 then (Some (ErrorPage 400), s, [])
      else (let (r, s', effs) = enable_locked w saved us s in (Some r, s', effs)))"
    using assms(4-7) by (simp add: handle_enable_def)
  show ?thesis
  proof (cases e)
    case (AllKnown n')
    then show ?thesis using assms(2,8) run b l r0(1) known eff [OF AllKnown]
      by (auto simp: enable_locked_def Let_def save_and_sync_def split: if_splits)
  qed (use assms(2,8) run b l r0(1) known in \<open>auto simp: enable_locked_def Let_def split: if_splits\<close>)
qed

text \<open>A refused update may have been applied in part: the known names before an unknown one are set, in memory
  only.\<close>

theorem refused_update_applied:
  assumes "heap_ok s" "current_config s = Some a" "k \<in> set (dkeys (settings s a))" "k' \<notin> set (dkeys (settings s a))"
    and "is_bool v" "is_bool v'" "enable_locked w saved [(k, v), (k', v')] s = (r, s', effs)"
  shows "r = ErrorPage 400 \<and> effs = [] \<and> dget (settings s' a) k = Some v"
proof -
  have us: "metrics_usable s a" using assms(3)
    by (auto simp: metrics_usable_def settings_def Let_def is_dict_def split: pyval.splits)
  obtain sl s1 where b: "metrics_or_new a s = (sl, s1)" by fastforce
  obtain r0 where r0: "sl = Ref r0" "metrics_objs s1 r0 = settings s a"
    "dget (config_objs s a) ''metrics'' = Some (Ref r0)" "s1 = s"
    using metrics_or_new_usable [OF assms(1) us b] assms(3) by (auto simp: dkeys_def)
  have "k \<noteq> k'" using assms(3,4) by blast
  then have l: "apply_updates sl [(k, v), (k', v')] [] 0 s1 = (Invalid [k'], set_metric r0 k v s1)"
    using assms(3-6) r0 by (simp add: py_in_def dhas_iff set_metric_def dict_simps)
  then have "r = ErrorPage 400" "effs = []" "s' = set_metric r0 k v s1"
    using assms(2,7) b by (simp_all add: enable_locked_def Let_def)
  then show ?thesis using r0 by (simp add: settings_def config_get_def set_metric_def slot_value_def dict_simps)
qed

text \<open>After a scrape that collects something, the health report counts at least every collected metric, no
  more enabled ones than metrics, and says healthy exactly when no exported name was refused.\<close>

theorem health_after_scrape:
  assumes "heap_ok s" "order_ok rt" "can_scrape s a" "metrics_usable s a" "collected w s \<noteq> []"
    and "collect rt w now saved s = (xs, s', effs)"
  shows "\<exists>h. fst (handle_health rt uptime s') = Health h \<and> enabled_metrics h \<le> metrics_count h
    \<and> length (collected w s) \<le> metrics_count h
    \<and> (status h = ''healthy'' \<longleftrightarrow> returns (snd (export rt (settings s' a)
          (config_get s a ''device_type'' (PStr ''unknown'')) (collected w s))))"
proof -
  note spec = collect_spec [OF assms(1-4,6,5)]
  have h': "heap_ok s'" and cur: "current_config s' = Some a" using spec by auto
  have sub: "set (dkeys (collected w s)) \<subseteq> set (dkeys (settings s' a))"
  proof
    fix k assume "k \<in> set (dkeys (collected w s))"
    then have "dget (settings s' a) k \<noteq> None"
      using spec dget_registered [OF assms(2), of "collected w s" "settings s a" k]
      by (cases "dget (settings s a) k") simp_all
    then show "k \<in> set (dkeys (settings s' a))" by (simp add: dget_None_iff)
  qed
  have "length (collected w s) = card (set (dkeys (collected w s)))"
    using wf_collected [of w s] by (metis dkeys_def distinct_card length_map wf_dict_def)
  also have "\<dots> \<le> card (set (dkeys (settings s' a)))" by (rule card_mono [OF _ sub]) simp
  also have "\<dots> \<le> length (settings s' a)" by (metis card_length dkeys_def length_map)
  finally have len: "length (collected w s) \<le> length (settings s' a)" .
  have "settings s' a \<noteq> []" using len assms(5) by auto
  then have md: "config_get s' a ''metrics'' PNone = PDict (settings s' a)"
    by (auto simp: settings_def split: pyval.splits)
  then have us: "metrics_usable s' a" by (simp add: metrics_usable_def is_dict_def)
  obtain sl s1 where b: "metrics_or_new a s' = (sl, s1)" by fastforce
  obtain r where r: "sl = Ref r" "metrics_objs s1 r = settings s' a"
    using metrics_or_new_usable [OF h' us b] by blast
  define out where "out = export rt (settings s' a) (config_get s a ''device_type'' (PStr ''unknown'')) (collected w s)"
  have err: "last_collection_time s' = Some now"
    "last_collection_error s' = (case snd out of Inl e \<Rightarrow> Some (Failed e) | Inr u \<Rightarrow> None)"
    using spec by (simp_all add: out_def)
  have "enabled_count (settings s' a) \<le> length (settings s' a)" by (simp add: enabled_count_def)
  then show ?thesis using b r cur len err unfolding out_def [symmetric]
    by (cases "snd out") (simp_all add: handle_health_def Let_def health_status_def)
qed

section \<open>Witnesses\<close>

definition enable_request :: request where
  "enable_request = \<lparr> verb = ''POST'', path = ''/metrics/enable'', content_length = Some ''9'',
     read_body = (\<lambda>n. JsonBody (PDict [(''a'', PBool True)])) \<rparr>"

definition plain_surroundings :: surroundings where
  "plain_surroundings = \<lparr> getenv = (\<lambda>k. None), server_answer = (\<lambda>n. HttpConnectionError), local_yaml = Inl OSErr,
     hostname = ''edge'', json_loads = (\<lambda>s. Some (PDict [])) \<rparr>"

lemma plain_loader: "returns (new_config_loader plain_surroundings)"
proof -
  have "py_int_of_str ''5'' = Inr 5" by code_simp
  then show ?thesis by (simp add: new_config_loader_def env_int_def getenv_or_def plain_surroundings_def)
qed

lemma requests_keep_names_witness:
  "dkeys (settings (fst (snd (serve sample_runtime plain_surroundings 0 True enable_request sample_exporter))) 0) = [''a'']"
proof -
  obtain r s' effs where r: "serve sample_runtime plain_surroundings 0 True enable_request sample_exporter = (r, s', effs)"
    using prod_cases3 by blast
  from requests_keep_names [OF sample_exporter_ok(1) r] show ?thesis
    using r sample_exporter_ok(4,5) by (simp add: names_kept_def dkeys_def)
qed

lemma enable_updates_exactly_witness:
  "settings (fst (snd (handle_enable plain_surroundings True enable_request sample_exporter))) 0 = [(''a'', PBool True)]"
proof -
  obtain r s' effs where r: "handle_enable plain_surroundings True enable_request sample_exporter = (r, s', effs)"
    using prod_cases3 by blast
  have "py_int_of_str ''9'' = Inr 9" by code_simp
  moreover have "content_length enable_request = Some ''9''" "read_body enable_request 9 = JsonBody (PDict [(''a'', PBool True)])"
    by (simp_all add: enable_request_def)
  ultimately show ?thesis
    using enable_updates_exactly [OF sample_exporter_ok(1,5,3) _ _ _ _ r, of "''9''" 9 "[(''a'', PBool True)]"] plain_loader r
    by (simp add: sample_exporter_ok(4) is_bool_def dupdate_def dkeys_def)
qed

end
