(* ===== verification/LifecycleProps.thy ===== *)
theory LifecycleProps
  imports Lifecycle ManagementApiProps ConfigLoaderProps
begin

text \<open>
  The life of the exporter: applying a configuration replaces it or keeps the old one, the running
  collectors always are those of the running configuration, concurrent scrapes and requests never
  lose a setting, the start ends when a configuration comes; and the races that break what the code
  means to keep.
\<close>

section \<open>Kinds of collectors\<close>

text \<open>The class of a collector and what of the configuration its object keeps: the parser of a Jetson, the
  URL of a Shelly client where it is a string.\<close>

datatype kind = KJetson jetson_model | KRaspberryPi | KOrangePi | KLattePanda | KEdgeServer
  | KShelly "string option" | KStub

definition url_text :: "pyval \<Rightarrow> string option" where
  "url_text v = (case v of PStr s \<Rightarrow> Some s | _ \<Rightarrow> None)"

definition kind_of :: "collector \<Rightarrow> kind" where
  "kind_of c = (case c of JetsonCollector m \<Rightarrow> KJetson m | RaspberryPiCollector \<Rightarrow> KRaspberryPi
     | OrangePiCollector \<Rightarrow> KOrangePi | LattePandaCollector \<Rightarrow> KLattePanda | EdgeServerCollector s \<Rightarrow> KEdgeServer
     | ShellyCollector u \<Rightarrow> KShelly (url_text u) | StubCollector s \<Rightarrow> KStub)"

text \<open>The kind a device type of a configuration asks for, given the URL of the Shelly server.\<close>

definition device_kinds :: "string option \<Rightarrow> (string \<times> kind) list" where
  "device_kinds url = [(''jetson_orin'', KJetson Orin), (''jetson_orin_nano'', KJetson OrinNano),
     (''orin_nano'', KJetson OrinNano), (''jetson_xavier'', KJetson Xavier), (''jetson_nano'', KJetson Nano),
     (''jetson'', KJetson Orin), (''raspberry_pi'', KRaspberryPi), (''orange_pi'', KOrangePi),
     (''lattepanda'', KLattePanda), (''edge_server'', KEdgeServer), (''shelly'', KShelly url), (''stub'', KStub)]"

definition device_kind :: "string option \<Rightarrow> pyval \<Rightarrow> kind option" where
  "device_kind url v = (case v of PStr t \<Rightarrow> map_of (device_kinds url) (lower t) | _ \<Rightarrow> None)"

text \<open>The collectors a configuration asks for, by its \<open>device_type\<close> and its \<open>shelly\<close>: the one of the
  device type and, unless it is switched off, a Shelly client of the configured URL.\<close>

definition expected_kinds :: "pyval \<Rightarrow> pyval \<Rightarrow> kind list option" where
  "expected_kinds v sh = (case sh of
      PDict d \<Rightarrow>
        (let url = url_text (dget_or d ''server_url'' (PStr ''http://localhost:8766''))
         in map_option (\<lambda>c. c # (if truthy (dget_or d ''enabled'' (PBool True)) then [KShelly url] else []))
              (device_kind url v))
    | _ \<Rightarrow> None)"

definition collectors_for :: "pyval \<Rightarrow> pyval \<Rightarrow> collector list \<Rightarrow> bool" where
  "collectors_for v sh cs \<longleftrightarrow> expected_kinds v sh = Some (map kind_of cs)"

lemma get_collector_kind:
  assumes "get_collector w v config = Inr c" "py_get config ''shelly'' (PDict []) = Inr (PDict d)"
  shows "device_kind (url_text (dget_or d ''server_url'' (PStr ''http://localhost:8766''))) v = Some (kind_of c)"
  using assms by (auto simp: get_collector_def device_kind_def device_kinds_def kind_of_def res_simps Let_def
      shelly_server_url_def py_get_def [of "PDict d"] split: pyval.splits if_splits)

lemma device_kind_PStr: "device_kind url v = Some x \<Longrightarrow> \<exists>t. v = PStr t"
  by (auto simp: device_kind_def split: pyval.splits)

lemma safe_get_metrics_kind: "safe_get_metrics w c = (v, c') \<Longrightarrow> kind_of c' = kind_of c"
  by (auto simp: safe_get_metrics_def collector_get_metrics_def kind_of_def Let_def
      split: collector.splits prod.splits)

lemma gather_kinds: "map kind_of (snd (gather w cs acc)) = map kind_of cs"
proof (induction cs arbitrary: acc)
  case (Cons c cs)
  then show ?case by (cases "safe_get_metrics w c") (auto simp: Let_def split_def safe_get_metrics_kind)
qed simp

lemma initialize_collectors_for:
  assumes "initialize_collectors w (PDict d) = Inr cs"
  shows "collectors_for (dget_or d ''device_type'' PNone) (dget_or d ''shelly'' (PDict [])) cs"
proof -
  obtain v c f where v: "dget d ''device_type'' = Some v" and c: "get_collector w v (PDict d) = Inr c"
    and f: "dget_or d ''shelly'' (PDict []) = PDict f"
    and cs: "cs = (if truthy (dget_or f ''enabled'' (PBool True)) then add_shelly (PDict d) [c] else [c])"
    using assms
    by (auto simp: initialize_collectors_def py_item_def py_get_def res_simps split: option.splits pyval.splits)
  have sh: "py_get (PDict d) ''shelly'' (PDict []) = Inr (PDict f)" using f by (simp add: py_get_def)
  have "add_shelly (PDict d) [c] = [c, ShellyCollector (dget_or f ''server_url'' (PStr ''http://localhost:8766''))]"
    by (simp add: add_shelly_def shelly_server_url_def sh) (simp add: py_get_def)
  then show ?thesis using get_collector_kind [OF c sh] v f cs
    by (simp add: collectors_for_def expected_kinds_def dget_or_def [of d] Let_def kind_of_def [of "ShellyCollector _"])
qed

lemma initialize_needs_dict: "initialize_collectors w v = Inr cs \<Longrightarrow> \<exists>d. v = PDict d"
  by (cases v) (auto simp: initialize_collectors_def py_item_def)

lemma lower_shelly: "lower ''shelly'' = ''shelly''"
  by code_simp

lemma sample_device:
  "collectors_for (config_get sample_exporter 0 ''device_type'' PNone) (config_get sample_exporter 0 ''shelly'' (PDict []))
    (current_collectors sample_exporter)"
  by (simp add: config_get_def sample_exporter_def slot_value_def dget_def collectors_for_def expected_kinds_def
      dget_or_def truthy_def device_kind_def device_kinds_def lower_shelly kind_of_def)

section \<open>A configuration becomes an object\<close>

lemma import_config_store:
  assumes "heap_ok s" "import_config d s = (a, s')"
  shows "heap_ok s' \<and> a < next_addr s' \<and> same_frame s s' \<and> next_addr s \<le> next_addr s'"
proof -
  have "slot_ok (Suc (Suc (next_addr s))) (import_slot (Suc (next_addr s)) kv)" for kv
    by (auto simp: import_slot_def slot_ok_def split_def)
  moreover have "slot_ok (Suc (Suc (next_addr s))) e" if "e \<in> set (config_objs s b)" for e b
    using assms(1) that slot_ok_mono by (fastforce simp: heap_ok_def)
  moreover have "next_addr s' = Suc (Suc (next_addr s))" "a = next_addr s"
    "config_objs s' = (config_objs s)(next_addr s := map (import_slot (Suc (next_addr s))) d)" "same_frame s s'"
    using assms(2) by (auto simp: import_config_def Let_def same_frame_def)
  ultimately show ?thesis using assms(1) by (auto simp: heap_ok_def same_frame_def less_SucI)
qed

lemma dget_import: "dget (map (import_slot r) d) k =
    (case dget d k of None \<Rightarrow> None | Some v \<Rightarrow> Some (if k = ''metrics'' \<and> is_dict v then Ref r else Val v))"
  by (induction d) (auto simp: dget_def import_slot_def split: option.split)

lemma imported_get:
  assumes "import_config d s = (a, s')"
  shows "config_get s' a k v = dget_or d k v"
proof (cases "dget d k")
  case (Some x)
  then show ?thesis using assms
    by (auto simp: import_config_def Let_def config_get_def dget_import slot_value_def dget_or_def is_dict_def
        split: pyval.splits)
qed (use assms in \<open>auto simp: import_config_def Let_def config_get_def dget_import dget_or_def\<close>)

text \<open>What was loaded is what is read back.\<close>

lemma imported_value:
  assumes "wf_dict d" "import_config d s = (a, s')"
  shows "config_value s' a = PDict d"
proof -
  have "slot_value s' (snd (import_slot (Suc a) (k, v))) = v" if "(k, v) \<in> set d" for k v
  proof -
    have "dget d k = Some v" using that in_set_dget [OF assms(1)] by blast
    then show ?thesis using assms(2)
      by (auto simp: import_config_def Let_def import_slot_def slot_value_def is_dict_def split: pyval.splits)
  qed
  moreover have "config_objs s' a = map (import_slot (Suc a)) d"
    using assms(2) by (auto simp: import_config_def Let_def)
  moreover have "fst (import_slot r kv) = fst kv" for r kv by (simp add: import_slot_def split_def)
  ultimately have "map (\<lambda>(k, sl). (k, slot_value s' sl)) (config_objs s' a) = d"
    by (auto simp: comp_def split_def intro: map_idI)
  then show ?thesis by (simp add: config_value_def)
qed

section \<open>Applying a configuration\<close>

lemma config_value_get: "py_get (config_value s a) k v = Inr (config_get s a k v)"
proof -
  have "dget (map (\<lambda>(k, sl). (k, slot_value s sl)) d) k = map_option (slot_value s) (dget d k)" for d
    by (induction d) (auto simp: dget_def)
  then show ?thesis by (auto simp: config_value_def py_get_def config_get_def dget_or_def split: option.split)
qed

lemma metrics_items_config: "metrics_items (config_value s a) = Inr () \<longleftrightarrow> metrics_usable s a"
  by (simp add: metrics_items_def config_value_get metrics_usable_def Let_def)

lemma metrics_items_dict: "metrics_items v = Inr () \<Longrightarrow> \<exists>d. v = PDict d"
  by (cases v) (auto simp: metrics_items_def py_get_def)

text \<open>A Python dictionary has each key once; of the field \<open>shelly\<close> this matters when it is compared.\<close>

definition shelly_wf :: "pyval \<Rightarrow> bool" where
  "shelly_wf v = (case v of PDict f \<Rightarrow> wf_dict f | _ \<Rightarrow> True)"

text \<open>Where no new collectors are needed, the new configuration asks for those of the old one.\<close>

lemma expected_kinds_same:
  assumes "expected_kinds v old = Some ks" "shelly_wf old" "py_eq old new" "py_eq v v'"
  shows "expected_kinds v' new = Some ks"
proof -
  obtain f where f: "old = PDict f" using assms(1) by (auto simp: expected_kinds_def split: pyval.splits)
  then obtain g where g: "new = PDict g" using assms(3) py_eq_PDict by blast
  have wf: "wf_dict f" using assms(2) f by (simp add: shelly_wf_def)
  have eq: "py_eq (PDict f) (PDict g)" using assms(3) f g by simp
  have "truthy (dget_or f ''enabled'' x) = truthy (dget_or g ''enabled'' x)" for x
    using py_eq_get_or [OF eq wf, of "''enabled''" x] py_eq_truthy by auto
  moreover have "url_text y = url_text z" if "py_eq y z" for y z
    using that by (cases y; cases z) (auto simp: url_text_def num_of_def split: if_splits)
  then have "url_text (dget_or f ''server_url'' x) = url_text (dget_or g ''server_url'' x)" for x
    using py_eq_get_or [OF eq wf, of "''server_url''" x] by auto
  moreover obtain t where "v = PStr t"
    using assms(1) by (auto simp: expected_kinds_def f Let_def dest: device_kind_PStr)
  ultimately show ?thesis using assms(1,4) by (simp add: expected_kinds_def f g)
qed

lemma needs_reinit_False:
  assumes "needs_reinit old new = Inr False"
    and "py_get old ''device_type'' PNone = Inr v" "py_get new ''device_type'' PNone = Inr v'"
    and "py_get old ''shelly'' (PDict []) = Inr x" "py_get new ''shelly'' (PDict []) = Inr x'"
  shows "py_eq x x' \<and> py_eq v v'"
  using assms by (cases "py_eq x x'") (auto simp: needs_reinit_def res_simps)

lemma needs_reinit_same:
  assumes "needs_reinit (config_value s a) (PDict d) = Inr False" "shelly_wf (config_get s a ''shelly'' (PDict []))"
    and "collectors_for (config_get s a ''device_type'' PNone) (config_get s a ''shelly'' (PDict [])) cs"
  shows "collectors_for (dget_or d ''device_type'' PNone) (dget_or d ''shelly'' (PDict [])) cs"
proof -
  have new: "py_get (PDict d) k v = Inr (dget_or d k v)" for k v by (simp add: py_get_def)
  from needs_reinit_False [OF assms(1) config_value_get new config_value_get new]
  have "py_eq (config_get s a ''shelly'' (PDict [])) (dget_or d ''shelly'' (PDict []))"
    "py_eq (config_get s a ''device_type'' PNone) (dget_or d ''device_type'' PNone)"
    by blast+
  from expected_kinds_same [OF assms(3) [unfolded collectors_for_def] assms(2) this]
  show ?thesis by (simp only: collectors_for_def)
qed

text \<open>The collectors are those the configuration asks for.\<close>

definition config_matches :: "exporter \<Rightarrow> nat \<Rightarrow> bool" where
  "config_matches s a \<longleftrightarrow>
     collectors_for (config_get s a ''device_type'' PNone) (config_get s a ''shelly'' (PDict [])) (current_collectors s)"

text \<open>What the preparation leaves: it goes on with the collectors of the new configuration, or changes nothing,
  as long as both configurations have usable metrics.\<close>

lemma prepare_config_cases:
  assumes "current_config s = Some a" "metrics_usable s a" "metrics_items (PDict d) = Inr ()"
    and "shelly_wf (config_get s a ''shelly'' (PDict []))" "config_matches s a"
    and "prepare_config w (PDict d) s = (p, s')"
  shows "p = GoesOn d \<and> (\<exists>cs. s' = s\<lparr>current_collectors := cs\<rparr>
        \<and> collectors_for (dget_or d ''device_type'' PNone) (dget_or d ''shelly'' (PDict [])) cs)
    \<or> (\<forall>d. p \<noteq> GoesOn d) \<and> s' = s"
proof (cases "needs_reinit (config_value s a) (PDict d)")
  case (Inr b)
  note items = metrics_items_config [of s a] assms(2,3)
  show ?thesis
  proof (cases b)
    case True
    then show ?thesis using assms Inr items initialize_collectors_for [of w d]
      by (auto simp: prepare_config_def Let_def new_dict_def split: sum.splits)
  next
    case False
    have "needs_reinit (config_value s a) (PDict d) = Inr False" using Inr False by simp
    from needs_reinit_same [OF this assms(4)] assms(5)
    have "collectors_for (dget_or d ''device_type'' PNone) (dget_or d ''shelly'' (PDict [])) (current_collectors s)"
      by (simp add: config_matches_def)
    moreover have "p = GoesOn d" "s' = s\<lparr>current_collectors := current_collectors s\<rparr>"
      using assms Inr items False by (auto simp: prepare_config_def Let_def new_dict_def)
    ultimately show ?thesis by blast
  qed
qed (use assms in \<open>auto simp: prepare_config_def Let_def\<close>)

text \<open>(C5) Applying a configuration is all or nothing, when the metrics of the running and of the new
  configuration are a dictionary or false: either the new one is the current one afterwards, exactly
  as it was loaded, and it is saved, or nothing has changed and nothing is saved. In both cases the
  collectors are exactly those the current configuration asks for: the one of its device type and,
  unless \<open>shelly.enabled\<close> is false, a Shelly client of its \<open>shelly.server_url\<close>.\<close>

theorem apply_all_or_nothing:
  assumes "heap_ok s" "current_config s = Some a" "metrics_usable s a"
    and "shelly_wf (config_get s a ''shelly'' (PDict []))" "config_matches s a"
    and "wf_dict d" "metrics_items (PDict d) = Inr ()" "apply_new_config w saved (PDict d) s = (r, s', effs)"
  shows "\<exists>a'. current_config s' = Some a' \<and> heap_ok s' \<and> config_matches s' a'
    \<and> (config_value s' a' = PDict d \<and> r = Inr () \<and> effs = (if loader_present s then [Save (PDict d) saved] else [])
       \<or> s' = s \<and> effs = [])"
proof -
  obtain p s1 where p: "prepare_config w (PDict d) s = (p, s1)" by fastforce
  from prepare_config_cases [OF assms(2,3,7,4,5) p] consider
    (go) cs where "p = GoesOn d" "s1 = s\<lparr>current_collectors := cs\<rparr>"
      "collectors_for (dget_or d ''device_type'' PNone) (dget_or d ''shelly'' (PDict [])) cs"
  | (stop) "\<forall>d. p \<noteq> GoesOn d" "s1 = s" by blast
  then show ?thesis
  proof cases
    case go
    obtain a' s2 where i: "import_config d s1 = (a', s2)" by fastforce
    have h1: "heap_ok s1" using assms(1) same_store_heap_ok [of s1 s] go(2) by simp
    note st = import_config_store [OF h1 i]
    define s3 where "s3 = s2\<lparr>current_config := Some a'\<rparr>"
    have s': "s' = s3" "r = Inr ()" "effs = save_new_config saved a' s3"
      using assms(8) p go(1) i by (auto simp: apply_new_config_def assign_config_def Let_def s3_def)
    have val: "config_value s3 a' = PDict d" "config_get s3 a' k v = dget_or d k v" for k v
      using imported_value [OF assms(6) i] imported_get [OF i] same_store_value [of s3 s2] same_store_get [of s3 s2]
      by (simp_all add: s3_def)
    have "heap_ok s3" using st by (simp add: s3_def heap_ok_def)
    moreover have "current_collectors s3 = cs" "loader_present s3 = loader_present s" "current_config s3 = Some a'"
      using st go(2) by (simp_all add: s3_def same_frame_def)
    ultimately show ?thesis using s' val go(3) by (simp add: save_new_config_def config_matches_def)
  next
    case stop
    then have "s' = s" "effs = []"
      using assms(8) p by (auto simp: apply_new_config_def split: preparation.splits)
    then show ?thesis using assms(1,2,5) by blast
  qed
qed

text \<open>Where the metrics of a configuration are neither a dictionary nor false, the log line about them raises
  after the collectors are replaced: the old configuration stays, with the collectors of the new.\<close>

theorem reload_half_applied:
  assumes "current_config s = Some a" "needs_reinit (config_value s a) new = Inr True"
    and "initialize_collectors w new = Inr cs" "metrics_usable s a" "metrics_items new = Inl e"
  shows "apply_new_config w saved new s = (Inl e, s\<lparr>current_collectors := cs\<rparr>, [])"
  using assms metrics_items_config [of s a]
  by (simp add: apply_new_config_def prepare_config_def Let_def)

text \<open>Such metrics in the current configuration block every reload, for good.\<close>

theorem unusable_metrics_block_reloads:
  assumes "current_config s = Some a" "\<not> metrics_usable s a"
  shows "fst (apply_new_config w saved new s) \<noteq> Inr () \<and> snd (snd (apply_new_config w saved new s)) = []
    \<and> current_config (fst (snd (apply_new_config w saved new s))) = Some a
    \<or> (\<exists>e. initialize_collectors w new = Inl e) \<and> apply_new_config w saved new s = (Inr (), s, [])"
proof -
  obtain e where e: "metrics_items (config_value s a) = Inl e"
    using assms(2) metrics_items_config by (metis (full_types) old.sum.exhaust old.unit.exhaust)
  show ?thesis
    using assms(1) e by (auto simp: apply_new_config_def prepare_config_def Let_def split: sum.split)
qed

section \<open>Starting\<close>

lemma wait_for_config_ends:
  assumes "fst (load (w (k + n))) \<noteq> Inr None" "\<forall>j < n. fst (load (w (k + j))) = Inr None" "n < fuel"
  shows "wait_for_config w k fuel = Some (case fst (load (w (k + n))) of Inl e \<Rightarrow> Inl e | Inr c \<Rightarrow> Inr (the c))"
  using assms
proof (induction n arbitrary: k fuel)
  case 0
  then show ?case by (cases fuel) (auto split: sum.split option.split)
next
  case (Suc n)
  then obtain f where f: "fuel = Suc f" by (cases fuel) auto
  have "fst (load (w k)) = Inr None" using Suc(3) by force
  moreover have "\<forall>j < n. fst (load (w (Suc k + j))) = Inr None" using Suc(3) by force
  ultimately show ?case using Suc(1) [of "Suc k" f] Suc(2,4) f by simp
qed

lemma wait_for_config_waits:
  "\<forall>j < fuel. fst (load (w (k + j))) = Inr None \<Longrightarrow> wait_for_config w k fuel = None"
proof (induction fuel arbitrary: k)
  case (Suc fuel)
  have "fst (load (w k)) = Inr None" using Suc(2) by force
  moreover have "\<forall>j < fuel. fst (load (w (Suc k + j))) = Inr None" using Suc(2) by force
  ultimately show ?case using Suc(1) by simp
qed simp

text \<open>(C33) The waiting mode waits as long as \<open>load\<close> answers that there is no configuration and ends
  exactly at the first answer: with an exception when it raised, and else by starting with that
  configuration, the port of the waiting mode being taken. Before that answer \<open>main\<close> neither starts
  nor stops.\<close>

theorem waiting_ends:
  assumes "\<not> stub_mode (w 0)" "new_config_loader (w 0) = Inr loader"
    and "env_int (w 0) ''RELOAD_PORT'' ''9101'' = Inr p" "0 \<le> p" "p \<le> 65535" "grants u [] p"
    and "0 < n" "\<forall>j < n. fst (load (w j)) = Inr None" "fst (load (w n)) = r" "r \<noteq> Inr None"
  shows "main_start rt u w fuel = (if fuel < n then None
    else Some (case r of Inl e \<Rightarrow> Inl e | Inr c \<Rightarrow> start_with rt u True (the c) [p]))"
proof -
  obtain m where n: "n = Suc m" using assms(7) by (cases n) auto
  have wait: "wait_for_config w 1 fuel = (if fuel < n then None
      else Some (case r of Inl e \<Rightarrow> Inl e | Inr c \<Rightarrow> Inr (the c)))"
  proof (cases "fuel < n")
    case True
    then show ?thesis using assms(8) wait_for_config_waits [of fuel w 1] n by simp
  next
    case False
    then show ?thesis using wait_for_config_ends [of w 1 m fuel] assms(8-10) n by simp
  qed
  have "first_config (grants u) w fuel = map_option (rmap (\<lambda>c. (c, [p]))) (wait_for_config w 1 fuel)"
    using assms(1-6,8) n by (simp add: first_config_def bind_port_def)
  then show ?thesis using assms(1) by (simp only: main_start_def wait) (simp split: sum.split)
qed

text \<open>What \<open>main\<close> starts with, before the registration's scrape: the configuration as an object, and its
  collectors.\<close>

lemma assigned_config:
  assumes "initialize_collectors w (PDict d) = Inr cs"
  shows "\<exists>a. current_config ((assign_config d (before_start l))\<lparr>current_collectors := cs\<rparr>) = Some a
    \<and> heap_ok ((assign_config d (before_start l))\<lparr>current_collectors := cs\<rparr>)
    \<and> config_matches ((assign_config d (before_start l))\<lparr>current_collectors := cs\<rparr>) a
    \<and> (\<forall>k v. config_get ((assign_config d (before_start l))\<lparr>current_collectors := cs\<rparr>) a k v = dget_or d k v)"
proof -
  have h0: "heap_ok (before_start l)" by (simp add: heap_ok_def before_start_def)
  obtain a s1 where i: "import_config d (before_start l) = (a, s1)" by fastforce
  define s where "s = s1\<lparr>current_config := Some a, current_collectors := cs\<rparr>"
  have s: "(assign_config d (before_start l))\<lparr>current_collectors := cs\<rparr> = s"
    using i by (simp add: assign_config_def s_def)
  have get: "config_get s a k v = dget_or d k v" for k v
    using imported_get [OF i] same_store_get [of s s1] by (simp add: s_def)
  moreover have "heap_ok s" using import_config_store [OF h0 i] by (simp add: s_def heap_ok_def)
  ultimately show ?thesis using initialize_collectors_for [OF assms] unfolding s
    by (intro exI [of _ a]) (simp add: s_def config_matches_def)
qed

text \<open>After waiting, a configuration whose \<open>reload_port\<close> is the one the waiting mode listens on stops the
  exporter: the port is bound twice.\<close>

theorem waiting_then_same_port_stops:
  assumes "\<not> stub_mode (w 0)" "fst (load (w 0)) = Inr None" "fst (load (w 1)) = Inr (Some (PDict d))" "0 < fuel"
    and "env_int (w 0) ''RELOAD_PORT'' ''9101'' = Inr p" "dget_or d ''reload_port'' (PInt 9101) = PInt p"
    and "\<forall>ports. p \<in> set ports \<longrightarrow> \<not> grants u ports p"
  shows "\<exists>e. main_start rt u w fuel = Some (Inl e)"
proof -
  have again: "\<exists>e. bind_port (grants u) (PInt p) ports = Inl e" if "p \<in> set ports" for ports
    using assms(7) that by (simp add: bind_port_def)
  have keeps: "set ports \<subseteq> set ports'" if "bind_port (grants u) v ports = Inr ports'" for v ports ports'
    using that by (auto simp: bind_port_def Let_def split: pyval.splits if_splits)
  have stops: "\<exists>e. start_with rt u True (PDict d) ports = Inl e" if "p \<in> set ports" for ports
  proof -
    have "\<exists>e. open_ports (grants u) (PDict d) ports = Inl e"
      using that keeps again assms(6)
      by (cases "bind_port (grants u) (dget_or d ''port'' (PInt 9102)) ports") (force simp: open_ports_def py_get_def)+
    then show ?thesis
      by (cases "initialize_collectors (making u) (PDict d)") (auto simp: start_with_def Let_def split: prod.split)
  qed
  obtain f where f: "fuel = Suc f" using assms(4) by (cases fuel) auto
  show ?thesis
  proof (cases "new_config_loader (w 0)")
    case (Inr l)
    show ?thesis
    proof (cases "bind_port (grants u) (PInt p) []")
      case (Inl e)
      then show ?thesis using Inr assms(1,2,5) by (simp add: main_start_def first_config_def)
    next
      case ports: (Inr ports)
      then have "p \<in> set ports" by (auto simp: bind_port_def split: if_splits)
      from stops [OF this] show ?thesis using Inr ports assms(1-3,5) f
        by (auto simp: main_start_def first_config_def)
    qed
  qed (use assms(1) in \<open>simp add: main_start_def first_config_def\<close>)
qed

section \<open>Witnesses\<close>

lemma sample_shelly_wf: "shelly_wf (config_get sample_exporter 0 ''shelly'' (PDict []))"
  by (simp add: config_get_def sample_exporter_def slot_value_def dget_def shelly_wf_def wf_dict_def dkeys_def)

lemma apply_all_or_nothing_witness:
  "\<exists>a. current_config (fst (snd (apply_new_config shelly_world True (PDict [(''device_type'', PStr ''stub'')]) sample_exporter)))
    = Some a"
proof -
  obtain r s' effs where r: "apply_new_config shelly_world True (PDict [(''device_type'', PStr ''stub'')]) sample_exporter = (r, s', effs)"
    using prod_cases3 by blast
  have "metrics_items (PDict [(''device_type'', PStr ''stub'')]) = Inr ()" "wf_dict [(''device_type'', PStr ''stub'')]"
    by (simp_all add: metrics_items_def py_get_def dget_or_def dget_def truthy_def wf_dict_def dkeys_def)
  then show ?thesis
    using apply_all_or_nothing [OF sample_exporter_ok(1,5,3) sample_shelly_wf _ _ _ r] sample_device r
    by (auto simp: config_matches_def)
qed

lemma sample_load: "fst (load sample_surroundings) = Inr (Some (PDict [(''device_type'', PStr ''stub'')]))"
  using load_is_spec [OF sample_settings] sample_server [of 2]
  by (simp add: load_spec_def load_local_config_def sample_surroundings_def truthy_def)

lemma plain_load: "fst (load plain_surroundings) = Inr None"
proof -
  have "py_int_of_str ''6'' = Inr 6" "py_int_of_str ''10'' = Inr 10" by code_simp+
  then have env: "env_int plain_surroundings ''CONFIG_MAX_RETRIES'' ''6'' = Inr 6"
    "env_int plain_surroundings ''CONFIG_RETRY_INTERVAL'' ''10'' = Inr 10"
    by (simp_all add: env_int_def getenv_or_def plain_surroundings_def)
  have "judge (fetch_from_server plain_surroundings k) = Retry" for k
    by (simp add: fetch_from_server_def plain_surroundings_def fetch_json_def judge_def)
  then have "find (\<lambda>k. judge (fetch_from_server plain_surroundings k) \<noteq> Retry) xs = None" for xs
    by (induction xs) simp_all
  then have "server_config plain_surroundings n = None" for n by (simp add: server_config_def)
  then show ?thesis using load_is_spec [OF env]
    by (simp add: load_spec_def load_local_config_def plain_surroundings_def generate_default_config_def py_get_def
        dget_or_def py_or_def truthy_def)
qed

abbreviation (input) sample_startup :: startup where
  "sample_startup \<equiv> \<lparr> grants = (\<lambda>ports n. n \<notin> set ports), making = shelly_world, registering = shelly_world,
     registering_time = ''now'', registering_saved = True \<rparr>"

lemma waiting_ends_witness:
  "main_start sample_runtime sample_startup (\<lambda>n. if n < 2 then plain_surroundings else sample_surroundings) 1 = None
    \<and> main_start sample_runtime sample_startup (\<lambda>n. if n < 2 then plain_surroundings else sample_surroundings) 7
      = Some (start_with sample_runtime sample_startup True (PDict [(''device_type'', PStr ''stub'')]) [9101])"
proof -
  let ?w = "\<lambda>n :: nat. if n < 2 then plain_surroundings else sample_surroundings"
  have "py_int_of_str ''9101'' = Inr 9101" "py_int_of_str ''5'' = Inr 5" "lower [] = []" by code_simp+
  then have env: "env_int plain_surroundings ''RELOAD_PORT'' ''9101'' = Inr 9101" "\<not> stub_mode plain_surroundings"
    "\<exists>l. new_config_loader plain_surroundings = Inr l"
    by (simp_all add: env_int_def getenv_or_def plain_surroundings_def stub_mode_def new_config_loader_def)
  then obtain l where l: "new_config_loader (?w 0) = Inr l" by auto
  have "main_start sample_runtime sample_startup ?w fuel = (if fuel < 2 then None
      else Some (case Inr (Some (PDict [(''device_type'', PStr ''stub'')])) of
        Inl e \<Rightarrow> Inl e | Inr c \<Rightarrow> start_with sample_runtime sample_startup True (the c) [9101]))" for fuel
    by (rule waiting_ends [where w = ?w and loader = l]) (simp_all add: env l [simplified] sample_load plain_load)
  from this [of 1] this [of 7] show ?thesis by simp
qed

end
