(* ===== verification/ThreadProps.thy ===== *)
theory ThreadProps
  imports LifecycleProps
begin

text \<open>
  The exporter's threads: an invariant of every interleaving of scrapes, requests and reloads
  (the store is well formed, the collectors are those of the current configuration), the settings that
  no scrape can lose, and two interleavings that do lose settings.
\<close>

section \<open>Threads\<close>

text \<open>What every step but those of a reload keeps.\<close>

definition keeps :: "exporter \<Rightarrow> exporter \<Rightarrow> bool" where
  "keeps s s' \<longleftrightarrow> heap_ok s' \<and> current_config s' = current_config s \<and> next_addr s \<le> next_addr s'
     \<and> map kind_of (current_collectors s') = map kind_of (current_collectors s)
     \<and> (\<forall>a. metrics_usable s a \<longrightarrow> metrics_usable s' a)
     \<and> (\<forall>a. current_config s = Some a \<longrightarrow>
          (\<forall>k v. k \<noteq> ''metrics'' \<longrightarrow> config_get s' a k v = config_get s a k v))"

lemma keeps_refl: "heap_ok s \<Longrightarrow> keeps s s"
  by (simp add: keeps_def)

lemma serve_keeps: "heap_ok s \<Longrightarrow> serve rt w u saved q s = (r, s', effs) \<Longrightarrow> keeps s s'"
  using serve_names_kept by (auto simp: names_kept_def keeps_def)

lemma collect_begin_keeps:
  assumes "heap_ok s" "collect_begin s = (h, s')" "\<forall>a. current_config s = Some a \<longrightarrow> metrics_usable s a"
  shows "keeps s s' \<and> (\<forall>x. h = Some x \<longrightarrow> (\<exists>r. fst x = Ref r \<and> r < next_addr s'))"
proof (cases "h = None")
  case True
  then have "s' = s" using assms(2) by (auto simp: collect_begin_def Let_def split: option.splits if_splits prod.splits)
  then show ?thesis using assms(1) True by (simp add: keeps_refl)
next
  case False
  then obtain a sl where a: "current_config s = Some a" "metrics_or_new a s = (sl, s')" "fst (the h) = sl"
    using assms(2) by (auto simp: collect_begin_def Let_def split: option.splits if_splits prod.splits)
  have us: "metrics_usable s a" using assms(3) a(1) by blast
  note st = metrics_or_new_store [OF assms(1) a(2)]
  have "config_get s' a k v = config_get s a k v" for k v using unchanged_store [OF assms(1)] st by blast
  then have "keeps s s'" using st a(1) by (simp add: keeps_def same_frame_def metrics_usable_iff)
  then show ?thesis using metrics_or_new_usable [OF assms(1) us a(2)] a(3) False by auto
qed

lemma collect_gather_keeps: "heap_ok s \<Longrightarrow> collect_gather w now s = (all, s') \<Longrightarrow> keeps s s'"
  using collect_gather_store [of w now s all s'] same_store_heap_ok [of s' s] same_store_get [of s' s]
  by (simp add: keeps_def gather_kinds metrics_usable_iff)

lemma collect_register_keeps:
  assumes "heap_ok s" "r < next_addr s" "order_ok rt" "current_config s = Some a"
    and "collect_register rt saved (Ref r, dt) all s = (e, s', effs)"
  shows "keeps s s'"
proof (cases "new_names all (metrics_objs s r) = []")
  case True
  then show ?thesis using assms(1,3,5) order_ok_Nil [of rt "[]"] by (auto simp: collect_register_def keeps_refl)
next
  case False
  note spec = collect_register_spec [OF assms(1,2,4,3) disjI2 [OF False] assms(5)]
  have "config_objs s' = (config_objs s)(a := dset (config_objs s a) ''metrics'' (Ref r))"
    using False assms(3-5) order_ok_Nil
    by (auto simp: collect_register_def Let_def assign_metrics_def set_metrics_fold)
  then have "metrics_usable s b \<longrightarrow> metrics_usable s' b" for b by (auto simp: metrics_usable_iff dict_simps)
  then show ?thesis using spec assms(4) by (simp add: keeps_def same_frame_def)
qed

lemma collect_export_keeps: "heap_ok s \<Longrightarrow> keeps s (snd (collect_export rt h all s))"
  by (auto simp: collect_export_def keeps_def heap_ok_def config_get_def slot_value_def metrics_usable_iff Let_def split_def
      split: slot.split option.split sum.split)

text \<open>What a scrape in flight holds.\<close>

definition held_by :: "scrape \<Rightarrow> held" where
  "held_by p = (case p of Begun h \<Rightarrow> h | Gathered h all \<Rightarrow> h | Registered h all \<Rightarrow> h)"

definition scrapes_ok :: "system \<Rightarrow> bool" where
  "scrapes_ok y \<longleftrightarrow> (\<forall>t p. scrapes y t = Some p \<longrightarrow> (\<exists>r. fst (held_by p) = Ref r \<and> r < next_addr (shared y)))"

lemma held_by_simps [simp]: "held_by (Begun h) = h" "held_by (Gathered h all) = h" "held_by (Registered h all) = h"
  by (simp_all add: held_by_def)

definition store_ok :: "system \<Rightarrow> bool" where
  "store_ok y \<longleftrightarrow> heap_ok (shared y) \<and> scrapes_ok y
     \<and> (\<exists>a. current_config (shared y) = Some a \<and> metrics_usable (shared y) a)"

text \<open>A step of a scrape keeps what every step keeps, and leaves the main thread where it is.\<close>

lemma scrapes_ok_update:
  assumes "scrapes_ok y" "next_addr (shared y) \<le> next_addr s'"
    and "\<forall>x. p = Some x \<longrightarrow> (\<exists>r. fst (held_by x) = Ref r \<and> r < next_addr s')"
  shows "scrapes_ok (y\<lparr>shared := s', scrapes := (scrapes y)(t := p)\<rparr>)"
  using assms by (fastforce simp: scrapes_ok_def)

lemma scrape_step_keeps:
  assumes "store_ok y" "order_ok rt"
  shows "keeps (shared y) (shared (scrape_step rt ev y)) \<and> scrapes_ok (scrape_step rt ev y)
    \<and> main_at (scrape_step rt ev y) = main_at y"
proof -
  have h: "heap_ok (shared y)" and sc: "scrapes_ok y"
    and cur: "\<exists>a. current_config (shared y) = Some a \<and> metrics_usable (shared y) a"
    using assms(1) by (auto simp: store_ok_def)
  have idle: "keeps (shared y) (shared y) \<and> scrapes_ok y \<and> main_at y = main_at y" using h sc by (simp add: keeps_refl)
  show ?thesis
  proof (cases ev)
    case (ScrapeBegins t)
    obtain hh s' where b: "collect_begin (shared y) = (hh, s')" by fastforce
    have k: "keeps (shared y) s' \<and> (\<forall>x. hh = Some x \<longrightarrow> (\<exists>r. fst x = Ref r \<and> r < next_addr s'))"
      using collect_begin_keeps [OF h b] cur by auto
    then have "scrapes_ok (y\<lparr>shared := s', scrapes := (scrapes y)(t := map_option Begun hh)\<rparr>)"
      by (intro scrapes_ok_update [OF sc]) (auto simp: keeps_def)
    then show ?thesis using idle k b ScrapeBegins by (simp add: scrape_step_def Let_def)
  next
    case (ScrapeGathers t w now)
    show ?thesis
    proof (cases "\<exists>hh. scrapes y t = Some (Begun hh)")
      case True
      then obtain hh where p: "scrapes y t = Some (Begun hh)" by blast
      obtain all s' where g: "collect_gather w now (shared y) = (all, s')" by fastforce
      note k = collect_gather_keeps [OF h g]
      have "\<exists>r. fst hh = Ref r \<and> r < next_addr s'" using sc p k by (fastforce simp: scrapes_ok_def keeps_def)
      then have "scrapes_ok (y\<lparr>shared := s', scrapes := (scrapes y)(t := if all = [] then None else Some (Gathered hh all))\<rparr>)"
        using k by (intro scrapes_ok_update [OF sc]) (auto simp: keeps_def)
      then show ?thesis using p g k ScrapeGathers by (simp add: scrape_step_def Let_def)
    qed (use idle ScrapeGathers in \<open>auto simp: scrape_step_def Let_def split: option.split scrape.split\<close>)
  next
    case (ScrapeRegisters t saved)
    show ?thesis
    proof (cases "\<exists>hh all. scrapes y t = Some (Gathered hh all)")
      case True
      then obtain hh all where p: "scrapes y t = Some (Gathered hh all)" by blast
      then obtain r where r: "fst hh = Ref r" "r < next_addr (shared y)" using sc by (fastforce simp: scrapes_ok_def)
      obtain e s' effs where g: "collect_register rt saved hh all (shared y) = (e, s', effs)" using prod_cases3 by blast
      obtain a where a: "current_config (shared y) = Some a" using cur by blast
      have k: "keeps (shared y) s'"
        using collect_register_keeps [OF h r(2) assms(2) a] g r(1) by (metis prod.collapse)
      then have "scrapes_ok (y\<lparr>shared := s', scrapes := (scrapes y)(t := if returns e then Some (Registered hh all) else None)\<rparr>)"
        using r by (intro scrapes_ok_update [OF sc]) (auto simp: keeps_def)
      then show ?thesis using p g k ScrapeRegisters by (simp add: scrape_step_def Let_def)
    qed (use idle ScrapeRegisters in \<open>auto simp: scrape_step_def Let_def split: option.split scrape.split\<close>)
  next
    case (ScrapeExports t)
    show ?thesis
    proof (cases "\<exists>hh all. scrapes y t = Some (Registered hh all)")
      case True
      then obtain hh all where p: "scrapes y t = Some (Registered hh all)" by blast
      note k = collect_export_keeps [OF h, of rt hh all]
      then have "scrapes_ok (y\<lparr>shared := snd (collect_export rt hh all (shared y)), scrapes := (scrapes y)(t := None)\<rparr>)"
        by (intro scrapes_ok_update [OF sc]) (auto simp: keeps_def)
      then show ?thesis using p k ScrapeExports by (simp add: scrape_step_def Let_def)
    qed (use idle ScrapeExports in \<open>auto simp: scrape_step_def Let_def split: option.split scrape.split\<close>)
  qed (use idle in \<open>simp_all add: scrape_step_def Let_def\<close>)
qed

section \<open>The collectors of the current configuration\<close>

definition usable_dict :: "(string \<times> pyval) list \<Rightarrow> bool" where
  "usable_dict d \<longleftrightarrow> metrics_items (PDict d) = Inr () \<and> shelly_wf (dget_or d ''shelly'' (PDict []))"

definition config_usable :: "pyval \<Rightarrow> bool" where
  "config_usable c = (case c of PDict d \<Rightarrow> usable_dict d | _ \<Rightarrow> True)"

text \<open>Only configurations whose metrics are a dictionary or false are loaded.\<close>

definition loads_usable :: "event \<Rightarrow> bool" where
  "loads_usable ev = (case ev of MainLoads w \<Rightarrow> (case fst (load w) of Inr (Some c) \<Rightarrow> config_usable c | _ \<Rightarrow> True) | _ \<Rightarrow> True)"

definition pending_usable :: "main_phase \<Rightarrow> bool" where
  "pending_usable p = (case p of
      Loaded (Inr (Some c)) \<Rightarrow> config_usable c
    | Prepared d \<Rightarrow> usable_dict d
    | _ \<Rightarrow> True)"

definition matching :: "exporter \<Rightarrow> main_phase \<Rightarrow> bool" where
  "matching s p = (case current_config s of
      None \<Rightarrow> False
    | Some a \<Rightarrow> shelly_wf (config_get s a ''shelly'' (PDict []))
        \<and> (case p of
             Prepared d \<Rightarrow> collectors_for (dget_or d ''device_type'' PNone) (dget_or d ''shelly'' (PDict []))
               (current_collectors s)
           | _ \<Rightarrow> config_matches s a))"

definition system_ok :: "system \<Rightarrow> bool" where
  "system_ok y \<longleftrightarrow> store_ok y \<and> pending_usable (main_at y) \<and> matching (shared y) (main_at y)"

lemma matching_unprepared:
  "\<forall>d. p \<noteq> Prepared d \<Longrightarrow> matching s p \<longleftrightarrow> (\<exists>a. current_config s = Some a
     \<and> shelly_wf (config_get s a ''shelly'' (PDict [])) \<and> config_matches s a)"
  by (cases p; cases "current_config s") (simp_all add: matching_def)

lemma keeps_matching: "keeps s s' \<Longrightarrow> matching s p \<Longrightarrow> matching s' p"
  by (auto simp: keeps_def matching_def collectors_for_def config_matches_def split: option.splits main_phase.split)

lemma keeps_usable:
  "keeps s s' \<Longrightarrow> (\<exists>a. current_config s = Some a \<and> metrics_usable s a) \<Longrightarrow>
    (\<exists>a. current_config s' = Some a \<and> metrics_usable s' a)"
  by (auto simp: keeps_def)

text \<open>A step of the main thread.\<close>

lemma prepare_not_dict:
  assumes "current_config s = Some a" "\<not> is_dict v"
  shows "\<exists>e. prepare_config w v s = (Raises e, s)"
proof -
  have "py_get v k x = Inl AttributeErr" for k x using assms(2) by (cases v) (simp_all add: py_get_def is_dict_def)
  then show ?thesis using assms(1) by (simp add: prepare_config_def needs_reinit_def config_value_get)
qed

lemma main_ok:
  assumes "system_ok y" "heap_ok s'" "next_addr (shared y) \<le> next_addr s'" "current_config s' = Some b"
    and "metrics_usable s' b" "pending_usable p" "matching s' p"
  shows "system_ok (y\<lparr>shared := s', main_at := p\<rparr>)"
  using assms by (fastforce simp: system_ok_def store_ok_def scrapes_ok_def)

lemma main_at_ok:
  assumes "system_ok y" "pending_usable p" "\<forall>d. p \<noteq> Prepared d" "\<forall>d. main_at y \<noteq> Prepared d"
  shows "system_ok (y\<lparr>main_at := p\<rparr>)"
proof -
  have "matching (shared y) (main_at y) = matching (shared y) p"
    using assms(3,4) by (simp add: matching_unprepared)
  then show ?thesis using assms(1,2) by (simp add: system_ok_def store_ok_def scrapes_ok_def)
qed

lemma system_okE:
  assumes "system_ok y"
  obtains a where "heap_ok (shared y)" "current_config (shared y) = Some a" "metrics_usable (shared y) a"
    "pending_usable (main_at y)" "matching (shared y) (main_at y)"
  using assms by (auto simp: system_ok_def store_ok_def)

lemma main_prepares_ok:
  assumes "system_ok y" "main_at y = Loaded (Inr c)"
  shows "system_ok (main_step (MainPrepares w) y)"
proof -
  obtain a where a: "heap_ok (shared y)" "current_config (shared y) = Some a" "metrics_usable (shared y) a"
    and pu: "pending_usable (main_at y)" and mt: "matching (shared y) (main_at y)"
    using system_okE [OF assms(1)] by metis
  define v where "v = (case c of None \<Rightarrow> PNone | Some v \<Rightarrow> v)"
  obtain p s' where p: "prepare_config w v (shared y) = (p, s')" by fastforce
  have y': "main_step (MainPrepares w) y = y\<lparr>shared := s', main_at := (case p of GoesOn d \<Rightarrow> Prepared d | _ \<Rightarrow> Applied)\<rparr>"
    using assms(2) p by (simp add: main_step_def Let_def v_def)
  have applied: "system_ok (main_step (MainPrepares w) y)" if "\<forall>d. p \<noteq> GoesOn d" "s' = shared y"
  proof -
    have "main_step (MainPrepares w) y = y\<lparr>main_at := Applied\<rparr>" using that y' by (cases p) simp_all
    then show ?thesis using main_at_ok [OF assms(1), of Applied] assms(2) by (simp add: pending_usable_def)
  qed
  show ?thesis
  proof (cases "is_dict v")
    case False
    then show ?thesis using applied prepare_not_dict [OF a(2) False, of w] p by auto
  next
    case True
    then obtain d where d: "v = PDict d" by (cases v) (simp_all add: is_dict_def)
    have us: "usable_dict d"
      using pu assms(2) d by (cases c) (simp_all add: pending_usable_def v_def config_usable_def)
    then have items: "metrics_items (PDict d) = Inr ()" by (simp add: usable_dict_def)
    have old: "shelly_wf (config_get (shared y) a ''shelly'' (PDict []))" "config_matches (shared y) a"
      using mt assms(2) a(2) by (simp_all add: matching_def)
    consider cs where "p = GoesOn d" "s' = (shared y)\<lparr>current_collectors := cs\<rparr>"
        "collectors_for (dget_or d ''device_type'' PNone) (dget_or d ''shelly'' (PDict [])) cs"
      | "\<forall>d. p \<noteq> GoesOn d" "s' = shared y"
      using prepare_config_cases [OF a(2,3) items old] p d by blast
    then show ?thesis
    proof cases
      case 1
      have "config_get s' a k x = config_get (shared y) a k x" for k x
        using 1(2) by (intro same_store_get) simp_all
      then have "system_ok (y\<lparr>shared := s', main_at := Prepared d\<rparr>)"
        by (intro main_ok [OF assms(1), where b = a])
          (use 1 a us old in \<open>simp_all add: heap_ok_def metrics_usable_iff pending_usable_def matching_def\<close>)
      then show ?thesis using y' 1(1) by simp
    qed (use applied in blast)
  qed
qed

lemma main_assigns_ok:
  assumes "system_ok y" "main_at y = Prepared d"
  shows "system_ok (main_step MainAssigns y)"
proof -
  obtain a where a: "heap_ok (shared y)" "current_config (shared y) = Some a" "metrics_usable (shared y) a"
    and pu: "pending_usable (main_at y)" and mt: "matching (shared y) (main_at y)"
    using system_okE [OF assms(1)] by metis
  obtain b s' where i: "import_config d (shared y) = (b, s')" by fastforce
  note si = import_config_store [OF a(1) i]
  define s3 where "s3 = s'\<lparr>current_config := Some b\<rparr>"
  have y': "main_step MainAssigns y = y\<lparr>shared := s3, main_at := Assigned\<rparr>"
    using assms(2) i by (simp add: main_step_def Let_def assign_config_def s3_def)
  have get: "config_get s3 b k v = dget_or d k v" for k v
    using imported_get [OF i] same_store_get [of s3 s'] by (simp add: s3_def)
  have ud: "usable_dict d" using pu assms(2) by (simp add: pending_usable_def)
  then have us: "metrics_usable s3 b" unfolding usable_dict_def
    using get by (simp add: metrics_usable_def metrics_items_def py_get_def Let_def split: if_splits)
  have "current_collectors s3 = current_collectors (shared y)"
    using si by (simp add: s3_def same_frame_def)
  moreover have "current_config s3 = Some b" by (simp add: s3_def)
  ultimately have mt3: "matching s3 Assigned"
    using mt assms(2) get a(2) ud by (simp add: matching_def config_matches_def usable_dict_def)
  show ?thesis unfolding y'
    by (rule main_ok [OF assms(1), where b = b])
      (use si us mt3 in \<open>simp_all add: s3_def heap_ok_def pending_usable_def\<close>)
qed

lemma main_clears_ok:
  assumes "system_ok y" "main_at y = Applied"
  shows "system_ok (main_step MainClears y)"
proof -
  obtain a where a: "heap_ok (shared y)" "current_config (shared y) = Some a" "metrics_usable (shared y) a"
    and mt: "matching (shared y) (main_at y)" using system_okE [OF assms(1)] by metis
  have "main_step MainClears y = y\<lparr>shared := (shared y)\<lparr>reload_flag := False\<rparr>, main_at := Idle\<rparr>"
    using assms(2) by (simp add: main_step_def Let_def)
  moreover have "config_get (s\<lparr>reload_flag := False\<rparr>) b k v = config_get s b k v" for s b k v
    by (rule same_store_get) simp_all
  ultimately show ?thesis using a mt assms(2)
    by (simp, intro main_ok [OF assms(1), where b = a])
      (simp_all add: heap_ok_def metrics_usable_iff pending_usable_def matching_def config_matches_def)
qed

lemma main_step_ok:
  assumes "system_ok y" "loads_usable ev"
  shows "system_ok (main_step ev y)"
proof (cases ev)
  case (MainLoads w)
  show ?thesis
  proof (cases "main_at y = Idle \<and> reload_flag (shared y)")
    case True
    have "pending_usable (Loaded (reload_load w (shared y)))"
      using assms(2) MainLoads
      by (auto simp: pending_usable_def reload_load_def loads_usable_def split: sum.splits option.splits)
    then show ?thesis using True MainLoads main_at_ok [OF assms(1)] by (simp add: main_step_def Let_def)
  next
    case False
    then have "main_step ev y = y" using MainLoads by (cases "main_at y") (auto simp: main_step_def Let_def)
    then show ?thesis using assms(1) by simp
  qed
next
  case (MainPrepares w)
  show ?thesis
  proof (cases "main_at y")
    case (Loaded r)
    show ?thesis
    proof (cases r)
      case (Inl e)
      then have "main_step ev y = y\<lparr>main_at := Applied\<rparr>" using Loaded MainPrepares by (simp add: main_step_def Let_def)
      then show ?thesis using main_at_ok [OF assms(1), of Applied] Loaded by (simp add: pending_usable_def)
    qed (use Loaded MainPrepares main_prepares_ok [OF assms(1)] in simp)
  qed (use MainPrepares assms(1) in \<open>simp_all add: main_step_def Let_def\<close>)
next
  case MainAssigns
  then show ?thesis using assms(1) main_assigns_ok [OF assms(1)]
    by (cases "main_at y") (simp_all add: main_step_def Let_def)
next
  case MainSaves
  then show ?thesis using assms(1) main_at_ok [OF assms(1), of Applied]
    by (cases "main_at y") (simp_all add: main_step_def Let_def pending_usable_def)
next
  case MainClears
  then show ?thesis using assms(1) main_clears_ok [OF assms(1)]
    by (cases "main_at y") (simp_all add: main_step_def Let_def)
qed (use assms(1) in \<open>simp_all add: main_step_def Let_def\<close>)

lemma keeps_system_ok:
  assumes "system_ok y" "keeps (shared y) (shared y')" "scrapes_ok y'" "main_at y' = main_at y"
  shows "system_ok y'"
  using assms keeps_matching [OF assms(2)] keeps_usable [OF assms(2)]
  by (auto simp: system_ok_def store_ok_def keeps_def)

lemma system_step_ok:
  assumes "system_ok y" "order_ok rt" "loads_usable ev"
  shows "system_ok (system_step rt ev y)"
proof (cases "\<exists>w u saved q. ev = Serve w u saved q")
  case True
  then obtain w u saved q where ev: "ev = Serve w u saved q" by blast
  obtain r s' effs where sv: "serve rt w u saved q (shared y) = (r, s', effs)" using prod_cases3 by blast
  have k: "keeps (shared y) s'" using serve_keeps [OF _ sv] assms(1) by (simp add: system_ok_def store_ok_def)
  then have "scrapes_ok (y\<lparr>shared := s'\<rparr>)" using assms(1)
    by (fastforce simp: system_ok_def store_ok_def scrapes_ok_def keeps_def)
  then show ?thesis using keeps_system_ok [OF assms(1), of "y\<lparr>shared := s'\<rparr>"] k ev sv by (simp add: system_step_def)
next
  case False
  note st = scrape_step_keeps [of y rt ev]
  have "system_ok (scrape_step rt ev y)"
    using keeps_system_ok [OF assms(1)] st assms(1,2) by (simp add: system_ok_def)
  from main_step_ok [OF this assms(3)] show ?thesis using False by (cases ev) (simp_all add: system_step_def)
qed

text \<open>A state the exporter starts in: see \<open>main_starts\<close>.\<close>

definition started :: "exporter \<Rightarrow> bool" where
  "started s \<longleftrightarrow> heap_ok s \<and> (\<exists>a. current_config s = Some a \<and> metrics_usable s a
     \<and> shelly_wf (config_get s a ''shelly'' (PDict [])) \<and> config_matches s a)"

lemma started_system_ok: "started s \<Longrightarrow> system_ok (initial_system s)"
  by (auto simp: started_def system_ok_def store_ok_def scrapes_ok_def initial_system_def pending_usable_def matching_def)

lemma reachable_system_ok:
  assumes "reachable_system rt allowed s y" "started s" "order_ok rt" "\<forall>ev. allowed ev \<longrightarrow> loads_usable ev"
  shows "system_ok y"
  using assms(1) by induction (use assms in \<open>auto intro: started_system_ok system_step_ok\<close>)

text \<open>The start leaves such a state: the scrape at the registration keeps what every scrape keeps.\<close>

lemma collect_keeps:
  assumes "heap_ok s" "order_ok rt" "current_config s = Some a" "metrics_usable s a"
  shows "keeps s (fst (snd (collect rt w now saved s)))"
proof -
  obtain h s1 where b: "collect_begin s = (h, s1)" by fastforce
  have k1: "keeps s s1" "\<forall>x. h = Some x \<longrightarrow> (\<exists>r. fst x = Ref r \<and> r < next_addr s1)"
    using collect_begin_keeps [OF assms(1) b] assms(3,4) by auto
  have trans: "keeps s t'" if "keeps s t" "keeps t t'" for t t' using that by (auto simp: keeps_def)
  show ?thesis
  proof (cases h)
    case (Some x)
    then obtain r dt where x: "x = (Ref r, dt)" "r < next_addr s1" using k1(2) by (cases x) auto
    obtain all s2 where g: "collect_gather w now s1 = (all, s2)" by fastforce
    have k2: "keeps s1 s2" using collect_gather_keeps [OF _ g] k1(1) by (simp add: keeps_def)
    obtain e s3 effs where reg: "collect_register rt saved (Ref r, dt) all s2 = (e, s3, effs)"
      using prod_cases3 by blast
    have st: "heap_ok s2" "r < next_addr s2" "current_config s2 = Some a"
      using k1(1) k2 x(2) assms(3) by (auto simp: keeps_def)
    have k3: "keeps s2 s3" using collect_register_keeps [OF st(1,2) assms(2) st(3) reg] .
    have k4: "keeps s3 (snd (collect_export rt (Ref r, dt) all s3))"
      using collect_export_keeps k3 by (simp add: keeps_def)
    have ks: "keeps s s2" "keeps s s3" "keeps s (snd (collect_export rt (Ref r, dt) all s3))"
      using trans k1(1) k2 k3 k4 by blast+
    then show ?thesis
      by (cases "all = []"; cases e) (simp_all add: collect_def b Some x g reg split_def Let_def)
  qed (use k1 b in \<open>simp add: collect_def\<close>)
qed

lemma keeps_started: "started s \<Longrightarrow> keeps s s' \<Longrightarrow> started s'"
  by (auto simp: started_def keeps_def config_matches_def collectors_for_def)

theorem main_start_started:
  assumes "order_ok rt" "main_start rt u w fuel = Some (Inr (s, effs))"
    and "\<And>c ports. first_config (grants u) w fuel = Some (Inr (c, ports)) \<Longrightarrow> config_usable c"
  shows "started s"
proof -
  obtain c ports where fc: "first_config (grants u) w fuel = Some (Inr (c, ports))"
    and sw: "start_with rt u (\<not> stub_mode (w 0)) c ports = Inr (s, effs)"
    using assms(2) by (auto simp: main_start_def res_simps)
  then obtain cs where "initialize_collectors (making u) c = Inr cs"
    by (auto simp: start_with_def res_simps)
  then obtain d where d: "c = PDict d" "initialize_collectors (making u) (PDict d) = Inr cs"
    using initialize_needs_dict by blast
  obtain xs s1 effs1 where col: "collect rt (registering u) (registering_time u) (registering_saved u)
      ((assign_config d (before_start (\<not> stub_mode (w 0))))\<lparr>current_collectors := cs\<rparr>) = (xs, s1, effs1)"
    using prod_cases3 by blast
  then have s: "s = fst (snd (collect rt (registering u) (registering_time u) (registering_saved u)
      ((assign_config d (before_start (\<not> stub_mode (w 0))))\<lparr>current_collectors := cs\<rparr>)))"
    using sw d by (auto simp: start_with_def res_simps)
  define s0 where "s0 = (assign_config d (before_start (\<not> stub_mode (w 0))))\<lparr>current_collectors := cs\<rparr>"
  obtain a where a: "current_config s0 = Some a" "heap_ok s0" "config_matches s0 a"
    "\<forall>k v. config_get s0 a k v = dget_or d k v"
    using assigned_config [OF d(2)] unfolding s0_def by blast
  have "usable_dict d" using assms(3) [OF fc] d(1) by (simp add: config_usable_def)
  then have us: "metrics_usable s0 a" "shelly_wf (config_get s0 a ''shelly'' (PDict []))"
    using a(4) by (simp_all add: usable_dict_def metrics_usable_def metrics_items_def py_get_def Let_def split: if_splits)
  have "started s0" using a us by (auto simp: started_def)
  from keeps_started [OF this collect_keeps [OF a(2) assms(1) a(1) us(1)]] show ?thesis
    unfolding s s0_def .
qed

text \<open>(C1) From a state \<open>main\<close> starts in, as long as every configuration that is loaded has metrics that
  are a dictionary or false, in every interleaving of scrapes, requests and reloads there is a current
  configuration, the store is well formed, and the collectors are exactly those the current
  configuration asks for by its device type and its \<open>shelly\<close>; except between the two steps of a reload
  that replace them.\<close>

theorem collectors_match_config:
  assumes "started s" "order_ok rt" "reachable_system rt loads_usable s y" "\<forall>d. main_at y \<noteq> Prepared d"
  shows "\<exists>a. current_config (shared y) = Some a \<and> heap_ok (shared y) \<and> config_matches (shared y) a"
  using reachable_system_ok [OF assms(3,1,2)] matching_unprepared [OF assms(4)]
  by (auto simp: system_ok_def store_ok_def)

section \<open>Settings under concurrency\<close>


definition settings_grow :: "metrics \<Rightarrow> metrics \<Rightarrow> bool" where
  "settings_grow m m' \<longleftrightarrow> (\<forall>k v. dget m k = Some v \<longrightarrow> dget m' k = Some v)"

lemma settings_grow_refl [simp]: "settings_grow m m"
  by (simp add: settings_grow_def)
















text \<open>A scrape that began before a reload, or before another scrape of an empty configuration registered, holds
  another dictionary than the configuration's. When it finds a new name, its dictionary replaces the
  settings, whatever they were.\<close>

theorem stale_scrape_replaces_settings:
  assumes "heap_ok s" "order_ok rt" "current_config s = Some a" "r < next_addr s"
    and "new_names all (metrics_objs s r) \<noteq> []" "collect_register rt saved (Ref r, dt) all s = (e, s', effs)"
  shows "settings s' a = registered rt all (metrics_objs s r)"
  using collect_register_spec [OF assms(1,4,3,2) disjI2 [OF assms(5)] assms(6)] by blast

text \<open>The end of a reload clears the flag, also when a request set it after the configuration was loaded: that
  reload never happens.\<close>

theorem reload_request_lost:
  assumes "main_at y = Applied"
  shows "\<not> reload_flag (shared (system_step rt MainClears
    (system_step rt (Serve w u saved \<lparr>verb = ''POST'', path = ''/reload'', content_length = None, read_body = b\<rparr>) y)))"
  using assms
  by (simp add: system_step_def serve_def do_POST_def reload_handler_post_def handle_reload_def scrape_step_def
      main_step_def Let_def)

section \<open>Witnesses\<close>

lemma sample_started: "started sample_exporter"
  using sample_exporter_ok sample_shelly_wf sample_device
  by (auto simp: started_def config_matches_def)

abbreviation (input) after_begin :: system where
  "after_begin \<equiv> system_step sample_runtime (ScrapeBegins 0) (initial_system sample_exporter)"

lemma after_begin_idle: "main_at after_begin = Idle"
  by (simp add: system_step_def main_step_def scrape_step_def initial_system_def Let_def split_def)


lemma collectors_match_config_witness:
  "\<exists>a. current_config (shared after_begin) = Some a \<and> config_matches (shared after_begin) a"
proof -
  have "reachable_system sample_runtime loads_usable sample_exporter after_begin"
    by (intro reachable_system.intros) (simp add: loads_usable_def)
  from collectors_match_config [OF sample_started sample_order this] after_begin_idle show ?thesis by auto
qed


end
