(* ===== verification/Spec2Isabelle.thy ===== *)
theory Spec2Isabelle
  imports TegrastatsProps CollectorsProps ShellyServerProps ConfigLoaderProps ThreadProps
begin

text \<open>
  \<^bold>\<open>The program.\<close> \<open>edge-metrics\<close> measures power and load on edge devices. Its Python part, modelled here, is the
  exporter (\<open>src/exporter/\<close>): a process per device that collects metrics when Prometheus scrapes it, decides by a
  configuration which it exports, and has a management API; beside it runs the Shelly server, to which smart plugs
  connect by WebSocket and which the exporter asks by HTTP. The configuration comes from a central server (a
  Go program), from a local file, or from the environment.

  \<^bold>\<open>The parts and their theories.\<close> Each part has a theory with its state and operations, under the names of the code,
  and a theory \<open>...Props\<close> with what is proved about it.

  \<^item> \<open>Prelude\<close>, \<open>PyFloat\<close>, \<open>PyStr\<close>, \<open>PyVal\<close>, \<open>PyRegex\<close>: the Python the code uses. Exceptions are values: an operation that
    may raise has a result of type \<open>'a res\<close>. Dictionaries keep insertion order. Floats are the rationals of the
    IEEE double format with rounding to nearest even, infinities and \<open>NaN\<close>. Values from JSON and YAML are \<open>pyval\<close>, with
    the dynamic type checks of \<open>in\<close>, \<open>[]\<close>, \<open>.get\<close>, \<open>float()\<close>, \<open>int()\<close>, \<open>==\<close>. Regular expressions are matched with
    Python's leftmost, greedy backtracking.
  \<^item> \<open>MetricSource\<close>: the locale \<open>metric_source\<close>, the contract of a collector (distinct names of one namespace, numbers as
    values); interpreted for the Jetson collectors, the edge server and the stub.
  \<^item> \<open>Tegrastats\<close>, \<open>TegrastatsSpec\<close>, \<open>TegrastatsOverlay\<close>: the parsers of \<open>collectors/jetson_*.py\<close>, section by section (each an interpretation of \<open>metric_section_spec\<close>),
    their common form, and the comparison of the Xavier with the Orin parser.
  \<^item> \<open>EdgeServer\<close>: \<open>collectors/edge_server.py\<close>, over a file system any access of which may raise, the tests whether a path
    exists or is a directory included; the state kept between two collections is \<open>edge_state\<close>.
  \<^item> \<open>Http\<close>, \<open>Collectors\<close>: the rest of \<open>collectors/\<close>: the factory, the operations on the tegrastats process and what they
    leave of it (\<open>process_after\<close>), the Shelly client, the stub, the three collectors that only raise.
  \<^item> \<open>ShellyServer\<close>: \<open>shelly_server.py\<close> as a machine over the events of its \<open>asyncio\<close> loop: a connection opens, sends a
    message, closes; a request comes, its send is done or fails, its answer comes or its limit of 5 s passes, which
    runs only once the send is done. One event runs up to the next \<open>await\<close>. \<open>reachable\<close> are the states from the empty
    server.
  \<^item> \<open>ConfigLoader\<close>: \<open>config_loader.py\<close>. \<open>load\<close> gives the configuration and the list of its requests and pauses; a save is
    the list of the disk states it goes through, so that a crash or another save can come between any two.
  \<^item> \<open>Exporter\<close>: the shared state of \<open>exporter.py\<close> and the scrape. The scrape keeps a reference to a dictionary that requests
    change and reloads replace, so configurations and their metrics live in a store by address.
  \<^item> \<open>ManagementApi\<close>: the HTTP handlers of \<open>exporter.py\<close>.
  \<^item> \<open>Lifecycle\<close>: \<open>initialize_collectors\<close>, \<open>apply_new_config\<close>, \<open>main\<close> with its waiting mode and reload loop, and the
    interleaving of the threads (\<open>system_step\<close>): a scrape is four steps, a reload five, a request one. The start
    (\<open>start_with\<close>) includes the scrape by which \<open>prometheus_client\<close> asks a collector it registers for its names;
    \<open>main_start_started\<close> shows that what \<open>main\<close> leaves is a state the interleavings start from (\<open>started\<close>).

  \<^bold>\<open>What is shown.\<close>

  \<^item> Parsers and collectors: what is exported are valid names and numbers, whatever the device prints; rails and
    percentages have the values and bounds they should; Xavier parses as Orin but for one metric; a counter
    wraparound does not show, and no power is negative where the range of the counter is known (it is where it is
    not: \<open>unknown_range_exports_negative\<close>); which exceptions a line can raise, groups that took no part in a match
    included, and which errors lose a collection; which failures leave a tegrastats process running.
  \<^item> Shelly server: registered devices are connected, pending futures belong to requests in progress, every request
    waiting for its answer can end by it or by its limit; the statuses; the extraction is total; the registration a
    reconnecting plug loses. The two dictionaries of the server are interpretations of the locale \<open>keyed_store\<close>.
  \<^item> Configuration: \<open>load\<close> refines the order of its sources (\<open>load_spec\<close>), its requests are bounded and repeated only after
    a connection problem or an empty answer, a save is atomic at every point of it and what is saved is loaded, as
    long as no other save runs.
  \<^item> Exporter: a scrape registers what it collects, keeps every setting, exports exactly what is enabled, and is silent
    when there is nothing new; requests never change the set of names; an update sets exactly what it says; applying
    a configuration is all or nothing, when the metrics of both are usable; in every interleaving the collectors are
    exactly those the current configuration asks for, the URL of the Shelly server included, when the loaded
    configurations have usable metrics, and no scrape changes a setting of a dictionary that is not empty, until a
    reload; the waiting mode ends with the first answer that is a configuration, not before. Beside these stand
    the theorems on what does fail: refused updates applied in part, reload requests lost, stale scrapes, configurations
    that block every reload, a port bound twice, saves that empty the file.

  \<^bold>\<open>Bounds and fuel.\<close> Only the waiting mode may run forever. It takes a number of polls; \<open>waiting_ends\<close> shows
  that it still waits (\<open>None\<close>) with fewer polls than the first configuration needs, and that any number from there on gives
  the start with this configuration. All other functions are total.

  \<^bold>\<open>Parameters.\<close> What the code calls but does not define is an argument: the answers of HTTP servers (\<open>http_result\<close>), YAML
  and JSON texts (given as the value they parse to, or a failure), the files, the clocks, \<open>math.sin\<close>, the behaviour of the
  tegrastats process, the names \<open>prometheus_client\<close> accepts (\<open>gauge_ok\<close>), the order of a set (\<open>set_order\<close>, of which only
  \<open>order_ok\<close> is assumed: it gives the elements of the set), the ports the system grants.

  \<^bold>\<open>Not modelled.\<close> Handlers the HTTP library cancels when a client goes away; log lines; the texts of exceptions that do not carry one in the code; keys of dictionaries that are not
  strings, and characters outside Latin-1; threads that cannot be started; requests to the management server while \<open>main\<close> is
  between waiting and the first scrape; other threads inside one of the steps named above (a scrape's export reads
  its dictionary while it yields, a health report after it left the lock). The Go configuration server, the web front
  end, the Helm charts, dashboards and scripts are other programs.
\<close>

end
